(* ===== verification/Prelude.thy ===== *)
theory Prelude
  imports Main "HOL-Library.Sublist" "HOL-Library.List_Lexorder" "HOL-Library.Product_Lexorder"
    "HOL-Library.Char_ord"
begin

text \<open>
  Shared vocabulary of the development: identifiers, clocks and calendar values, Python string
  primitives that the sources call, results of fallible code, the pagination arithmetic that the
  Project and the Task listings have in common, and the generic lemmas on lists of rows that
  every repository model rests on. The collections \<open>row_simps\<close> and \<open>schema_simps\<close> gather the
  unfolding rules that component proofs pass to the simplifier.
\<close>

named_theorems row_simps \<open>lookup and update of rows by their identity\<close>
named_theorems schema_simps \<open>unfolding of request and response contracts\<close>

section \<open>Identifiers, instants and calendar dates\<close>

text \<open>
  A UUID is only compared, stored and used as an ordering key, so it is a natural number. A
  stored timestamp is an instant: microseconds on the UTC time line. A calendar date is its day
  number. A Python \<open>datetime\<close> is naive (wall clock only) or aware (wall clock and UTC offset).
\<close>

type_synonym uuid = nat
type_synonym instant = int
type_synonym date = int

datatype datetime = Naive int | Aware int int

text \<open>\<open>value.astimezone(UTC)\<close> of an aware value; a naive value has no instant.\<close>

fun utc_instant :: "datetime \<Rightarrow> instant option" where
  "utc_instant (Naive w) = None"
| "utc_instant (Aware w offset) = Some (w - offset)"

text \<open>\<open>datetime.combine(d, time.min, tzinfo=UTC)\<close>.\<close>

definition day_start :: "date \<Rightarrow> instant" where
  "day_start d = d * 86400000000"

lemma day_start_le_iff [simp]: "day_start a \<le> day_start b \<longleftrightarrow> a \<le> b"
  by (simp add: day_start_def)

section \<open>Python string primitives\<close>

text \<open>
  \<open>str.isspace\<close> of one character, on the code points below 256 that \<open>char\<close> represents.
\<close>

definition py_space :: "char \<Rightarrow> bool" where
  "py_space c \<longleftrightarrow> (let n = (of_char c :: nat) in
     (9 \<le> n \<and> n \<le> 13) \<or> (28 \<le> n \<and> n \<le> 32) \<or> n = 133 \<or> n = 160)"

text \<open>\<open>str.strip()\<close> and \<open>str.isspace()\<close>.\<close>

definition strip :: "string \<Rightarrow> string" where
  "strip s = rev (dropWhile py_space (rev (dropWhile py_space s)))"

definition isspace :: "string \<Rightarrow> bool" where
  "isspace s \<longleftrightarrow> s \<noteq> [] \<and> list_all py_space s"

text \<open>PostgreSQL's \<open>btrim(s) <> ''\<close> trims the space character only.\<close>

definition btrim_nonblank :: "string \<Rightarrow> bool" where
  "btrim_nonblank s \<longleftrightarrow> \<not> list_all (\<lambda>c. c = CHR '' '') s"

lemma dropWhile_prefix_last:
  "dropWhile P xs = [] \<or> last (dropWhile P xs) = last xs"
  by (induction xs) auto

lemma strip_hd: "strip s \<noteq> [] \<Longrightarrow> \<not> py_space (hd (strip s))"
proof -
  assume ne: "strip s \<noteq> []"
  let ?u = "dropWhile py_space s"
  have "suffix (dropWhile py_space (rev ?u)) (rev ?u)"
    by (rule suffix_dropWhile)
  then obtain zs where "rev ?u = zs @ dropWhile py_space (rev ?u)"
    by (auto simp: suffix_def)
  then have u: "?u = strip s @ rev zs"
    by (metis rev_append rev_rev_ident strip_def)
  then have "hd ?u = hd (strip s)" and "?u \<noteq> []"
    using ne by (auto simp: hd_append)
  then show ?thesis
    by (metis hd_dropWhile)
qed

lemma strip_last: "strip s \<noteq> [] \<Longrightarrow> \<not> py_space (last (strip s))"
  by (metis hd_dropWhile last_rev strip_def Nil_is_rev_conv)

lemma strip_idem [simp]: "strip (strip s) = strip s"
proof (cases "strip s = []")
  case True
  then show ?thesis by (simp only: True) (simp add: strip_def)
next
  case False
  let ?t = "strip s"
  have "dropWhile py_space ?t = ?t"
    using False strip_hd [OF False] by (cases ?t) auto
  moreover have "dropWhile py_space (rev ?t) = rev ?t"
    using False strip_last [OF False] by (cases "rev ?t") (auto simp: last_rev hd_rev)
  ultimately show ?thesis
    by (simp add: strip_def [of ?t])
qed

lemma length_strip_le: "length (strip s) \<le> length s"
  by (metis length_dropWhile_le length_rev order_trans strip_def)

lemma strip_nonblank: "strip s \<noteq> [] \<Longrightarrow> btrim_nonblank (strip s)"
  using strip_hd [of s]
  by (cases "strip s") (auto simp: btrim_nonblank_def py_space_def Let_def)

lemma strip_eq_Nil_iff: "strip s = [] \<longleftrightarrow> list_all py_space s"
proof
  assume "strip s = []"
  then have "list_all py_space (dropWhile py_space s)"
    by (simp add: strip_def dropWhile_eq_Nil_conv list_all_iff)
  then show "list_all py_space s"
    by (metis dropWhile_eq_Nil_conv hd_dropWhile hd_in_set list_all_iff)
qed (auto simp: strip_def list_all_iff dest: set_dropWhileD)

section \<open>Rows of a table\<close>

text \<open>
  A table is the list of its rows. \<open>session.scalar(select(T).where(P))\<close> is the first row with
  \<open>P\<close>; writing attributes of a loaded row and flushing replaces the row with its primary key;
  \<open>session.delete\<close> removes it.
\<close>

definition replace_row :: "('r \<Rightarrow> uuid) \<Rightarrow> 'r \<Rightarrow> 'r list \<Rightarrow> 'r list" where
  "replace_row key r rows = map (\<lambda>x. if key x = key r then r else x) rows"

definition delete_row :: "('r \<Rightarrow> uuid) \<Rightarrow> uuid \<Rightarrow> 'r list \<Rightarrow> 'r list" where
  "delete_row key i rows = filter (\<lambda>x. key x \<noteq> i) rows"

lemma find_SomeD: "List.find P xs = Some x \<Longrightarrow> x \<in> set xs \<and> P x"
  by (induction xs) (auto split: if_splits)

lemma find_append [row_simps]:
  "List.find P (xs @ ys) = (case List.find P xs of None \<Rightarrow> List.find P ys | Some x \<Rightarrow> Some x)"
  by (induction xs) auto

lemma find_filter_conj: "List.find P (filter Q xs) = List.find (\<lambda>x. Q x \<and> P x) xs"
  by (induction xs) auto

lemma find_cong_set: "(\<And>x. x \<in> set xs \<Longrightarrow> P x = Q x) \<Longrightarrow> List.find P xs = List.find Q xs"
  by (induction xs) auto

lemma find_distinct_key:
  "distinct (map key xs) \<Longrightarrow> x \<in> set xs \<Longrightarrow> P x \<Longrightarrow>
   (\<And>y. y \<in> set xs \<Longrightarrow> P y \<Longrightarrow> key y = key x) \<Longrightarrow> List.find P xs = Some x"
proof (induction xs)
  case (Cons y ys)
  show ?case
  proof (cases "P y")
    case True
    then have "key y = key x"
      by (intro Cons.prems(4)) auto
    then have "y = x"
      using Cons.prems(1,2) by (auto simp: image_iff)
    with True show ?thesis by simp
  next
    case False
    have "List.find P ys = Some x"
    proof (rule Cons.IH)
      show "x \<in> set ys" using Cons.prems(2,3) False by auto
      show "key z = key x" if "z \<in> set ys" "P z" for z
        using that by (intro Cons.prems(4)) auto
    qed (use Cons.prems(1,3) in auto)
    with False show ?thesis by simp
  qed
qed simp

lemma keys_replace_row [row_simps]: "map key (replace_row key r rows) = map key rows"
  by (simp add: replace_row_def)

lemma set_replace_row:
  "x \<in> set (replace_row key r rows) \<Longrightarrow> x = r \<or> (x \<in> set rows \<and> key x \<noteq> key r)"
  by (auto simp: replace_row_def)

lemma replace_row_mem: "x \<in> set rows \<Longrightarrow> key x = key r \<Longrightarrow> r \<in> set (replace_row key r rows)"
  by (force simp: replace_row_def)

lemma replace_row_other: "x \<in> set rows \<Longrightarrow> key x \<noteq> key r \<Longrightarrow> x \<in> set (replace_row key r rows)"
  by (force simp: replace_row_def)

lemma replace_row_same: "distinct (map key rows) \<Longrightarrow> r \<in> set rows \<Longrightarrow> replace_row key r rows = rows"
  unfolding replace_row_def
  by (rule map_idI) (metis distinct_map inj_onD)

lemma map_replace_row:
  "(\<And>x. x \<in> set rows \<Longrightarrow> key x = key r \<Longrightarrow> f x = f r) \<Longrightarrow>
   map f (replace_row key r rows) = map f rows"
  by (simp add: replace_row_def)

text \<open>
  Replacing a row by one with the same owner commutes with restricting the table to one owner;
  rows of other owners are untouched.
\<close>

lemma filter_replace_row_other:
  "\<not> Q r \<Longrightarrow> (\<And>x. x \<in> set rows \<Longrightarrow> key x = key r \<Longrightarrow> \<not> Q x) \<Longrightarrow>
   filter Q (replace_row key r rows) = filter Q rows"
  by (induction rows) (auto simp: replace_row_def)

lemma filter_replace_row_own:
  "Q r \<Longrightarrow> (\<And>x. x \<in> set rows \<Longrightarrow> key x = key r \<Longrightarrow> Q x) \<Longrightarrow>
   filter Q (replace_row key r rows) = replace_row key r (filter Q rows)"
  by (induction rows) (auto simp: replace_row_def)

lemma find_replace_row:
  "distinct (map key rows) \<Longrightarrow> key r \<in> key ` set rows \<Longrightarrow>
   List.find (\<lambda>x. key x = key r) (replace_row key r rows) = Some r"
  by (induction rows) (auto simp: replace_row_def)

lemma distinct_delete_row: "distinct (map key rows) \<Longrightarrow> distinct (map key (delete_row key i rows))"
  by (simp add: delete_row_def distinct_map_filter)

lemma set_delete_row [row_simps]: "set (delete_row key i rows) = {x \<in> set rows. key x \<noteq> i}"
  by (auto simp: delete_row_def)

section \<open>Pages\<close>

text \<open>
  The Project and the Task services share the page arithmetic: \<open>offset((page - 1) * size)\<close>,
  \<open>limit(size)\<close> and \<open>pages = 0 if total == 0 else (total + size - 1) // size\<close>.
\<close>

definition page_slice :: "nat \<Rightarrow> nat \<Rightarrow> 'a list \<Rightarrow> 'a list" where
  "page_slice page n xs = take n (drop ((page - 1) * n) xs)"

definition page_count :: "nat \<Rightarrow> nat \<Rightarrow> nat" where
  "page_count m n = (if m = 0 then 0 else (m + n - 1) div n)"

lemma length_page_slice: "length (page_slice page n xs) \<le> n"
  by (simp add: page_slice_def)

lemma set_page_slice: "set (page_slice page n xs) \<subseteq> set xs"
  by (metis page_slice_def set_drop_subset set_take_subset subset_trans)

lemma concat_pages_take:
  "0 < n \<Longrightarrow> concat (map (\<lambda>p. page_slice p n xs) [1..<Suc k]) = take (k * n) xs"
proof (induction k)
  case 0
  then show ?case by simp
next
  case (Suc k)
  have "concat (map (\<lambda>p. page_slice p n xs) [1..<Suc (Suc k)])
        = take (k * n) xs @ take n (drop (k * n) xs)"
    using Suc by (simp add: page_slice_def)
  also have "\<dots> = take (k * n + n) xs"
    by (simp add: take_add)
  finally show ?case by (simp add: add.commute)
qed

lemma page_count_covers: "0 < n \<Longrightarrow> m \<le> page_count m n * n"
proof -
  assume pos: "0 < n"
  have "(m + n - 1) mod n < n"
    using pos by simp
  moreover have "(m + n - 1) div n * n + (m + n - 1) mod n = m + n - 1"
    by simp
  ultimately have "m + n - 1 < (m + n - 1) div n * n + n"
    by linarith
  then show ?thesis
    by (cases "m = 0") (auto simp: page_count_def)
qed

lemma page_count_minimal: "0 < n \<Longrightarrow> k < page_count m n \<Longrightarrow> k * n < m"
proof -
  assume pos: "0 < n" and k: "k < page_count m n"
  then have "Suc k \<le> (m + n - 1) div n" and "m \<noteq> 0"
    by (auto simp: page_count_def split: if_splits)
  then have "Suc k * n \<le> m + n - 1"
    using pos by (metis div_times_less_eq_dividend le_trans mult_le_mono1)
  with \<open>m \<noteq> 0\<close> show ?thesis by simp
qed

lemma concat_all_pages:
  "0 < n \<Longrightarrow>
   concat (map (\<lambda>p. page_slice p n xs) [1..<Suc (page_count (length xs) n)]) = xs"
  by (simp only: concat_pages_take) (simp add: page_count_covers)

lemma page_slice_nonempty:
  "0 < n \<Longrightarrow> 0 < p \<Longrightarrow> p \<le> page_count (length xs) n \<Longrightarrow> page_slice p n xs \<noteq> []"
  using page_count_minimal [of n "p - 1" "length xs"]
  by (cases p) (auto simp: page_slice_def)

end
