(* ===== verification/Errors.thy ===== *)
theory Errors
  imports Prelude
begin

text \<open>
  The exceptions of the program as values. The first group is \<open>app/core/exceptions.py\<close>; the
  second group holds the exceptions that the agent modules declare for themselves
  (\<open>app/agent\<close>, \<open>app/services/agent_events.py\<close>, \<open>app/services/knowledge_retrieval.py\<close>, \<open>app/core/tokens.py\<close>,
  \<open>app/core/security.py\<close>, \<open>app/core/email_normalization.py\<close>); the last group stands for the
  exceptions of Python, Pydantic and SQLAlchemy that the code raises or catches. An
  \<open>IntegrityError\<close> carries the name of the violated constraint, which the code inspects;
  \<open>DatabaseError\<close> is every other failure of the database driver.
\<close>

datatype exn =
    DuplicateEmailError
  | InvalidCredentialsError
  | RefreshTokenIssuanceError
  | InvalidRefreshTokenError
  | AuthenticationUnavailableError
  | RefreshTokenRotationError
  | ProjectNotFoundError
  | TaskNotFoundError
  | TaskDateOrderError
  | TaskTransitionError
  | ArchivedProjectError
  | ProjectDateOrderError
  | AgentPlanningConfigurationError
  | AgentPlanningUnavailableError
  | AgentThreadNotFoundError
  | AgentRunNotFoundError
  | AgentRunConflictError
  | AgentWorkflowUnavailableError
  | AgentToolReconciliationRequiredError
  | KnowledgeDocumentInvalidError
  | KnowledgeDocumentTooLargeError
  | KnowledgeDocumentNotFoundError
  | KnowledgeDocumentIndexingError
  | AccessTokenError
  | AccessTokenConfigurationError
  | PasswordPolicyError
  | EmailNormalizationError
  | AgentToolNotAllowedError
  | AgentToolInputError
  | AgentApprovalUnavailableError
  | AgentApprovalRequiredError
  | AgentExecutionNotAuthorizedError
  | AgentFinalizationError
  | AgentContextUnavailableError
  | AgentRoutingError
  | AgentCheckpointThreadError
  | AgentCheckpointStateError
  | AgentCheckpointConfigurationError
  | AgentCheckpointUnavailableError
  | AgentRecoveryLockError
  | AgentEventCursorError
  | PromptBudgetError
  | GroundingValidationError
  | RetrievalFusionError
  | KnowledgeRetrievalError
  | EmbeddingProviderConfigurationError
  | EmbeddingProviderUnavailableError
  | EmbeddingProviderInvalidResponseError
  | ProviderError
  | ProviderConfigurationError
  | ProviderAuthenticationError
  | ProviderPermissionError
  | ProviderTimeoutError
  | ProviderTransientError
  | ProviderInvalidResponseError
  | RequestBodyLimitExceeded
  | KeyError
  | ValueError
  | TypeError
  | RuntimeError
  | AssertionError
  | ValidationError
  | IntegrityError string
  | DatabaseError

type_synonym 'a result = "exn + 'a"

text \<open>Sequencing of fallible computations: an exception skips the rest.\<close>

definition bind_result :: "'a result \<Rightarrow> ('a \<Rightarrow> 'b result) \<Rightarrow> 'b result" where
  "bind_result m f = (case m of Inl e \<Rightarrow> Inl e | Inr x \<Rightarrow> f x)"

lemma bind_result_simps [simp]:
  "bind_result (Inl e) f = Inl e"
  "bind_result (Inr x) f = f x"
  by (simp_all add: bind_result_def)

lemma bind_result_eq_Inr:
  "bind_result m f = Inr y \<longleftrightarrow> (\<exists>x. m = Inr x \<and> f x = Inr y)"
  by (cases m) auto

lemma bind_result_eq_Inl:
  "bind_result m f = Inl e \<longleftrightarrow> m = Inl e \<or> (\<exists>x. m = Inr x \<and> f x = Inl e)"
  by (cases m) auto

lemma case_option_eq_Inr:
  "(case x of None \<Rightarrow> m | Some u \<Rightarrow> f u) = Inr y \<longleftrightarrow>
   (x = None \<and> m = Inr y) \<or> (\<exists>u. x = Some u \<and> f u = Inr y)"
  by (cases x) auto

lemma if_eq_Inr: "(if b then m else n) = Inr y \<longleftrightarrow> (b \<and> m = Inr y) \<or> (\<not> b \<and> n = Inr y)"
  by auto

lemmas result_Inr = bind_result_eq_Inr case_option_eq_Inr if_eq_Inr

text \<open>\<open>assert\<close>-style guards: raise \<open>e\<close> unless the condition holds.\<close>

definition guard :: "bool \<Rightarrow> exn \<Rightarrow> unit result" where
  "guard b e = (if b then Inr () else Inl e)"

lemma guard_simps [simp]:
  "guard True e = Inr ()"
  "guard False e = Inl e"
  "guard b e = Inr u \<longleftrightarrow> b"
  "guard b e = Inl e' \<longleftrightarrow> \<not> b \<and> e' = e"
  by (auto simp: guard_def)

text \<open>Evaluating a list of fallible computations from left to right.\<close>

fun traverse :: "('a \<Rightarrow> 'b result) \<Rightarrow> 'a list \<Rightarrow> 'b list result" where
  "traverse f [] = Inr []"
| "traverse f (x # xs) =
     (case f x of Inl e \<Rightarrow> Inl e
      | Inr y \<Rightarrow> (case traverse f xs of Inl e \<Rightarrow> Inl e | Inr ys \<Rightarrow> Inr (y # ys)))"

lemma traverse_Inr_iff: "traverse f xs = Inr ys \<longleftrightarrow> list_all2 (\<lambda>x y. f x = Inr y) xs ys"
proof (induction xs arbitrary: ys)
  case Nil
  then show ?case by auto
next
  case (Cons x xs)
  show ?case
  proof (cases "traverse f xs")
    case (Inl e)
    then have "\<not> list_all2 (\<lambda>x y. f x = Inr y) xs zs" for zs
      using Cons.IH [of zs] by simp
    with Inl show ?thesis by (auto simp: list_all2_Cons1 split: sum.splits)
  next
    case (Inr zs)
    then have "list_all2 (\<lambda>x y. f x = Inr y) xs ws \<longleftrightarrow> ws = zs" for ws
      using Cons.IH [of ws] by auto
    with Inr show ?thesis by (auto simp: list_all2_Cons1 split: sum.splits)
  qed
qed

lemma traverse_total: "(\<And>x. x \<in> set xs \<Longrightarrow> f x = Inr (g x)) \<Longrightarrow> traverse f xs = Inr (map g xs)"
  by (induction xs) auto

end
