(* ===== verification/Models.thy ===== *)
theory Models
  imports Errors Complex_Main
begin

text \<open>
  The persistence model, \<open>app/models\<close>: one record per mapped class with the columns as fields,
  the enumerations of the \<open>CHECK (status IN ...)\<close> constraints as datatypes, and for each table
  the list of its named constraints as executable tests on a candidate row. A table of the
  database is the list of its rows. The columns of type \<open>String(n)\<close> bound the length of the
  stored text; PostgreSQL refuses longer text with an error that is not an integrity error.
\<close>

section \<open>Columns with a closed set of values\<close>

datatype task_status = TODO | IN_PROGRESS | COMPLETED | CANCELLED

datatype task_priority = LOW | MEDIUM | HIGH | URGENT

datatype project_status = NOT_STARTED | PROJECT_IN_PROGRESS | PROJECT_COMPLETED | ARCHIVED

datatype thread_status = THREAD_ACTIVE | THREAD_COMPLETED | THREAD_FAILED

datatype run_status = RUN_PENDING | RUN_RUNNING | RUN_PENDING_APPROVAL | RUN_SUCCEEDED
  | RUN_REJECTED | RUN_PARTIAL_FAILURE | RUN_FAILED

datatype approval_status = APPROVAL_PENDING | APPROVAL_APPROVED | APPROVAL_REJECTED
  | APPROVAL_REQUEST_CHANGES

datatype execution_status = EXEC_IN_PROGRESS | EXEC_COMPLETED | EXEC_FAILED | EXEC_UNKNOWN

datatype run_node = ANALYZE_GOAL | LOAD_CONTEXT | GENERATE_PLAN | VALIDATE_PLAN
  | REQUEST_APPROVAL | EXECUTE_TASKS | VERIFY_RESULT | SUMMARIZE

section \<open>Rows\<close>

record user =
  u_id :: uuid
  u_email :: string
  u_password_hash :: string
  u_created_at :: instant
  u_updated_at :: instant

record project =
  p_id :: uuid
  p_user_id :: uuid
  p_name :: string
  p_description :: "string option"
  p_start_date :: "date option"
  p_target_date :: "date option"
  p_status :: project_status
  p_created_at :: instant
  p_updated_at :: instant

record task =
  t_id :: uuid
  t_user_id :: uuid
  t_project_id :: uuid
  t_title :: string
  t_description :: "string option"
  t_status :: task_status
  t_priority :: task_priority
  t_planned_date :: "date option"
  t_due_at :: "instant option"
  t_estimated_minutes :: "int option"
  t_completed_at :: "instant option"
  t_created_at :: instant
  t_updated_at :: instant

record refresh_token =
  rt_id :: uuid
  rt_user_id :: uuid
  rt_token_hash :: string
  rt_created_at :: instant
  rt_expires_at :: instant
  rt_revoked_at :: "instant option"

record agent_thread =
  th_id :: uuid
  th_user_id :: uuid
  th_goal_summary :: string
  th_status :: thread_status
  th_created_at :: instant
  th_updated_at :: instant

record agent_run =
  run_id :: uuid
  run_thread_id :: uuid
  run_user_id :: uuid
  run_status_col :: run_status
  run_current_node :: "run_node option"
  run_summary :: "string option"
  run_error_code :: "string option"
  run_prompt_version :: string
  run_model_round_count :: int
  run_provider_attempt_count :: int
  run_tool_call_count :: int
  run_input_tokens :: int
  run_output_tokens :: int
  run_total_tokens :: int
  run_latency_ms :: rat
  run_created_at :: instant
  run_updated_at :: instant

record agent_approval =
  ap_id :: uuid
  ap_run_id :: uuid
  ap_user_id :: uuid
  ap_revision :: int
  ap_fingerprint :: string
  ap_decision :: approval_status
  ap_feedback :: "string option"
  ap_decided_at :: "instant option"
  ap_created_at :: instant
  ap_updated_at :: instant

record agent_tool_execution =
  ex_id :: uuid
  ex_run_id :: uuid
  ex_user_id :: uuid
  ex_revision :: int
  ex_fingerprint :: string
  ex_action_key :: string
  ex_tool_name :: string
  ex_status :: execution_status
  ex_attempt_count :: int
  ex_result_task_id :: "uuid option"
  ex_result_summary :: "string option"
  ex_error_code :: "string option"
  ex_started_at :: instant
  ex_completed_at :: "instant option"
  ex_created_at :: instant
  ex_updated_at :: instant

datatype document_status = PARSED | INDEXED

record knowledge_document =
  kd_id :: uuid
  kd_user_id :: uuid
  kd_display_name :: string
  kd_media_type :: string
  kd_byte_count :: int
  kd_content_sha256 :: string
  kd_page_count :: int
  kd_extracted_text :: string
  kd_status :: document_status
  kd_created_at :: instant
  kd_updated_at :: instant

text \<open>The computed column \<open>search_vector\<close> is a function of the content and not stored.\<close>

record knowledge_document_chunk =
  ck_id :: uuid
  ck_document_id :: uuid
  ck_user_id :: uuid
  ck_page_number :: int
  ck_ordinal :: int
  ck_content :: string
  ck_fingerprint :: string
  ck_embedding :: "rat list"

record db =
  users :: "user list"
  projects :: "project list"
  tasks :: "task list"
  refresh_tokens :: "refresh_token list"
  agent_threads :: "agent_thread list"
  agent_runs :: "agent_run list"
  agent_approvals :: "agent_approval list"
  agent_tool_executions :: "agent_tool_execution list"
  knowledge_documents :: "knowledge_document list"
  knowledge_chunks :: "knowledge_document_chunk list"

section \<open>Text formats used by constraints\<close>

definition char_between :: "char \<Rightarrow> char \<Rightarrow> char \<Rightarrow> bool" where
  "char_between lo hi c \<longleftrightarrow> (of_char lo :: nat) \<le> of_char c \<and> (of_char c :: nat) \<le> of_char hi"

text \<open>\<open>^[0-9a-f]{64}$\<close>\<close>

definition digest_format :: "string \<Rightarrow> bool" where
  "digest_format s \<longleftrightarrow> length s = 64 \<and>
     list_all (\<lambda>c. char_between CHR ''0'' CHR ''9'' c \<or> char_between CHR ''a'' CHR ''f'' c) s"

text \<open>\<open>^[a-z][a-z0-9_-]{0,63}$\<close>\<close>

definition action_key_format :: "string \<Rightarrow> bool" where
  "action_key_format s \<longleftrightarrow> (case s of [] \<Rightarrow> False
     | c # cs \<Rightarrow> char_between CHR ''a'' CHR ''z'' c \<and> length cs \<le> 63 \<and>
         list_all (\<lambda>x. char_between CHR ''a'' CHR ''z'' x \<or> char_between CHR ''0'' CHR ''9'' x
                     \<or> x = CHR ''_'' \<or> x = CHR ''-'') cs)"

text \<open>\<open>^[A-Z][A-Z0-9_]{0,63}$\<close>\<close>

definition error_code_format :: "string \<Rightarrow> bool" where
  "error_code_format s \<longleftrightarrow> (case s of [] \<Rightarrow> False
     | c # cs \<Rightarrow> char_between CHR ''A'' CHR ''Z'' c \<and> length cs \<le> 63 \<and>
         list_all (\<lambda>x. char_between CHR ''A'' CHR ''Z'' x \<or> char_between CHR ''0'' CHR ''9'' x
                     \<or> x = CHR ''_'') cs)"

definition opt_all :: "('a \<Rightarrow> bool) \<Rightarrow> 'a option \<Rightarrow> bool" where
  "opt_all P x \<longleftrightarrow> (case x of None \<Rightarrow> True | Some v \<Rightarrow> P v)"

lemma opt_all_simps [simp]: "opt_all P None" "opt_all P (Some v) \<longleftrightarrow> P v"
  by (simp_all add: opt_all_def)

section \<open>Constraints\<close>

text \<open>The first constraint of a list that the candidate row violates.\<close>

definition violated :: "(string \<times> bool) list \<Rightarrow> string option" where
  "violated cs = map_option fst (List.find (\<lambda>c. \<not> snd c) cs)"

lemma violated_None_iff: "violated cs = None \<longleftrightarrow> list_all snd cs"
  by (induction cs) (auto simp: violated_def)

definition user_checks :: "user \<Rightarrow> bool" where
  "user_checks r \<longleftrightarrow> length (u_email r) \<le> 254 \<and> length (u_password_hash r) \<le> 255"

definition project_constraints :: "db \<Rightarrow> project \<Rightarrow> (string \<times> bool) list" where
  "project_constraints d r =
     [(''ck_projects_name_not_blank'', btrim_nonblank (p_name r)),
      (''ck_projects_target_date_not_before_start_date'',
         (case (p_target_date r, p_start_date r) of
            (Some target, Some start) \<Rightarrow> start \<le> target | _ \<Rightarrow> True)),
      (''fk_projects_user_id_users'', p_user_id r \<in> u_id ` set (users d))]"

definition project_lengths :: "project \<Rightarrow> bool" where
  "project_lengths r \<longleftrightarrow> length (p_name r) \<le> 200 \<and> opt_all (\<lambda>s. length s \<le> 2000) (p_description r)"

definition task_constraints :: "db \<Rightarrow> task \<Rightarrow> (string \<times> bool) list" where
  "task_constraints d r =
     [(''ck_tasks_title_not_blank'', btrim_nonblank (t_title r)),
      (''ck_tasks_estimated_minutes'', opt_all (\<lambda>m. 1 \<le> m \<and> m \<le> 1440) (t_estimated_minutes r)),
      (''ck_tasks_due_at_not_before_planned_date'',
         (case (t_due_at r, t_planned_date r) of
            (Some due, Some planned) \<Rightarrow> day_start planned \<le> due | _ \<Rightarrow> True)),
      (''ck_tasks_completed_at_matches_status'',
         (t_status r = COMPLETED) = (t_completed_at r \<noteq> None)),
      (''fk_tasks_user_id_users'', t_user_id r \<in> u_id ` set (users d)),
      (''fk_tasks_project_id_user_id_projects'',
         (t_project_id r, t_user_id r) \<in> (\<lambda>p. (p_id p, p_user_id p)) ` set (projects d))]"

definition task_lengths :: "task \<Rightarrow> bool" where
  "task_lengths r \<longleftrightarrow> length (t_title r) \<le> 300 \<and> opt_all (\<lambda>s. length s \<le> 5000) (t_description r)"

definition refresh_token_constraints :: "db \<Rightarrow> refresh_token \<Rightarrow> (string \<times> bool) list" where
  "refresh_token_constraints d r =
     [(''ck_refresh_tokens_token_hash_format'', digest_format (rt_token_hash r)),
      (''ck_refresh_tokens_expiry_after_creation'', rt_created_at r < rt_expires_at r),
      (''ck_refresh_tokens_revocation_not_before_creation'',
         opt_all (\<lambda>t. rt_created_at r \<le> t) (rt_revoked_at r)),
      (''fk_refresh_tokens_user_id_users'', rt_user_id r \<in> u_id ` set (users d)),
      (''uq_refresh_tokens_token_hash'',
         list_all (\<lambda>x. rt_id x = rt_id r \<or> rt_token_hash x \<noteq> rt_token_hash r) (refresh_tokens d))]"

definition thread_constraints :: "db \<Rightarrow> agent_thread \<Rightarrow> (string \<times> bool) list" where
  "thread_constraints d r =
     [(''ck_agent_threads_goal_summary_not_blank'', btrim_nonblank (th_goal_summary r)),
      (''fk_agent_threads_user_id_users'', th_user_id r \<in> u_id ` set (users d))]"

definition run_constraints :: "db \<Rightarrow> agent_run \<Rightarrow> (string \<times> bool) list" where
  "run_constraints d r =
     [(''ck_agent_runs_error_code'', opt_all error_code_format (run_error_code r)),
      (''ck_agent_runs_metrics_nonnegative'',
         0 \<le> run_model_round_count r \<and> 0 \<le> run_provider_attempt_count r \<and>
         0 \<le> run_tool_call_count r \<and> 0 \<le> run_input_tokens r \<and> 0 \<le> run_output_tokens r \<and>
         0 \<le> run_total_tokens r \<and> 0 \<le> run_latency_ms r),
      (''ck_agent_runs_total_tokens'',
         run_total_tokens r = run_input_tokens r + run_output_tokens r),
      (''fk_agent_runs_thread_id_user_id_agent_threads'',
         (run_thread_id r, run_user_id r) \<in> (\<lambda>t. (th_id t, th_user_id t)) ` set (agent_threads d))]"

definition approval_constraints :: "db \<Rightarrow> agent_approval \<Rightarrow> (string \<times> bool) list" where
  "approval_constraints d r =
     [(''ck_agent_approvals_revision'', 0 \<le> ap_revision r \<and> ap_revision r \<le> 2),
      (''ck_agent_approvals_proposal_fingerprint'', digest_format (ap_fingerprint r)),
      (''ck_agent_approvals_decision_state'',
         (case ap_decision r of
            APPROVAL_PENDING \<Rightarrow> ap_decided_at r = None \<and> ap_feedback r = None
          | APPROVAL_REQUEST_CHANGES \<Rightarrow> ap_decided_at r \<noteq> None \<and>
              (case ap_feedback r of None \<Rightarrow> False | Some f \<Rightarrow> btrim_nonblank f)
          | _ \<Rightarrow> ap_decided_at r \<noteq> None \<and> ap_feedback r = None)),
      (''fk_agent_approvals_run_id_user_id_agent_runs'',
         (ap_run_id r, ap_user_id r) \<in> (\<lambda>x. (run_id x, run_user_id x)) ` set (agent_runs d)),
      (''uq_agent_approvals_run_id_revision'',
         list_all (\<lambda>x. ap_id x = ap_id r \<or> (ap_run_id x, ap_revision x) \<noteq> (ap_run_id r, ap_revision r))
           (agent_approvals d))]"

text \<open>\<open>ck_agent_tool_executions_state\<close>: which columns each execution status fills.\<close>

definition execution_state_ok :: "agent_tool_execution \<Rightarrow> bool" where
  "execution_state_ok r \<longleftrightarrow>
     (case ex_status r of
        EXEC_IN_PROGRESS \<Rightarrow> ex_result_task_id r = None \<and> ex_result_summary r = None \<and>
          ex_error_code r = None \<and> ex_completed_at r = None
      | EXEC_COMPLETED \<Rightarrow> ex_result_task_id r \<noteq> None \<and> ex_result_summary r \<noteq> None \<and>
          ex_error_code r = None \<and> ex_completed_at r \<noteq> None
      | _ \<Rightarrow> ex_result_task_id r = None \<and> ex_result_summary r = None \<and>
          ex_error_code r \<noteq> None \<and> ex_completed_at r \<noteq> None)"

definition execution_constraints :: "db \<Rightarrow> agent_tool_execution \<Rightarrow> (string \<times> bool) list" where
  "execution_constraints d r =
     [(''ck_agent_tool_executions_revision'', 0 \<le> ex_revision r \<and> ex_revision r \<le> 2),
      (''ck_agent_tool_executions_proposal_fingerprint'', digest_format (ex_fingerprint r)),
      (''ck_agent_tool_executions_action_key'', action_key_format (ex_action_key r)),
      (''ck_agent_tool_executions_tool_name'',
         ex_tool_name r \<in> {''create_task'', ''update_task'', ''batch_create_tasks'', ''delete_task''}),
      (''ck_agent_tool_executions_attempt_count'', 1 \<le> ex_attempt_count r \<and> ex_attempt_count r \<le> 100),
      (''ck_agent_tool_executions_error_code'', opt_all error_code_format (ex_error_code r)),
      (''ck_agent_tool_executions_state'', execution_state_ok r),
      (''fk_agent_tool_executions_run_id_user_id_agent_runs'',
         (ex_run_id r, ex_user_id r) \<in> (\<lambda>x. (run_id x, run_user_id x)) ` set (agent_runs d)),
      (''uq_agent_tool_executions_action_identity'',
         list_all (\<lambda>x. ex_id x = ex_id r \<or>
             (ex_run_id x, ex_revision x, ex_fingerprint x, ex_action_key x)
             \<noteq> (ex_run_id r, ex_revision r, ex_fingerprint r, ex_action_key r))
           (agent_tool_executions d))]"

definition document_constraints :: "db \<Rightarrow> knowledge_document \<Rightarrow> (string \<times> bool) list" where
  "document_constraints d r =
     [(''ck_knowledge_documents_display_name_not_blank'', btrim_nonblank (kd_display_name r)),
      (''ck_knowledge_documents_media_type'',
         kd_media_type r \<in> {''text/plain'', ''text/markdown'', ''application/pdf''}),
      (''ck_knowledge_documents_byte_count'', 1 \<le> kd_byte_count r \<and> kd_byte_count r \<le> 5242880),
      (''ck_knowledge_documents_page_count'', 1 \<le> kd_page_count r \<and> kd_page_count r \<le> 100),
      (''ck_knowledge_documents_extracted_text_length'',
         1 \<le> length (kd_extracted_text r) \<and> length (kd_extracted_text r) \<le> 200000),
      (''ck_knowledge_documents_content_sha256'', digest_format (kd_content_sha256 r)),
      (''fk_knowledge_documents_user_id_users'', kd_user_id r \<in> u_id ` set (users d))]"

definition chunk_constraints :: "db \<Rightarrow> knowledge_document_chunk \<Rightarrow> (string \<times> bool) list" where
  "chunk_constraints d r =
     [(''ck_knowledge_document_chunks_page_number'', 1 \<le> ck_page_number r \<and> ck_page_number r \<le> 100),
      (''ck_knowledge_document_chunks_ordinal'', 0 \<le> ck_ordinal r \<and> ck_ordinal r \<le> 199),
      (''ck_knowledge_document_chunks_content_length'',
         1 \<le> length (ck_content r) \<and> length (ck_content r) \<le> 2000),
      (''ck_knowledge_document_chunks_fingerprint'', digest_format (ck_fingerprint r)),
      (''fk_knowledge_document_chunks_document_owner'',
         (ck_document_id r, ck_user_id r) \<in> (\<lambda>x. (kd_id x, kd_user_id x)) ` set (knowledge_documents d)),
      (''uq_knowledge_document_chunks_document_ordinal'',
         list_all (\<lambda>x. ck_id x = ck_id r \<or> (ck_document_id x, ck_ordinal x) \<noteq> (ck_document_id r, ck_ordinal r))
           (knowledge_chunks d))]"

end
