(* ===== verification/Transactions.thy ===== *)
theory Transactions
  imports Models
begin

text \<open>
  The SQLAlchemy \<open>Session\<close> as the services use it: \<open>committed\<close> is the durable database,
  \<open>working\<close> what this session sees and has flushed. What the surroundings decide is collected in
  \<open>env\<close>: identifiers produced by \<open>gen_random_uuid()\<close> and by the injected \<open>id_factory\<close>, the
  value of \<open>CURRENT_TIMESTAMP\<close>, the injected clock, which \<open>flush\<close> calls fail for reasons other
  than a constraint, and the outcome of \<open>commit\<close>. A commit may fail before or after the changes
  became durable; the caller sees the same exception in both cases.
\<close>

section \<open>Session state and environment\<close>

datatype commit_outcome = Commit_ok | Commit_failed | Commit_lost

record env =
  env_ids :: "nat \<Rightarrow> uuid"
  env_now :: instant
  env_clock :: datetime
  env_flush_fails :: "nat \<Rightarrow> bool"
  env_commit :: commit_outcome

record session =
  committed :: db
  working :: db

definition open_session :: "db \<Rightarrow> session" where
  "open_session d = \<lparr>committed = d, working = d\<rparr>"

definition session_rollback :: "session \<Rightarrow> session" where
  "session_rollback s = s\<lparr>working := committed s\<rparr>"

definition session_commit :: "commit_outcome \<Rightarrow> session \<Rightarrow> unit result \<times> session" where
  "session_commit outcome s =
     (case outcome of
        Commit_ok \<Rightarrow> (Inr (), s\<lparr>committed := working s\<rparr>)
      | Commit_failed \<Rightarrow> (Inl DatabaseError, s)
      | Commit_lost \<Rightarrow> (Inl DatabaseError, s\<lparr>committed := working s\<rparr>))"

text \<open>
  The block that every write service has:
  \<^verbatim>\<open>
  try:
      ... body: flushes and builds the result ...
      session.commit()
      return result
  except Exception:
      session.rollback()
      raise
  \<close>
  The body is a fallible function from the working database to a result and the flushed
  database; what it had flushed before an exception is discarded by the rollback.
\<close>

definition transaction ::
  "commit_outcome \<Rightarrow> (db \<Rightarrow> ('a \<times> db) result) \<Rightarrow> session \<Rightarrow> 'a result \<times> session" where
  "transaction outcome body s =
     (case body (working s) of
        Inl e \<Rightarrow> (Inl e, session_rollback s)
      | Inr (r, d) \<Rightarrow>
          (case session_commit outcome (s\<lparr>working := d\<rparr>) of
             (Inl e, s') \<Rightarrow> (Inl e, session_rollback s')
           | (Inr _, s') \<Rightarrow> (Inr r, s')))"

section \<open>Atomicity\<close>

text \<open>
  Whatever happens, the durable database after a transaction is the one before it or the one
  that the body built, never a part of the body's writes, and an exception raised by the body
  leaves it unchanged.
\<close>

lemma transaction_Inl_body:
  "body (working s) = Inl e \<Longrightarrow> transaction outcome body s = (Inl e, session_rollback s)"
  by (simp add: transaction_def)

lemma transaction_ok:
  "body (working s) = Inr (r, d) \<Longrightarrow>
   transaction Commit_ok body s = (Inr r, s\<lparr>working := d, committed := d\<rparr>)"
  by (simp add: transaction_def session_commit_def)

lemma transaction_cases:
  assumes "transaction outcome body s = (res, s')"
  obtains (failed) e where "body (working s) = Inl e" "res = Inl e" "committed s' = committed s"
    "working s' = committed s'"
  | (stored) r d where "body (working s) = Inr (r, d)" "res = Inr r" "committed s' = d"
    "working s' = d" "outcome = Commit_ok"
  | (refused) r d where "body (working s) = Inr (r, d)" "res = Inl DatabaseError"
    "committed s' = committed s" "working s' = committed s'" "outcome = Commit_failed"
  | (lost) r d where "body (working s) = Inr (r, d)" "res = Inl DatabaseError"
    "committed s' = d" "working s' = d" "outcome = Commit_lost"
  using assms
  by (cases outcome)
     (auto simp: transaction_def session_commit_def session_rollback_def split: sum.splits prod.splits)

lemma transaction_committed:
  "committed (snd (transaction outcome body s)) \<in>
     insert (committed s) {d. \<exists>r. body (working s) = Inr (r, d)}"
  by (auto simp: transaction_def session_commit_def session_rollback_def split: sum.splits prod.splits commit_outcome.splits)

lemma transaction_preserves:
  assumes "\<And>r d. body (working s) = Inr (r, d) \<Longrightarrow> P d" and "P (committed s)"
  shows "P (committed (snd (transaction outcome body s)))"
  using assms transaction_committed [of outcome body s] by auto

lemma transaction_success:
  assumes "transaction outcome body s = (Inr r, s')"
  shows "body (working s) = Inr (r, committed s') \<and> working s' = committed s'"
  using assms by (cases rule: transaction_cases) auto

lemma transaction_error_not_database:
  assumes "transaction outcome body s = (Inl e, s')" and "e \<noteq> DatabaseError"
  shows "body (working s) = Inl e \<and> committed s' = committed s"
  using assms by (cases rule: transaction_cases) auto

lemma transaction_fst_Inl:
  "fst (transaction outcome body s) = Inl x \<Longrightarrow> x = DatabaseError \<or> body (working s) = Inl x"
  by (auto simp: transaction_def session_commit_def split: sum.splits prod.splits commit_outcome.splits)

lemma transaction_fst_Inr:
  "fst (transaction outcome body s) = Inr r \<Longrightarrow>
   body (working s) = Inr (r, committed (snd (transaction outcome body s)))"
  by (auto simp: transaction_def session_commit_def split: sum.splits prod.splits commit_outcome.splits)

text \<open>
  A transaction commutes with a map on databases, such as the restriction to the rows of one
  user, when its body does.
\<close>

lemma transaction_commute:
  assumes "body (f d) = map_sum id (map_prod id f) (body d)"
  shows "map_prod g committed (transaction outcome body (open_session (f d))) =
         map_prod id f (map_prod g committed (transaction outcome body (open_session d)))"
  using assms
  by (cases outcome; cases "body d")
     (auto simp: transaction_def session_commit_def session_rollback_def open_session_def)

lemma open_session_simps [simp]:
  "committed (open_session d) = d" "working (open_session d) = d"
  by (simp_all add: open_session_def)

lemma session_rollback_simps [simp]:
  "committed (session_rollback s) = committed s" "working (session_rollback s) = committed s"
  by (simp_all add: session_rollback_def)

section \<open>Flushing one row\<close>

text \<open>
  \<open>session.flush()\<close> after \<open>session.add(row)\<close> or after attribute writes: the \<open>n\<close>-th flush of the
  use case may fail, text may be too long for its column, a constraint may be violated; else the
  row becomes visible.
\<close>

definition flush_row :: "env \<Rightarrow> nat \<Rightarrow> bool \<Rightarrow> (string \<times> bool) list \<Rightarrow> unit result" where
  "flush_row e n lengths_ok cs =
     (if env_flush_fails e n \<or> \<not> lengths_ok then Inl DatabaseError
      else (case violated cs of Some c \<Rightarrow> Inl (IntegrityError c) | None \<Rightarrow> Inr ()))"

lemma flush_row_ok: "flush_row e n ok cs = Inr u \<longleftrightarrow> \<not> env_flush_fails e n \<and> ok \<and> list_all snd cs"
  by (auto simp: flush_row_def violated_None_iff [symmetric] split: option.splits)

lemma flush_row_no_integrity:
  "list_all snd cs \<Longrightarrow> flush_row e n ok cs = Inl x \<Longrightarrow> x = DatabaseError"
  by (auto simp: flush_row_def violated_None_iff [symmetric] split: if_splits option.splits)

lemma flush_row_Inl:
  "flush_row e n ok cs = Inl x \<Longrightarrow> x = DatabaseError \<or> (\<exists>c. x = IntegrityError c)"
  by (auto simp: flush_row_def split: if_splits option.splits)

definition empty_db :: db where
  "empty_db = \<lparr>users = [], projects = [], tasks = [], refresh_tokens = [], agent_threads = [],
     agent_runs = [], agent_approvals = [], agent_tool_executions = [],
     knowledge_documents = [], knowledge_chunks = []\<rparr>"

section \<open>Well-formed databases\<close>

text \<open>
  What the constraints of \<open>app/models\<close> guarantee of the durable tables. Foreign keys read the
  referenced table only through its keys, so a table may change as long as its keys stay.
\<close>

definition wf_users :: "db \<Rightarrow> bool" where
  "wf_users d \<longleftrightarrow> distinct (map u_id (users d)) \<and> distinct (map u_email (users d))"

definition wf_projects :: "db \<Rightarrow> bool" where
  "wf_projects d \<longleftrightarrow> distinct (map p_id (projects d)) \<and>
     (\<forall>p \<in> set (projects d). list_all snd (project_constraints d p) \<and> project_lengths p)"

definition wf_tasks :: "db \<Rightarrow> bool" where
  "wf_tasks d \<longleftrightarrow> distinct (map t_id (tasks d)) \<and>
     (\<forall>t \<in> set (tasks d). list_all snd (task_constraints d t) \<and> task_lengths t)"

definition wf_tokens :: "db \<Rightarrow> bool" where
  "wf_tokens d \<longleftrightarrow> distinct (map rt_id (refresh_tokens d)) \<and>
     (\<forall>r \<in> set (refresh_tokens d). list_all snd (refresh_token_constraints d r))"

definition wf_core :: "db \<Rightarrow> bool" where
  "wf_core d \<longleftrightarrow> wf_users d \<and> wf_projects d \<and> wf_tasks d \<and> wf_tokens d"

definition project_keys :: "db \<Rightarrow> (uuid \<times> uuid) set" where
  "project_keys d = (\<lambda>p. (p_id p, p_user_id p)) ` set (projects d)"

lemma task_constraints_cong:
  "u_id ` set (users d') = u_id ` set (users d) \<Longrightarrow> project_keys d \<subseteq> project_keys d' \<Longrightarrow>
   list_all snd (task_constraints d t) \<Longrightarrow> list_all snd (task_constraints d' t)"
  by (auto simp: task_constraints_def project_keys_def)

lemma project_constraints_cong:
  "u_id ` set (users d') = u_id ` set (users d) \<Longrightarrow>
   list_all snd (project_constraints d' p) = list_all snd (project_constraints d p)"
  by (simp add: project_constraints_def)

section \<open>Runs of operations\<close>

text \<open>
  A service operation acts on the durable database and answers with a result. The answers of a
  sequence of operations, and the database they leave:
\<close>

fun run_ops :: "('op \<Rightarrow> 's \<Rightarrow> 'r \<times> 's) \<Rightarrow> 'op list \<Rightarrow> 's \<Rightarrow> 'r list \<times> 's" where
  "run_ops exec [] d = ([], d)"
| "run_ops exec (a # as) d =
     (case exec a d of (r, d') \<Rightarrow> (case run_ops exec as d' of (rs, d'') \<Rightarrow> (r # rs, d'')))"

lemma run_ops_append:
  "run_ops exec (as @ bs) d =
     (case run_ops exec as d of (rs, d') \<Rightarrow>
        (case run_ops exec bs d' of (rs', d'') \<Rightarrow> (rs @ rs', d'')))"
  by (induction as arbitrary: d) (auto split: prod.splits)

text \<open>
  An interface that the components provide: operations that keep an invariant of the state.
  What one operation keeps, every sequence of operations keeps.
\<close>

locale invariant_operations =
  fixes exec :: "'op \<Rightarrow> 's \<Rightarrow> 'r \<times> 's"
    and inv :: "'s \<Rightarrow> bool"
  assumes exec_inv: "inv d \<Longrightarrow> inv (snd (exec a d))"
begin

lemma run_inv: "inv d \<Longrightarrow> inv (snd (run_ops exec as d))"
proof (induction as arbitrary: d)
  case (Cons a as)
  then have "inv (snd (run_ops exec as (snd (exec a d))))"
    by (intro Cons.IH exec_inv)
  then show ?case by (auto split: prod.splits)
qed simp

end

text \<open>A condition that holds each time the next operation of a sequence is executed.\<close>

fun along :: "('op \<Rightarrow> 's \<Rightarrow> bool) \<Rightarrow> ('op \<Rightarrow> 's \<Rightarrow> 'r \<times> 's) \<Rightarrow> 'op list \<Rightarrow> 's \<Rightarrow> bool" where
  "along P exec [] d = True"
| "along P exec (a # as) d = (P a d \<and> along P exec as (snd (exec a d)))"

text \<open>
  An interface for resources with an owner. \<open>view u d\<close> is what user \<open>u\<close> owns in \<open>d\<close>;
  an operation belongs to the user who issued it, and \<open>fresh a d\<close> says that the identifiers
  generated for \<open>a\<close> are unused in \<open>d\<close>. The answer of an operation and its effect on its user's
  view depend on that view only, and no other user's view changes. Consequently a user's answers
  in any interleaving of requests of many users are those of the user's own requests alone.
\<close>

locale owner_scoped =
  fixes exec :: "'op \<Rightarrow> 's \<Rightarrow> 'r \<times> 's"
    and actor :: "'op \<Rightarrow> uuid"
    and view :: "uuid \<Rightarrow> 's \<Rightarrow> 'v"
    and fresh :: "'op \<Rightarrow> 's \<Rightarrow> bool"
    and inv :: "'s \<Rightarrow> bool"
  assumes scoped_inv: "inv d \<Longrightarrow> inv (snd (exec a d))"
    and frame: "inv d \<Longrightarrow> u \<noteq> actor a \<Longrightarrow> view u (snd (exec a d)) = view u d"
    and scoped_result: "inv d \<Longrightarrow> inv d' \<Longrightarrow> fresh a d \<Longrightarrow> fresh a d' \<Longrightarrow>
      view (actor a) d = view (actor a) d' \<Longrightarrow> fst (exec a d) = fst (exec a d')"
    and scoped_view: "inv d \<Longrightarrow> inv d' \<Longrightarrow> fresh a d \<Longrightarrow> fresh a d' \<Longrightarrow>
      view (actor a) d = view (actor a) d' \<Longrightarrow>
      view (actor a) (snd (exec a d)) = view (actor a) (snd (exec a d'))"
begin

lemma noninterference:
  assumes "inv d" "inv d'" "view u d = view u d'"
    and "along fresh exec as d" "along fresh exec (filter (\<lambda>a. actor a = u) as) d'"
  shows "map snd (filter (\<lambda>x. actor (fst x) = u) (zip as (fst (run_ops exec as d)))) =
         fst (run_ops exec (filter (\<lambda>a. actor a = u) as) d') \<and>
         view u (snd (run_ops exec as d)) =
         view u (snd (run_ops exec (filter (\<lambda>a. actor a = u) as) d'))"
  using assms
proof (induction as arbitrary: d d')
  case (Cons a as)
  obtain r e where e: "exec a d = (r, e)" by force
  obtain r' e' where e': "exec a d' = (r', e')" by force
  have inv_e: "inv e" using scoped_inv [OF Cons.prems(1), of a] e by simp
  have along_e: "along fresh exec as e" using Cons.prems(4) e by simp
  show ?case
  proof (cases "actor a = u")
    case True
    with Cons.prems have fr: "fresh a d" "fresh a d'" by auto
    with scoped_result [of d d' a] scoped_view [of d d' a] True Cons.prems e e'
    have "r = r'" and v: "view u e = view u e'" by auto
    have "inv e'" using scoped_inv [OF Cons.prems(2), of a] e' by simp
    from Cons.IH [OF inv_e this v along_e] True \<open>r = r'\<close> Cons.prems(5) show ?thesis
      by (auto simp: e e' split: prod.splits)
  next
    case False
    with frame [of d u a] Cons.prems e have "view u e = view u d'" by auto
    from Cons.IH [OF inv_e Cons.prems(2) this along_e] False Cons.prems(5) show ?thesis
      by (auto simp: e split: prod.splits)
  qed
qed auto

end

text \<open>
  The way the components meet this contract: each operation commutes with restricting the state
  to the rows of its user.
\<close>

locale owner_restricted =
  fixes exec :: "'op \<Rightarrow> 's \<Rightarrow> 'r \<times> 's"
    and actor :: "'op \<Rightarrow> uuid"
    and restrict :: "uuid \<Rightarrow> 's \<Rightarrow> 's"
    and fresh :: "'op \<Rightarrow> 's \<Rightarrow> bool"
    and inv :: "'s \<Rightarrow> bool"
  assumes keeps_inv: "inv d \<Longrightarrow> inv (snd (exec a d))"
    and keeps_others: "inv d \<Longrightarrow> u \<noteq> actor a \<Longrightarrow> restrict u (snd (exec a d)) = restrict u d"
    and commutes: "inv d \<Longrightarrow> fresh a d \<Longrightarrow>
      exec a (restrict (actor a) d) = map_prod id (restrict (actor a)) (exec a d)"

sublocale owner_restricted \<subseteq> owner_scoped exec actor restrict fresh inv
proof unfold_locales
  fix d d' a
  assume inv: "inv d" "inv d'" and fresh: "fresh a d" "fresh a d'"
    and eq: "restrict (actor a) d = restrict (actor a) d'"
  have "map_prod id (restrict (actor a)) (exec a d) = map_prod id (restrict (actor a)) (exec a d')"
    using commutes [OF inv(1) fresh(1)] commutes [OF inv(2) fresh(2)] eq by simp
  then show "fst (exec a d) = fst (exec a d')"
    and "restrict (actor a) (snd (exec a d)) = restrict (actor a) (snd (exec a d'))"
    by (metis fst_map_prod id_apply, metis snd_map_prod)
qed (auto simp: keeps_inv keeps_others)

end
