(* ===== verification/Task_Schemas.thy ===== *)
theory Task_Schemas
  imports Transactions
begin

text \<open>
  The Task contracts of \<open>app/schemas/task.py\<close>. A \<open>raw\<close> record holds the field values after
  Pydantic's type conversion and before the validators of the source; \<open>None\<close> at the outer level
  of an update field means that the field was not supplied, an inner \<open>None\<close> is an explicit null.
  A validator that raises makes Pydantic raise \<open>ValidationError\<close>. The validated records carry
  UTC instants. The predicates \<open>task_create_ok\<close> and \<open>task_update_ok\<close> say what a validated
  request guarantees to the service.
\<close>

section \<open>Shared validators\<close>

definition len_between :: "nat \<Rightarrow> nat \<Rightarrow> string \<Rightarrow> bool" where
  "len_between lo hi s \<longleftrightarrow> lo \<le> length s \<and> length s \<le> hi"

lemma len_between_strip_nonblank: "len_between (Suc 0) n (strip s) \<Longrightarrow> btrim_nonblank (strip s)"
  by (rule strip_nonblank) (auto simp: len_between_def)

lemma opt_all_len_between: "opt_all (len_between 0 n) v \<longleftrightarrow> opt_all (\<lambda>s. length s \<le> n) v"
  by (cases v) (simp_all add: len_between_def)

definition normalize_description :: "string option \<Rightarrow> string option" where
  "normalize_description v =
     (case v of None \<Rightarrow> None | Some s \<Rightarrow> (if strip s = [] then None else Some (strip s)))"

definition task_utc :: "datetime \<Rightarrow> instant result" where
  "task_utc v = (case utc_instant v of None \<Rightarrow> Inl ValueError | Some t \<Rightarrow> Inr t)"

definition normalize_due_at :: "datetime option \<Rightarrow> instant option result" where
  "normalize_due_at v =
     (case v of None \<Rightarrow> Inr None
      | Some x \<Rightarrow> (case task_utc x of Inl e \<Rightarrow> Inl e | Inr t \<Rightarrow> Inr (Some t)))"

definition validate_task_date_order :: "date option \<Rightarrow> instant option \<Rightarrow> unit result" where
  "validate_task_date_order planned_date due_at =
     (case (planned_date, due_at) of
        (Some planned, Some due) \<Rightarrow> if due < day_start planned then Inl TaskDateOrderError else Inr ()
      | _ \<Rightarrow> Inr ())"

definition minutes_ok :: "int option \<Rightarrow> bool" where
  "minutes_ok m \<longleftrightarrow> opt_all (\<lambda>n. 1 \<le> n \<and> n \<le> 1440) m"

section \<open>Creation\<close>

record raw_task_create =
  rc_project_id :: uuid
  rc_title :: string
  rc_description :: "string option"
  rc_planned_date :: "date option"
  rc_due_at :: "datetime option"
  rc_estimated_minutes :: "int option"
  rc_priority :: task_priority

record task_create =
  tc_project_id :: uuid
  tc_title :: string
  tc_description :: "string option"
  tc_planned_date :: "date option"
  tc_due_at :: "instant option"
  tc_estimated_minutes :: "int option"
  tc_priority :: task_priority

definition validate_task_create :: "raw_task_create \<Rightarrow> task_create result" where
  "validate_task_create raw =
     (let title = strip (rc_title raw); description = normalize_description (rc_description raw) in
      case normalize_due_at (rc_due_at raw) of
        Inl e \<Rightarrow> Inl ValidationError
      | Inr due \<Rightarrow>
          if len_between 1 300 title \<and> opt_all (len_between 0 5000) description \<and>
             minutes_ok (rc_estimated_minutes raw) \<and>
             validate_task_date_order (rc_planned_date raw) due = Inr ()
          then Inr \<lparr>tc_project_id = rc_project_id raw, tc_title = title, tc_description = description,
                    tc_planned_date = rc_planned_date raw, tc_due_at = due,
                    tc_estimated_minutes = rc_estimated_minutes raw, tc_priority = rc_priority raw\<rparr>
          else Inl ValidationError)"

definition task_create_ok :: "task_create \<Rightarrow> bool" where
  "task_create_ok c \<longleftrightarrow>
     btrim_nonblank (tc_title c) \<and> length (tc_title c) \<le> 300 \<and>
     opt_all (\<lambda>s. length s \<le> 5000) (tc_description c) \<and>
     minutes_ok (tc_estimated_minutes c) \<and>
     validate_task_date_order (tc_planned_date c) (tc_due_at c) = Inr ()"

lemma validate_task_create_ok: "validate_task_create raw = Inr c \<Longrightarrow> task_create_ok c"
  by (auto simp: validate_task_create_def task_create_ok_def Let_def opt_all_len_between
        intro: len_between_strip_nonblank split: sum.splits if_splits)
     (simp_all add: len_between_def)

section \<open>Partial update\<close>

record raw_task_update =
  ru_title :: "string option option"
  ru_description :: "string option option"
  ru_planned_date :: "date option option"
  ru_due_at :: "datetime option option"
  ru_estimated_minutes :: "int option option"
  ru_priority :: "task_priority option option"
  ru_status :: "task_status option option"

record task_update =
  tu_title :: "string option"
  tu_description :: "string option option"
  tu_planned_date :: "date option option"
  tu_due_at :: "instant option option"
  tu_estimated_minutes :: "int option option"
  tu_priority :: "task_priority option"
  tu_status :: "task_status option"

text \<open>Fields that may be left out but not set to null.\<close>

definition non_null :: "'a option option \<Rightarrow> 'a option result" where
  "non_null v = (case v of None \<Rightarrow> Inr None | Some None \<Rightarrow> Inl ValueError | Some (Some x) \<Rightarrow> Inr (Some x))"

definition reserve_completion_action :: "task_status option \<Rightarrow> task_status option result" where
  "reserve_completion_action v = (if v = Some COMPLETED then Inl ValueError else Inr v)"

definition supplied_due_at :: "datetime option option \<Rightarrow> instant option option result" where
  "supplied_due_at v =
     (case v of None \<Rightarrow> Inr None
      | Some x \<Rightarrow> (case normalize_due_at x of Inl e \<Rightarrow> Inl e | Inr t \<Rightarrow> Inr (Some t)))"

definition no_task_update_field :: "task_update \<Rightarrow> bool" where
  "no_task_update_field u \<longleftrightarrow> tu_title u = None \<and> tu_description u = None \<and>
     tu_planned_date u = None \<and> tu_due_at u = None \<and> tu_estimated_minutes u = None \<and>
     tu_priority u = None \<and> tu_status u = None"

definition validate_partial_update :: "task_update \<Rightarrow> unit result" where
  "validate_partial_update u =
     (if no_task_update_field u then Inl ValueError
      else case (tu_planned_date u, tu_due_at u) of
             (Some planned, Some due) \<Rightarrow> validate_task_date_order planned due
           | _ \<Rightarrow> Inr ())"

definition validate_task_update :: "raw_task_update \<Rightarrow> task_update result" where
  "validate_task_update raw =
     (case (non_null (ru_title raw), supplied_due_at (ru_due_at raw), non_null (ru_priority raw),
            bind_result (non_null (ru_status raw)) reserve_completion_action) of
        (Inr title, Inr due, Inr priority, Inr status) \<Rightarrow>
          let u = \<lparr>tu_title = map_option strip title,
                   tu_description = map_option normalize_description (ru_description raw),
                   tu_planned_date = ru_planned_date raw, tu_due_at = due,
                   tu_estimated_minutes = ru_estimated_minutes raw,
                   tu_priority = priority, tu_status = status\<rparr>
          in if opt_all (len_between 1 300) (tu_title u) \<and>
                opt_all (opt_all (len_between 0 5000)) (tu_description u) \<and>
                opt_all minutes_ok (tu_estimated_minutes u) \<and>
                validate_partial_update u = Inr ()
             then Inr u else Inl ValidationError
      | _ \<Rightarrow> Inl ValidationError)"

definition task_update_ok :: "task_update \<Rightarrow> bool" where
  "task_update_ok u \<longleftrightarrow>
     opt_all (\<lambda>s. btrim_nonblank s \<and> length s \<le> 300) (tu_title u) \<and>
     opt_all (opt_all (\<lambda>s. length s \<le> 5000)) (tu_description u) \<and>
     opt_all minutes_ok (tu_estimated_minutes u) \<and>
     tu_status u \<noteq> Some COMPLETED \<and> \<not> no_task_update_field u"

lemma validate_task_update_ok:
  assumes "validate_task_update raw = Inr u"
  shows "task_update_ok u"
proof -
  have status: "tu_status u \<noteq> Some COMPLETED"
    using assms
    by (auto simp: validate_task_update_def reserve_completion_action_def bind_result_eq_Inr Let_def
          split: sum.splits if_splits)
  have fields: "opt_all (len_between 1 300) (tu_title u)"
    "opt_all (opt_all (len_between 0 5000)) (tu_description u)"
    "opt_all minutes_ok (tu_estimated_minutes u)" "validate_partial_update u = Inr ()"
    using assms by (auto simp: validate_task_update_def Let_def split: sum.splits if_splits)
  have "\<exists>t. tu_title u = map_option strip t"
    using assms by (auto simp: validate_task_update_def Let_def split: sum.splits if_splits)
  with fields(1) have "opt_all (\<lambda>s. btrim_nonblank s \<and> length s \<le> 300) (tu_title u)"
    by (auto simp: opt_all_def intro: len_between_strip_nonblank split: option.splits)
       (simp add: len_between_def)
  moreover have "opt_all (opt_all (\<lambda>s. length s \<le> 5000)) (tu_description u)"
    using fields(2) by (auto simp: opt_all_def len_between_def split: option.splits)
  moreover have "\<not> no_task_update_field u"
    using fields(4) by (auto simp: validate_partial_update_def)
  ultimately show ?thesis
    using status fields(3) by (simp add: task_update_ok_def)
qed

section \<open>Listing\<close>

datatype task_sort_field = SORT_CREATED_AT | SORT_UPDATED_AT | SORT_DUE_AT | SORT_PLANNED_DATE
  | SORT_TITLE

datatype sort_direction = ASC | DESC

record raw_task_list_query =
  rq_page :: int
  rq_page_size :: int
  rq_project_id :: "uuid option"
  rq_status :: "task_status option"
  rq_priority :: "task_priority option"
  rq_planned_from :: "date option"
  rq_planned_to :: "date option"
  rq_due_from :: "datetime option"
  rq_due_to :: "datetime option"
  rq_overdue :: "bool option"
  rq_title :: "string option"
  rq_sort_by :: task_sort_field
  rq_sort_direction :: sort_direction

record task_list_query =
  q_page :: nat
  q_page_size :: nat
  q_project_id :: "uuid option"
  q_status :: "task_status option"
  q_priority :: "task_priority option"
  q_planned_from :: "date option"
  q_planned_to :: "date option"
  q_due_from :: "instant option"
  q_due_to :: "instant option"
  q_overdue :: "bool option"
  q_title :: "string option"
  q_sort_by :: task_sort_field
  q_sort_direction :: sort_direction

definition range_ok :: "int option \<Rightarrow> int option \<Rightarrow> bool" where
  "range_ok from to \<longleftrightarrow> (case (from, to) of (Some a, Some b) \<Rightarrow> a \<le> b | _ \<Rightarrow> True)"

definition validate_task_list_query :: "raw_task_list_query \<Rightarrow> task_list_query result" where
  "validate_task_list_query raw =
     (case (normalize_due_at (rq_due_from raw), normalize_due_at (rq_due_to raw)) of
        (Inr due_from, Inr due_to) \<Rightarrow>
          let title = map_option strip (rq_title raw) in
          if 1 \<le> rq_page raw \<and> 1 \<le> rq_page_size raw \<and> rq_page_size raw \<le> 100 \<and>
             opt_all (len_between 1 200) title \<and>
             range_ok (rq_planned_from raw) (rq_planned_to raw) \<and> range_ok due_from due_to
          then Inr \<lparr>q_page = nat (rq_page raw), q_page_size = nat (rq_page_size raw),
                    q_project_id = rq_project_id raw, q_status = rq_status raw,
                    q_priority = rq_priority raw, q_planned_from = rq_planned_from raw,
                    q_planned_to = rq_planned_to raw, q_due_from = due_from, q_due_to = due_to,
                    q_overdue = rq_overdue raw, q_title = title, q_sort_by = rq_sort_by raw,
                    q_sort_direction = rq_sort_direction raw\<rparr>
          else Inl ValidationError
      | _ \<Rightarrow> Inl ValidationError)"

definition task_list_query_ok :: "task_list_query \<Rightarrow> bool" where
  "task_list_query_ok q \<longleftrightarrow> 1 \<le> q_page q \<and> 1 \<le> q_page_size q \<and> q_page_size q \<le> 100"

lemma validate_task_list_query_ok: "validate_task_list_query raw = Inr q \<Longrightarrow> task_list_query_ok q"
  by (auto simp: validate_task_list_query_def task_list_query_ok_def Let_def split: sum.splits if_splits)

section \<open>Public projection\<close>

record public_task =
  pt_id :: uuid
  pt_project_id :: uuid
  pt_title :: string
  pt_description :: "string option"
  pt_status :: task_status
  pt_priority :: task_priority
  pt_planned_date :: "date option"
  pt_due_at :: "instant option"
  pt_estimated_minutes :: "int option"
  pt_completed_at :: "instant option"
  pt_created_at :: instant
  pt_updated_at :: instant

definition public_task :: "task \<Rightarrow> public_task" where
  "public_task t = \<lparr>pt_id = t_id t, pt_project_id = t_project_id t, pt_title = t_title t,
     pt_description = t_description t, pt_status = t_status t, pt_priority = t_priority t,
     pt_planned_date = t_planned_date t, pt_due_at = t_due_at t,
     pt_estimated_minutes = t_estimated_minutes t, pt_completed_at = t_completed_at t,
     pt_created_at = t_created_at t, pt_updated_at = t_updated_at t\<rparr>"

definition validate_completion :: "public_task \<Rightarrow> public_task result" where
  "validate_completion p =
     (if (pt_status p = COMPLETED) \<noteq> (pt_completed_at p \<noteq> None) then Inl ValidationError else Inr p)"

definition validate_public_task :: "task \<Rightarrow> public_task result" where
  "validate_public_task t = validate_completion (public_task t)"

record task_list_response =
  tl_items :: "public_task list"
  tl_page :: nat
  tl_page_size :: nat
  tl_total :: nat
  tl_pages :: nat

definition validate_task_page :: "task_list_response \<Rightarrow> task_list_response result" where
  "validate_task_page r =
     (if tl_page r < 1 \<or> tl_page_size r < 1 \<or> 100 < tl_page_size r \<or>
         tl_pages r \<noteq> page_count (tl_total r) (tl_page_size r) \<or>
         tl_page_size r < length (tl_items r)
      then Inl ValidationError else Inr r)"

end
