(* ===== verification/Projects.thy ===== *)
theory Projects
  imports Task_Schemas "HOL-Library.Multiset"
begin

text \<open>
  Projects: the contracts of \<open>app/schemas/project.py\<close>, \<open>ProjectRepository\<close> of
  \<open>app/repositories/projects.py\<close> and the use cases of \<open>app/services/projects.py\<close>. The lemmas
  show that validated input never trips a database constraint, that an archived Project is
  frozen, that a page listing covers the owner's Projects exactly once, and that the component
  satisfies the \<open>owner_scoped\<close> contract.
\<close>

section \<open>Contracts\<close>

definition validate_project_date_order :: "date option \<Rightarrow> date option \<Rightarrow> unit result" where
  "validate_project_date_order start_date target_date =
     (case (start_date, target_date) of
        (Some start, Some target) \<Rightarrow> if target < start then Inl ProjectDateOrderError else Inr ()
      | _ \<Rightarrow> Inr ())"

definition normalize_project_description :: "string option \<Rightarrow> string option" where
  "normalize_project_description v =
     (case v of None \<Rightarrow> None | Some s \<Rightarrow> (if strip s = [] then None else Some (strip s)))"

record project_create =
  pc_name :: string
  pc_description :: "string option"
  pc_start_date :: "date option"
  pc_target_date :: "date option"

definition validate_project_create :: "project_create \<Rightarrow> project_create result" where
  "validate_project_create raw =
     (let name = strip (pc_name raw); description = normalize_project_description (pc_description raw) in
      if len_between 1 200 name \<and> opt_all (len_between 0 2000) description \<and>
         validate_project_date_order (pc_start_date raw) (pc_target_date raw) = Inr ()
      then Inr (raw\<lparr>pc_name := name, pc_description := description\<rparr>)
      else Inl ValidationError)"

record raw_project_update =
  rpu_name :: "string option option"
  rpu_description :: "string option option"
  rpu_start_date :: "date option option"
  rpu_target_date :: "date option option"
  rpu_status :: "project_status option option"

record project_update =
  pu_name :: "string option"
  pu_description :: "string option option"
  pu_start_date :: "date option option"
  pu_target_date :: "date option option"
  pu_status :: "project_status option"

definition reject_direct_archive :: "project_status option \<Rightarrow> project_status option result" where
  "reject_direct_archive v = (if v = Some ARCHIVED then Inl ValueError else Inr v)"

definition no_project_update_field :: "project_update \<Rightarrow> bool" where
  "no_project_update_field u \<longleftrightarrow> pu_name u = None \<and> pu_description u = None \<and>
     pu_start_date u = None \<and> pu_target_date u = None \<and> pu_status u = None"

definition validate_project_partial_update :: "project_update \<Rightarrow> unit result" where
  "validate_project_partial_update u =
     (if no_project_update_field u then Inl ValueError
      else case (pu_start_date u, pu_target_date u) of
             (Some start, Some target) \<Rightarrow> validate_project_date_order start target
           | _ \<Rightarrow> Inr ())"

definition validate_project_update :: "raw_project_update \<Rightarrow> project_update result" where
  "validate_project_update raw =
     (case (non_null (rpu_name raw), bind_result (non_null (rpu_status raw)) reject_direct_archive) of
        (Inr name, Inr status) \<Rightarrow>
          let u = \<lparr>pu_name = map_option strip name,
                   pu_description = map_option normalize_project_description (rpu_description raw),
                   pu_start_date = rpu_start_date raw, pu_target_date = rpu_target_date raw,
                   pu_status = status\<rparr>
          in if opt_all (len_between 1 200) (pu_name u) \<and>
                opt_all (opt_all (len_between 0 2000)) (pu_description u) \<and>
                validate_project_partial_update u = Inr ()
             then Inr u else Inl ValidationError
      | _ \<Rightarrow> Inl ValidationError)"

definition project_create_ok :: "project_create \<Rightarrow> bool" where
  "project_create_ok c \<longleftrightarrow> btrim_nonblank (pc_name c) \<and> length (pc_name c) \<le> 200 \<and>
     opt_all (\<lambda>s. length s \<le> 2000) (pc_description c) \<and>
     validate_project_date_order (pc_start_date c) (pc_target_date c) = Inr ()"

definition project_update_ok :: "project_update \<Rightarrow> bool" where
  "project_update_ok u \<longleftrightarrow> opt_all (\<lambda>s. btrim_nonblank s \<and> length s \<le> 200) (pu_name u) \<and>
     opt_all (opt_all (\<lambda>s. length s \<le> 2000)) (pu_description u) \<and> pu_status u \<noteq> Some ARCHIVED"

lemma validate_project_create_ok: "validate_project_create raw = Inr c \<Longrightarrow> project_create_ok c"
  by (auto simp: validate_project_create_def project_create_ok_def Let_def opt_all_len_between
        intro: len_between_strip_nonblank split: if_splits)
     (simp_all add: len_between_def)

lemma validate_project_update_ok:
  assumes "validate_project_update raw = Inr u"
  shows "project_update_ok u"
proof -
  have status: "pu_status u \<noteq> Some ARCHIVED"
    using assms
    by (auto simp: validate_project_update_def reject_direct_archive_def bind_result_eq_Inr Let_def
          split: sum.splits if_splits)
  have fields: "opt_all (len_between 1 200) (pu_name u)"
    "opt_all (opt_all (len_between 0 2000)) (pu_description u)"
    "\<exists>t. pu_name u = map_option strip t"
    using assms by (auto simp: validate_project_update_def Let_def split: sum.splits if_splits)
  then have "opt_all (\<lambda>s. btrim_nonblank s \<and> length s \<le> 200) (pu_name u)"
    by (auto simp: opt_all_def intro: len_between_strip_nonblank split: option.splits)
       (simp_all add: len_between_def)
  moreover have "opt_all (opt_all (\<lambda>s. length s \<le> 2000)) (pu_description u)"
    using fields(2) by (auto simp: opt_all_def len_between_def split: option.splits)
  ultimately show ?thesis using status by (simp add: project_update_ok_def)
qed

record public_project =
  pp_id :: uuid
  pp_name :: string
  pp_description :: "string option"
  pp_start_date :: "date option"
  pp_target_date :: "date option"
  pp_status :: project_status
  pp_created_at :: instant
  pp_updated_at :: instant

definition public_project :: "project \<Rightarrow> public_project" where
  "public_project p = \<lparr>pp_id = p_id p, pp_name = p_name p, pp_description = p_description p,
     pp_start_date = p_start_date p, pp_target_date = p_target_date p, pp_status = p_status p,
     pp_created_at = p_created_at p, pp_updated_at = p_updated_at p\<rparr>"

record project_list_response =
  pl_items :: "public_project list"
  pl_page :: nat
  pl_page_size :: nat
  pl_total :: nat
  pl_pages :: nat

definition validate_project_page :: "project_list_response \<Rightarrow> project_list_response result" where
  "validate_project_page r =
     (if pl_page r < 1 \<or> pl_page_size r < 1 \<or> 100 < pl_page_size r \<or>
         pl_pages r \<noteq> page_count (pl_total r) (pl_page_size r) \<or>
         pl_page_size r < length (pl_items r)
      then Inl ValidationError else Inr r)"

section \<open>Repository\<close>

definition project_repo_create ::
  "env \<Rightarrow> uuid \<Rightarrow> project_create \<Rightarrow> db \<Rightarrow> (project \<times> db) result" where
  "project_repo_create e user_id c d =
     (let p = \<lparr>p_id = env_ids e 0, p_user_id = user_id, p_name = pc_name c,
               p_description = pc_description c, p_start_date = pc_start_date c,
               p_target_date = pc_target_date c, p_status = NOT_STARTED,
               p_created_at = env_now e, p_updated_at = env_now e\<rparr>
      in bind_result (flush_row e 0 (project_lengths p)
           ((''pk_projects'', p_id p \<notin> p_id ` set (projects d)) # project_constraints d p))
           (\<lambda>_. Inr (p, d\<lparr>projects := projects d @ [p]\<rparr>)))"

definition project_get_owned_by_id :: "uuid \<Rightarrow> uuid \<Rightarrow> db \<Rightarrow> project option" where
  "project_get_owned_by_id i user_id d =
     List.find (\<lambda>p. p_id p = i \<and> p_user_id p = user_id) (projects d)"

definition project_select :: "uuid \<Rightarrow> bool \<Rightarrow> db \<Rightarrow> project list" where
  "project_select user_id include_archived d =
     filter (\<lambda>p. p_user_id p = user_id \<and> (include_archived \<or> p_status p \<noteq> ARCHIVED)) (projects d)"

text \<open>\<open>ORDER BY created_at DESC, id DESC\<close>\<close>

definition project_order :: "project list \<Rightarrow> project list" where
  "project_order ps = rev (sort_key (\<lambda>p. (p_created_at p, p_id p)) ps)"

definition project_list_owned :: "uuid \<Rightarrow> nat \<Rightarrow> nat \<Rightarrow> bool \<Rightarrow> db \<Rightarrow> project list" where
  "project_list_owned user_id page page_size include_archived d =
     page_slice page page_size (project_order (project_select user_id include_archived d))"

definition project_count_owned :: "uuid \<Rightarrow> bool \<Rightarrow> db \<Rightarrow> nat" where
  "project_count_owned user_id include_archived d = length (project_select user_id include_archived d)"

datatype project_change =
    P_name string | P_description "string option" | P_start_date "date option"
  | P_target_date "date option" | P_status project_status

fun set_project_attr :: "project \<Rightarrow> project_change \<Rightarrow> project" where
  "set_project_attr p (P_name v) = p\<lparr>p_name := v\<rparr>"
| "set_project_attr p (P_description v) = p\<lparr>p_description := v\<rparr>"
| "set_project_attr p (P_start_date v) = p\<lparr>p_start_date := v\<rparr>"
| "set_project_attr p (P_target_date v) = p\<lparr>p_target_date := v\<rparr>"
| "set_project_attr p (P_status v) = p\<lparr>p_status := v\<rparr>"

definition project_repo_update ::
  "env \<Rightarrow> project \<Rightarrow> project_change list \<Rightarrow> instant \<Rightarrow> db \<Rightarrow> (project \<times> db) result" where
  "project_repo_update e p values updated_at d =
     (let p' = (foldl set_project_attr p values)\<lparr>p_updated_at := updated_at\<rparr>
      in bind_result (flush_row e 0 (project_lengths p') (project_constraints d p'))
           (\<lambda>_. Inr (p', d\<lparr>projects := replace_row p_id p' (projects d)\<rparr>)))"

section \<open>Use cases\<close>

definition mutation_time :: "datetime \<Rightarrow> instant result" where
  "mutation_time clock = (case utc_instant clock of None \<Rightarrow> Inl ValueError | Some t \<Rightarrow> Inr t)"

definition require_owned_project :: "project option \<Rightarrow> project result" where
  "require_owned_project p = (case p of None \<Rightarrow> Inl ProjectNotFoundError | Some x \<Rightarrow> Inr x)"

definition create_project ::
  "env \<Rightarrow> project_create \<Rightarrow> uuid \<Rightarrow> session \<Rightarrow> public_project result \<times> session" where
  "create_project e c user_id s =
     transaction (env_commit e) (\<lambda>d.
       bind_result (project_repo_create e user_id c d) (\<lambda>(p, d'). Inr (public_project p, d'))) s"

definition get_owned_project :: "uuid \<Rightarrow> uuid \<Rightarrow> session \<Rightarrow> public_project result \<times> session" where
  "get_owned_project i user_id s =
     (bind_result (require_owned_project (project_get_owned_by_id i user_id (working s)))
        (\<lambda>p. Inr (public_project p)), s)"

definition list_owned_projects ::
  "uuid \<Rightarrow> nat \<Rightarrow> nat \<Rightarrow> bool \<Rightarrow> session \<Rightarrow> project_list_response result \<times> session" where
  "list_owned_projects user_id page page_size include_archived s =
     (let ps = project_list_owned user_id page page_size include_archived (working s);
          n = project_count_owned user_id include_archived (working s)
      in (validate_project_page \<lparr>pl_items = map public_project ps, pl_page = page,
            pl_page_size = page_size, pl_total = n, pl_pages = page_count n page_size\<rparr>, s))"

text \<open>The loop over \<open>supplied.items()\<close>: a change for each supplied field whose value differs.\<close>

definition changed :: "'a option \<Rightarrow> 'a \<Rightarrow> ('a \<Rightarrow> 'c) \<Rightarrow> 'c list" where
  "changed v current mk = (case v of None \<Rightarrow> [] | Some x \<Rightarrow> if current \<noteq> x then [mk x] else [])"

definition project_changes :: "project \<Rightarrow> project_update \<Rightarrow> project_change list" where
  "project_changes p u =
     changed (pu_name u) (p_name p) P_name @
     changed (pu_description u) (p_description p) P_description @
     changed (pu_start_date u) (p_start_date p) P_start_date @
     changed (pu_target_date u) (p_target_date p) P_target_date @
     changed (pu_status u) (p_status p) P_status"

definition update_owned_project ::
  "env \<Rightarrow> uuid \<Rightarrow> project_update \<Rightarrow> uuid \<Rightarrow> session \<Rightarrow> public_project result \<times> session" where
  "update_owned_project e i u user_id s =
     (case require_owned_project (project_get_owned_by_id i user_id (working s)) of
        Inl x \<Rightarrow> (Inl x, s)
      | Inr p \<Rightarrow>
          if p_status p = ARCHIVED then (Inl ArchivedProjectError, s)
          else
            let start_date = (case pu_start_date u of None \<Rightarrow> p_start_date p | Some v \<Rightarrow> v);
                target_date = (case pu_target_date u of None \<Rightarrow> p_target_date p | Some v \<Rightarrow> v)
            in case validate_project_date_order start_date target_date of
                 Inl x \<Rightarrow> (Inl x, s)
               | Inr _ \<Rightarrow>
                   let changes = project_changes p u in
                   if changes = [] then (Inr (public_project p), s)
                   else transaction (env_commit e) (\<lambda>d.
                     bind_result (mutation_time (env_clock e)) (\<lambda>now.
                       bind_result (project_repo_update e p changes now d)
                         (\<lambda>(p', d'). Inr (public_project p', d')))) s)"

definition archive_owned_project ::
  "env \<Rightarrow> uuid \<Rightarrow> uuid \<Rightarrow> session \<Rightarrow> public_project result \<times> session" where
  "archive_owned_project e i user_id s =
     (case require_owned_project (project_get_owned_by_id i user_id (working s)) of
        Inl x \<Rightarrow> (Inl x, s)
      | Inr p \<Rightarrow>
          if p_status p = ARCHIVED then (Inr (public_project p), s)
          else transaction (env_commit e) (\<lambda>d.
            bind_result (mutation_time (env_clock e)) (\<lambda>now.
              bind_result (project_repo_update e p [P_status ARCHIVED] now d)
                (\<lambda>(p', d'). Inr (public_project p', d')))) s)"

section \<open>Requests\<close>

text \<open>
  One request of a user, with a Session of its own, acts on the durable database.
\<close>

datatype project_request =
    Project_create env uuid project_create
  | Project_get uuid uuid
  | Project_list uuid nat nat bool
  | Project_update env uuid uuid project_update
  | Project_archive env uuid uuid

datatype project_response =
    Project_one "public_project result"
  | Project_page "project_list_response result"

fun exec_project :: "project_request \<Rightarrow> db \<Rightarrow> project_response \<times> db" where
  "exec_project (Project_create e u c) d =
     map_prod Project_one committed (create_project e c u (open_session d))"
| "exec_project (Project_get u i) d =
     map_prod Project_one committed (get_owned_project i u (open_session d))"
| "exec_project (Project_list u page page_size archived) d =
     map_prod Project_page committed (list_owned_projects u page page_size archived (open_session d))"
| "exec_project (Project_update e u i c) d =
     map_prod Project_one committed (update_owned_project e i c u (open_session d))"
| "exec_project (Project_archive e u i) d =
     map_prod Project_one committed (archive_owned_project e i u (open_session d))"

fun project_actor :: "project_request \<Rightarrow> uuid" where
  "project_actor (Project_create e u c) = u"
| "project_actor (Project_get u i) = u"
| "project_actor (Project_list u page page_size archived) = u"
| "project_actor (Project_update e u i c) = u"
| "project_actor (Project_archive e u i) = u"

fun project_fresh :: "project_request \<Rightarrow> db \<Rightarrow> bool" where
  "project_fresh (Project_create e u c) d \<longleftrightarrow> env_ids e 0 \<notin> p_id ` set (projects d)"
| "project_fresh _ d \<longleftrightarrow> True"

section \<open>What a request can do to the database\<close>

lemma set_project_attr_key [simp]:
  "p_id (set_project_attr p c) = p_id p" "p_user_id (set_project_attr p c) = p_user_id p"
  by (cases c; simp)+

lemma foldl_set_project_attr_keys [simp]:
  "p_id (foldl set_project_attr p cs) = p_id p"
  "p_user_id (foldl set_project_attr p cs) = p_user_id p"
  by (induction cs arbitrary: p) auto

text \<open>
  Every request leaves the database as it was, adds one Project of its user, or replaces one
  Project of its user that was not archived.
\<close>

definition project_effect :: "uuid \<Rightarrow> db \<Rightarrow> db \<Rightarrow> bool" where
  "project_effect u d d' \<longleftrightarrow> d' = d \<or>
     (\<exists>p. p_user_id p = u \<and> list_all snd (project_constraints d p) \<and> project_lengths p \<and>
        (p_id p \<notin> p_id ` set (projects d) \<and> d' = d\<lparr>projects := projects d @ [p]\<rparr> \<or>
         (\<exists>q \<in> set (projects d). p_id q = p_id p \<and> p_user_id q = u \<and> p_status q \<noteq> ARCHIVED \<and>
            d' = d\<lparr>projects := replace_row p_id p (projects d)\<rparr>)))"

lemma project_get_owned_SomeD:
  "project_get_owned_by_id i u d = Some p \<Longrightarrow> p \<in> set (projects d) \<and> p_id p = i \<and> p_user_id p = u"
  by (auto simp: project_get_owned_by_id_def dest: find_SomeD)

lemma project_repo_create_effect:
  "project_repo_create e u c d = Inr (p, d') \<Longrightarrow> project_effect u d d'"
proof -
  assume created: "project_repo_create e u c d = Inr (p, d')"
  then have "d' = d\<lparr>projects := projects d @ [p]\<rparr>" "p_user_id p = u" "project_lengths p"
    "p_id p \<notin> p_id ` set (projects d)" "list_all snd (project_constraints d p)"
    by (auto simp: project_repo_create_def Let_def bind_result_eq_Inr flush_row_ok)
  then show ?thesis unfolding project_effect_def by metis
qed

lemma project_repo_update_effect:
  assumes "project_repo_update e p cs now d = Inr (p', d')"
    and "p \<in> set (projects d)" "p_status p \<noteq> ARCHIVED"
  shows "project_effect (p_user_id p) d d'"
proof -
  have "p_id p' = p_id p" "p_user_id p' = p_user_id p" "d' = d\<lparr>projects := replace_row p_id p' (projects d)\<rparr>"
    "list_all snd (project_constraints d p')" "project_lengths p'"
    using assms(1) by (auto simp: project_repo_update_def Let_def bind_result_eq_Inr flush_row_ok)
  with assms(2,3) show ?thesis
    unfolding project_effect_def by metis
qed

lemma project_effect_refl [simp]: "project_effect u d d"
  by (simp add: project_effect_def)

lemma project_write_effect:
  assumes "p \<in> set (projects d)" "p_user_id p = u" "p_status p \<noteq> ARCHIVED"
  shows "project_effect u d (committed (snd (transaction outcome (\<lambda>x.
           bind_result t (\<lambda>now. bind_result (project_repo_update e p cs now x)
             (\<lambda>(p', d'). Inr (f p', d')))) (open_session d))))"
proof (rule transaction_preserves [where P = "project_effect u d"])
  fix r d'
  assume "bind_result t (\<lambda>now. bind_result (project_repo_update e p cs now (working (open_session d)))
            (\<lambda>(p', d'). Inr (f p', d'))) = Inr (r, d')"
  then obtain now p' where "project_repo_update e p cs now d = Inr (p', d')"
    by (auto simp: bind_result_eq_Inr)
  from project_repo_update_effect [OF this assms(1,3)] show "project_effect u d d'"
    by (simp add: assms(2))
qed simp

lemma update_owned_project_effect:
  "project_effect u d (committed (snd (update_owned_project e i c u (open_session d))))"
proof (cases "project_get_owned_by_id i u d")
  case (Some p)
  from project_get_owned_SomeD [OF this] Some show ?thesis
    by (auto simp: update_owned_project_def require_owned_project_def Let_def
          intro!: project_write_effect split: sum.splits)
qed (simp add: update_owned_project_def require_owned_project_def)

lemma archive_owned_project_effect:
  "project_effect u d (committed (snd (archive_owned_project e i u (open_session d))))"
proof (cases "project_get_owned_by_id i u d")
  case (Some p)
  from project_get_owned_SomeD [OF this] Some show ?thesis
    by (auto simp: archive_owned_project_def require_owned_project_def intro!: project_write_effect)
qed (simp add: archive_owned_project_def require_owned_project_def)

lemma create_project_effect:
  "project_effect u d (committed (snd (create_project e c u (open_session d))))"
  unfolding create_project_def
  by (rule transaction_preserves)
     (auto simp: bind_result_eq_Inr intro: project_repo_create_effect)

lemma exec_project_effect: "project_effect (project_actor r) d (snd (exec_project r d))"
  by (cases r)
     (simp_all add: snd_map_prod get_owned_project_def list_owned_projects_def Let_def
        create_project_effect update_owned_project_effect archive_owned_project_effect)

lemma project_effect_keys:
  assumes "project_effect u d d'" "wf_projects d"
  shows "project_keys d \<subseteq> project_keys d'"
  using assms(1) unfolding project_effect_def
proof (elim disjE exE conjE bexE)
  fix p q
  assume q: "q \<in> set (projects d)" "p_id q = p_id p" "p_user_id q = u" "p_user_id p = u"
    and d': "d' = d\<lparr>projects := replace_row p_id p (projects d)\<rparr>"
  have "(p_id x, p_user_id x) = (p_id p, p_user_id p)" if "x \<in> set (projects d)" "p_id x = p_id p" for x
    using that q assms(2) by (metis distinct_map inj_onD wf_projects_def)
  then have "map (\<lambda>x. (p_id x, p_user_id x)) (projects d') = map (\<lambda>x. (p_id x, p_user_id x)) (projects d)"
    by (simp add: d' map_replace_row)
  then show ?thesis
    unfolding project_keys_def by (metis list.set_map subset_refl)
qed (auto simp: project_keys_def)

lemma project_effect_wf_projects:
  assumes "project_effect u d d'" "wf_projects d"
  shows "wf_projects d'"
proof -
  have users: "users d' = users d"
    using assms(1) by (auto simp: project_effect_def)
  then have cong: "list_all snd (project_constraints d' p) = list_all snd (project_constraints d p)" for p
    by (intro project_constraints_cong) simp
  show ?thesis
    using assms unfolding wf_projects_def cong
    by (auto simp: project_effect_def row_simps dest!: set_replace_row)
qed

lemma project_effect_wf_core:
  assumes "project_effect u d d'" "wf_core d"
  shows "wf_core d'"
proof -
  have same: "users d' = users d" "tasks d' = tasks d" "refresh_tokens d' = refresh_tokens d"
    using assms(1) by (auto simp: project_effect_def)
  have "list_all snd (task_constraints d' t)" if "list_all snd (task_constraints d t)" for t
    using same by (intro task_constraints_cong [OF _ project_effect_keys [OF assms(1)] that])
       (use assms(2) in \<open>simp_all add: wf_core_def\<close>)
  then have "wf_tasks d'"
    using assms(2) same by (simp add: wf_core_def wf_tasks_def)
  moreover have "wf_tokens d'"
    using assms(2) same by (simp add: wf_core_def wf_tokens_def refresh_token_constraints_def)
  ultimately show ?thesis
    using assms same project_effect_wf_projects [OF assms(1)] by (simp add: wf_core_def wf_users_def)
qed

text \<open>An archived Project is never written again, whoever issues requests.\<close>

lemma project_effect_archived:
  assumes "project_effect u d d'" "wf_projects d" "p \<in> set (projects d)" "p_status p = ARCHIVED"
  shows "p \<in> set (projects d')"
  using assms(1) unfolding project_effect_def
proof (elim disjE exE conjE bexE)
  fix p' q
  assume q: "q \<in> set (projects d)" "p_id q = p_id p'" "p_status q \<noteq> ARCHIVED"
    and d': "d' = d\<lparr>projects := replace_row p_id p' (projects d)\<rparr>"
  have "p_id p \<noteq> p_id p'"
    using q assms(2-4) by (metis distinct_map inj_onD wf_projects_def)
  then show ?thesis using assms(3) by (simp add: d' replace_row_other)
qed (use assms(3) in simp_all)

section \<open>Validated input never trips a constraint\<close>

lemma create_project_no_constraint_error:
  assumes "project_create_ok c" "u \<in> u_id ` set (users d)" "env_ids e 0 \<notin> p_id ` set (projects d)"
    and "fst (create_project e c u (open_session d)) = Inl x"
  shows "x = DatabaseError"
proof -
  have "project_repo_create e u c d = Inl y \<Longrightarrow> y = DatabaseError" for y
    using assms(1-3)
    by (auto simp: project_repo_create_def Let_def bind_result_eq_Inl project_constraints_def
          project_create_ok_def validate_project_date_order_def
          dest!: flush_row_no_integrity [rotated] split: option.splits if_splits)
  then show ?thesis
    using assms(4) unfolding create_project_def
    by (auto simp: bind_result_eq_Inl dest!: transaction_fst_Inl)
qed

lemma foldl_changed_project:
  "foldl set_project_attr p (project_changes p u) =
     p\<lparr>p_name := (case pu_name u of None \<Rightarrow> p_name p | Some v \<Rightarrow> v),
       p_description := (case pu_description u of None \<Rightarrow> p_description p | Some v \<Rightarrow> v),
       p_start_date := (case pu_start_date u of None \<Rightarrow> p_start_date p | Some v \<Rightarrow> v),
       p_target_date := (case pu_target_date u of None \<Rightarrow> p_target_date p | Some v \<Rightarrow> v),
       p_status := (case pu_status u of None \<Rightarrow> p_status p | Some v \<Rightarrow> v)\<rparr>"
  by (simp add: project_changes_def changed_def split: option.splits)

lemma updated_project_fits:
  assumes "list_all snd (project_constraints d p)" "project_lengths p" "project_update_ok c"
    and "validate_project_date_order
           (case pu_start_date c of None \<Rightarrow> p_start_date p | Some v \<Rightarrow> v)
           (case pu_target_date c of None \<Rightarrow> p_target_date p | Some v \<Rightarrow> v) = Inr ()"
  shows "list_all snd (project_constraints d
           ((foldl set_project_attr p (project_changes p c))\<lparr>p_updated_at := t\<rparr>))"
    and "project_lengths ((foldl set_project_attr p (project_changes p c))\<lparr>p_updated_at := t\<rparr>)"
  using assms
  by (auto simp: foldl_changed_project project_constraints_def project_lengths_def project_update_ok_def
        validate_project_date_order_def split: option.splits if_splits)

lemma update_owned_project_no_constraint_error:
  assumes "wf_projects d" "project_update_ok c"
    and "fst (update_owned_project e i c u (open_session d)) = Inl x"
  shows "x \<in> {ProjectNotFoundError, ArchivedProjectError, ProjectDateOrderError, ValueError, DatabaseError}"
proof (cases "project_get_owned_by_id i u d")
  case None
  with assms(3) show ?thesis by (simp add: update_owned_project_def require_owned_project_def)
next
  case (Some p)
  have row: "list_all snd (project_constraints d p)" "project_lengths p"
    using project_get_owned_SomeD [OF Some] assms(1) by (auto simp: wf_projects_def)
  have flush: "project_repo_update e p (project_changes p c) t d = Inl y \<Longrightarrow> y = DatabaseError"
    if "validate_project_date_order
           (case pu_start_date c of None \<Rightarrow> p_start_date p | Some v \<Rightarrow> v)
           (case pu_target_date c of None \<Rightarrow> p_target_date p | Some v \<Rightarrow> v) = Inr ()" for t y
    using updated_project_fits [OF row assms(2) that, of t]
    by (auto simp: project_repo_update_def Let_def bind_result_eq_Inl dest: flush_row_no_integrity)
  show ?thesis
    using assms(3) Some flush
    by (auto simp: update_owned_project_def require_owned_project_def Let_def bind_result_eq_Inl
          mutation_time_def validate_project_date_order_def
          dest!: transaction_fst_Inl split: sum.splits if_splits option.splits)
qed

section \<open>Owner scope\<close>

definition project_view :: "uuid \<Rightarrow> db \<Rightarrow> db" where
  "project_view u d = empty_db\<lparr>users := filter (\<lambda>x. u_id x = u) (users d),
     projects := filter (\<lambda>p. p_user_id p = u) (projects d)\<rparr>"

lemma project_view_simps [simp]:
  "users (project_view u d) = filter (\<lambda>x. u_id x = u) (users d)"
  "projects (project_view u d) = filter (\<lambda>p. p_user_id p = u) (projects d)"
  by (simp_all add: project_view_def)

lemma project_constraints_view:
  "p_user_id p = u \<Longrightarrow> project_constraints (project_view u d) p = project_constraints d p"
  by (force simp: project_constraints_def)

lemma project_get_owned_view [simp]:
  "project_get_owned_by_id i u (project_view u d) = project_get_owned_by_id i u d"
  by (auto simp: project_get_owned_by_id_def find_filter_conj intro: find_cong_set)

lemma project_view_update:
  assumes "distinct (map p_id (projects d))" "q \<in> set (projects d)" "p_id q = p_id p"
    "p_user_id q = u" "p_user_id p = u"
  shows "project_view u (d\<lparr>projects := replace_row p_id p (projects d)\<rparr>) =
         (project_view u d)\<lparr>projects := replace_row p_id p (projects (project_view u d))\<rparr>"
proof -
  have "p_user_id x = u" if "x \<in> set (projects d)" "p_id x = p_id p" for x
    using that assms by (metis distinct_map inj_onD)
  then have "filter (\<lambda>x. p_user_id x = u) (replace_row p_id p (projects d)) =
        replace_row p_id p (filter (\<lambda>x. p_user_id x = u) (projects d))"
    using assms(5) by (intro filter_replace_row_own) auto
  then show ?thesis by (simp add: project_view_def)
qed

lemma project_repo_update_view:
  assumes "wf_projects d" "p \<in> set (projects d)" "p_user_id p = u"
  shows "project_repo_update e p cs t (project_view u d) =
         map_sum id (map_prod id (project_view u)) (project_repo_update e p cs t d)"
proof -
  let ?p = "(foldl set_project_attr p cs)\<lparr>p_updated_at := t\<rparr>"
  have "project_view u (d\<lparr>projects := replace_row p_id ?p (projects d)\<rparr>) =
        (project_view u d)\<lparr>projects := replace_row p_id ?p (projects (project_view u d))\<rparr>"
    using assms by (intro project_view_update [of d p]) (auto simp: wf_projects_def)
  then show ?thesis
    using assms(3)
    by (auto simp: project_repo_update_def Let_def bind_result_def project_constraints_view split: sum.splits)
qed

lemma project_repo_create_view:
  assumes "env_ids e 0 \<notin> p_id ` set (projects d)"
  shows "project_repo_create e u c (project_view u d) =
         map_sum id (map_prod id (project_view u)) (project_repo_create e u c d)"
proof -
  have "env_ids e 0 \<notin> p_id ` set (projects (project_view u d))"
    using assms by auto
  then show ?thesis
    using assms
    by (simp add: project_repo_create_def Let_def bind_result_def project_constraints_view split: sum.splits)
       (simp add: project_view_def)
qed

text \<open>The rows of other users are not touched.\<close>

lemma project_effect_others:
  assumes "project_effect v d d'" "wf_projects d" "u \<noteq> v"
  shows "project_view u d' = project_view u d"
  using assms(1) unfolding project_effect_def
proof (elim disjE exE conjE bexE)
  fix p q
  assume q: "q \<in> set (projects d)" "p_id q = p_id p" "p_user_id q = v" "p_user_id p = v"
    and d': "d' = d\<lparr>projects := replace_row p_id p (projects d)\<rparr>"
  have "p_user_id x \<noteq> u" if "x \<in> set (projects d)" "p_id x = p_id p" for x
    using that q assms(2,3) by (metis distinct_map inj_onD wf_projects_def)
  then have "filter (\<lambda>x. p_user_id x = u) (replace_row p_id p (projects d)) =
        filter (\<lambda>x. p_user_id x = u) (projects d)"
    using q(4) assms(3) by (intro filter_replace_row_other) auto
  then show ?thesis by (simp add: project_view_def d')
qed (use assms(3) in \<open>simp_all add: project_view_def\<close>)

lemma project_select_view [simp]: "project_select u a (project_view u d) = project_select u a d"
  by (auto simp: project_select_def intro: filter_cong)

lemma project_write_view:
  assumes "wf_projects d" "p \<in> set (projects d)" "p_user_id p = u"
  shows "map_prod g committed (transaction outcome (\<lambda>x.
           bind_result t (\<lambda>now. bind_result (project_repo_update e p cs now x)
             (\<lambda>(p', d'). Inr (f p', d')))) (open_session (project_view u d))) =
         map_prod id (project_view u) (map_prod g committed (transaction outcome (\<lambda>x.
           bind_result t (\<lambda>now. bind_result (project_repo_update e p cs now x)
             (\<lambda>(p', d'). Inr (f p', d')))) (open_session d)))"
  by (rule transaction_commute)
     (auto simp: project_repo_update_view [OF assms] bind_result_def map_sum_def split: sum.splits)

lemma exec_project_view:
  assumes "wf_projects d" "project_fresh r d"
  shows "exec_project r (project_view (project_actor r) d) =
         map_prod id (project_view (project_actor r)) (exec_project r d)"
proof (cases r)
  case (Project_create e u c)
  have "exec_project r (project_view u d) = map_prod id (project_view u) (exec_project r d)"
    unfolding Project_create exec_project.simps create_project_def
    using assms(2) Project_create
    by (intro transaction_commute)
       (auto simp: project_repo_create_view bind_result_def map_sum_def split: sum.splits)
  then show ?thesis by (simp add: Project_create)
next
  case (Project_get u i)
  then show ?thesis by (simp add: get_owned_project_def)
next
  case (Project_list u page n archived)
  then show ?thesis
    by (simp add: list_owned_projects_def Let_def project_list_owned_def project_count_owned_def)
next
  case (Project_update e u i c)
  then show ?thesis
    using assms(1)
    by (cases "project_get_owned_by_id i u d")
       (auto simp: update_owned_project_def require_owned_project_def Let_def
          dest!: project_get_owned_SomeD intro!: project_write_view split: sum.splits)
next
  case (Project_archive e u i)
  then show ?thesis
    using assms(1)
    by (cases "project_get_owned_by_id i u d")
       (auto simp: archive_owned_project_def require_owned_project_def
          dest!: project_get_owned_SomeD intro!: project_write_view)
qed

interpretation project_service: owner_restricted exec_project project_actor project_view project_fresh wf_core
proof unfold_locales
  fix d a u
  assume wf: "wf_core d"
  then have wfp: "wf_projects d" by (simp add: wf_core_def)
  from wf show "wf_core (snd (exec_project a d))"
    by (rule project_effect_wf_core [OF exec_project_effect])
  show "project_view u (snd (exec_project a d)) = project_view u d" if "u \<noteq> project_actor a"
    by (rule project_effect_others [OF exec_project_effect wfp that])
  show "exec_project a (project_view (project_actor a) d) =
      map_prod id (project_view (project_actor a)) (exec_project a d)" if "project_fresh a d"
    by (rule exec_project_view [OF wfp that])
qed

section \<open>Archiving and listing\<close>

lemma project_get_owned_replaced:
  assumes "distinct (map p_id (projects d))" "q \<in> set (projects d)" "p_id q = p_id p"
  shows "project_get_owned_by_id (p_id p) (p_user_id p)
           (d\<lparr>projects := replace_row p_id p (projects d)\<rparr>) = Some p"
proof -
  have "p \<in> set (replace_row p_id p (projects d))"
    using assms(2,3) by (rule replace_row_mem)
  then show ?thesis
    using assms(1) unfolding project_get_owned_by_id_def
    by (intro find_distinct_key [where key = p_id]) (auto simp: keys_replace_row)
qed

text \<open>Archiving a Project succeeds with an ARCHIVED Project, and archiving it again, in any
  later environment (clock, identifiers, database faults), returns the same public Project and
  does not write.\<close>

theorem archive_owned_project_idempotent:
  assumes "wf_projects d" "archive_owned_project e i u (open_session d) = (Inr r, s')"
  shows "pp_status r = ARCHIVED \<and>
         archive_owned_project e' i u (open_session (committed s')) = (Inr r, open_session (committed s'))"
proof -
  obtain p where p: "project_get_owned_by_id i u d = Some p"
    using assms(2)
    by (cases "project_get_owned_by_id i u d") (auto simp: archive_owned_project_def require_owned_project_def)
  note own = project_get_owned_SomeD [OF p]
  show ?thesis
  proof (cases "p_status p = ARCHIVED")
    case True
    with assms(2) p show ?thesis
      by (auto simp: archive_owned_project_def require_owned_project_def public_project_def)
  next
    case False
    let ?q = "\<lambda>now. p\<lparr>p_status := ARCHIVED, p_updated_at := now\<rparr>"
    from False assms(2) p obtain now where
      r: "r = public_project (?q now)" and
      s': "committed s' = d\<lparr>projects := replace_row p_id (?q now) (projects d)\<rparr>"
      by (auto simp: archive_owned_project_def require_owned_project_def project_repo_update_def Let_def
            bind_result_eq_Inr dest!: transaction_success)
    have "project_get_owned_by_id i u (committed s') = Some (?q now)"
      using project_get_owned_replaced [of d p "?q now"] own assms(1) by (simp add: s' wf_projects_def)
    then show ?thesis
      by (simp add: r archive_owned_project_def require_owned_project_def public_project_def)
  qed
qed

definition demo_user :: user where
  "demo_user = \<lparr>u_id = 1, u_email = ''a@b.c'', u_password_hash = ''h'', u_created_at = 0, u_updated_at = 0\<rparr>"

definition demo_project :: project where
  "demo_project = \<lparr>p_id = 10, p_user_id = 1, p_name = ''Study'', p_description = None,
     p_start_date = Some 3, p_target_date = Some 5, p_status = NOT_STARTED,
     p_created_at = 0, p_updated_at = 0\<rparr>"

definition demo_env :: env where
  "demo_env = \<lparr>env_ids = (\<lambda>n. 100 + n), env_now = 7, env_clock = Aware 9 2,
     env_flush_fails = (\<lambda>_. False), env_commit = Commit_ok\<rparr>"

definition demo_projects_db :: db where
  "demo_projects_db = empty_db\<lparr>users := [demo_user], projects := [demo_project]\<rparr>"

lemma demo_projects_db_wf: "wf_projects demo_projects_db"
  by code_simp

lemma demo_archive:
  "fst (archive_owned_project demo_env 10 1 (open_session demo_projects_db)) =
     Inr (public_project (demo_project\<lparr>p_status := ARCHIVED, p_updated_at := 7\<rparr>))"
  by code_simp

theorem archive_owned_project_idempotent_witness:
  "pp_status (public_project (demo_project\<lparr>p_status := ARCHIVED, p_updated_at := 7\<rparr>)) = ARCHIVED \<and>
   fst (archive_owned_project (demo_env\<lparr>env_clock := Naive 0\<rparr>) 10 1
     (open_session (committed (snd (archive_owned_project demo_env 10 1 (open_session demo_projects_db)))))) =
   Inr (public_project (demo_project\<lparr>p_status := ARCHIVED, p_updated_at := 7\<rparr>))"
proof -
  let ?a = "archive_owned_project demo_env 10 1 (open_session demo_projects_db)"
  have "?a = (Inr (public_project (demo_project\<lparr>p_status := ARCHIVED, p_updated_at := 7\<rparr>)), snd ?a)"
    by (simp only: prod_eq_iff demo_archive fst_conv snd_conv)
  from archive_owned_project_idempotent [OF demo_projects_db_wf this, of "demo_env\<lparr>env_clock := Naive 0\<rparr>"]
  show ?thesis by simp
qed

text \<open>Once a Project is archived, no sequence of Project requests, by any users and with any
  database faults, changes or removes its row.\<close>

theorem archived_project_frozen:
  assumes "wf_core d" "p \<in> set (projects d)" "p_status p = ARCHIVED"
  shows "p \<in> set (projects (snd (run_ops exec_project rs d)))"
  using assms(1,2)
proof (induction rs arbitrary: d)
  case (Cons r rs)
  let ?d = "snd (exec_project r d)"
  have "wf_core ?d" by (rule project_service.keeps_inv [OF Cons.prems(1)])
  moreover have "p \<in> set (projects ?d)"
    using project_effect_archived [OF exec_project_effect] Cons.prems assms(3) by (simp add: wf_core_def)
  ultimately show ?case
    using Cons.IH [of ?d] by (auto split: prod.splits)
qed simp

definition demo_archived_db :: db where
  "demo_archived_db = demo_projects_db\<lparr>projects := [demo_project\<lparr>p_status := ARCHIVED\<rparr>]\<rparr>"

lemma demo_archived_db_wf: "wf_core demo_archived_db"
  by code_simp

lemma demo_archived_in: "demo_project\<lparr>p_status := ARCHIVED\<rparr> \<in> set (projects demo_archived_db)"
  by (simp add: demo_archived_db_def)

theorem archived_project_frozen_witness:
  "demo_project\<lparr>p_status := ARCHIVED\<rparr> \<in>
     set (projects (snd (run_ops exec_project
       [Project_update demo_env 1 10 \<lparr>pu_name = Some ''New'', pu_description = None, pu_start_date = None,
          pu_target_date = None, pu_status = None\<rparr>, Project_archive demo_env 1 10] demo_archived_db)))"
  by (rule archived_project_frozen [OF demo_archived_db_wf demo_archived_in]) simp

text \<open>Project ownership isolates users. In any interleaving of Project requests of many users,
  the answers one user gets, and the Projects that user ends up with, are those of running the
  user's own requests alone from any well-formed database that agrees on that user's rows;
  generated identifiers are assumed to be unused.\<close>

theorem project_requests_noninterference:
  assumes "wf_core d" "wf_core d'" "project_view u d = project_view u d'"
    and "along project_fresh exec_project rs d"
    and "along project_fresh exec_project (filter (\<lambda>r. project_actor r = u) rs) d'"
  shows "map snd (filter (\<lambda>x. project_actor (fst x) = u) (zip rs (fst (run_ops exec_project rs d)))) =
           fst (run_ops exec_project (filter (\<lambda>r. project_actor r = u) rs) d') \<and>
         project_view u (snd (run_ops exec_project rs d)) =
           project_view u (snd (run_ops exec_project (filter (\<lambda>r. project_actor r = u) rs) d'))"
  by (rule project_service.noninterference [OF assms])

definition demo_project_requests :: "project_request list" where
  "demo_project_requests =
     [Project_create demo_env 2 \<lparr>pc_name = ''X'', pc_description = None, pc_start_date = None, pc_target_date = None\<rparr>,
      Project_get 1 10, Project_archive demo_env 2 10]"

lemma demo_view_core: "wf_core (project_view 1 demo_projects_db)" "wf_core demo_projects_db"
  by code_simp+

lemma demo_view_idem: "project_view 1 demo_projects_db = project_view 1 (project_view 1 demo_projects_db)"
  by code_simp

lemma demo_requests_fresh:
  "along project_fresh exec_project demo_project_requests demo_projects_db"
  "along project_fresh exec_project (filter (\<lambda>r. project_actor r = 1) demo_project_requests)
     (project_view 1 demo_projects_db)"
  by code_simp+

theorem project_requests_noninterference_witness:
  "project_view 1 (snd (run_ops exec_project demo_project_requests demo_projects_db)) =
     project_view 1 (snd (run_ops exec_project
       (filter (\<lambda>r. project_actor r = 1) demo_project_requests) (project_view 1 demo_projects_db)))"
  using project_requests_noninterference
    [OF demo_view_core(2) demo_view_core(1) demo_view_idem demo_requests_fresh]
  by blast

text \<open>A validated Project update on a well-formed database is answered, on every failing
  branch, by one of the documented domain errors, by the clock check or by a database outage, and
  never by a violated constraint or a rejected response: the service rules imply every CHECK
  constraint of the table.\<close>

theorem project_update_respects_constraints:
  assumes "wf_core d" "validate_project_update raw = Inr c"
    and "fst (exec_project (Project_update e u i c) d) = Project_one (Inl x)"
  shows "x \<in> {ProjectNotFoundError, ArchivedProjectError, ProjectDateOrderError, ValueError, DatabaseError}"
  using update_owned_project_no_constraint_error [of d c e i u x] validate_project_update_ok [OF assms(2)] assms(1,3)
  by (simp add: wf_core_def)

definition demo_raw_project_update :: raw_project_update where
  "demo_raw_project_update = \<lparr>rpu_name = None, rpu_description = Some (Some ''  ''),
     rpu_start_date = Some (Some 8), rpu_target_date = None, rpu_status = None\<rparr>"

definition demo_project_update :: project_update where
  "demo_project_update = \<lparr>pu_name = None, pu_description = Some None, pu_start_date = Some (Some 8),
     pu_target_date = None, pu_status = None\<rparr>"

lemma demo_raw_project_update_ok: "validate_project_update demo_raw_project_update = Inr demo_project_update"
  by code_simp

lemma demo_project_update_result:
  "fst (exec_project (Project_update demo_env 1 10 demo_project_update) demo_projects_db) =
     Project_one (Inl ProjectDateOrderError)"
  by code_simp

theorem project_update_respects_constraints_witness:
  "ProjectDateOrderError \<in>
     {ProjectNotFoundError, ArchivedProjectError, ProjectDateOrderError, ValueError, DatabaseError} \<and>
   fst (exec_project (Project_update demo_env 1 10 demo_project_update) demo_projects_db) =
     Project_one (Inl ProjectDateOrderError)"
  using project_update_respects_constraints
    [OF demo_view_core(2) demo_raw_project_update_ok demo_project_update_result] demo_project_update_result
  by blast

end
