(* ===== verification/Task_Queries.thy ===== *)
theory Task_Queries
  imports Task_Schemas "HOL-Library.Multiset"
begin

text \<open>
  Reading Tasks: the query half of \<open>app/repositories/tasks.py\<close> (escaping of search text, the
  owner filters, ordering, paging, counting) and \<open>list_owned_tasks\<close> and \<open>get_owned_task\<close> of
  \<open>app/services/tasks.py\<close>. How PostgreSQL compares titles (the sort key of the column's
  collation) and how \<open>ILIKE\<close> folds case belongs to the database, so both are parameters,
  \<open>text_rules\<close>.
\<close>

section \<open>Literal text search\<close>

definition replace_char :: "char \<Rightarrow> string \<Rightarrow> string \<Rightarrow> string" where
  "replace_char c r s = concat (map (\<lambda>x. if x = c then r else [x]) s)"

definition escape_like :: "string \<Rightarrow> string" where
  "escape_like v =
     replace_char CHR ''_'' [CHR 0x5C, CHR ''_'']
       (replace_char CHR ''%'' [CHR 0x5C, CHR ''%'']
         (replace_char (CHR 0x5C) [CHR 0x5C, CHR 0x5C] v))"

text \<open>
  SQL \<open>LIKE\<close> with the backslash as escape character: \<open>%\<close> matches any text, \<open>_\<close> any single
  character, an escaped character itself.
\<close>

fun like_match :: "string \<Rightarrow> string \<Rightarrow> bool" where
  "like_match [] t = (t = [])"
| "like_match (p # ps) t =
     (if p = CHR ''%'' then
        like_match ps t \<or> (case t of [] \<Rightarrow> False | _ # t' \<Rightarrow> like_match (p # ps) t')
      else if p = CHR ''_'' then
        (case t of [] \<Rightarrow> False | _ # t' \<Rightarrow> like_match ps t')
      else if p = CHR 0x5C then
        (case ps of [] \<Rightarrow> False
         | q # qs \<Rightarrow> (case t of [] \<Rightarrow> False | c # t' \<Rightarrow> c = q \<and> like_match qs t'))
      else (case t of [] \<Rightarrow> False | c # t' \<Rightarrow> c = p \<and> like_match ps t'))"

record text_rules =
  collation_key :: "string \<Rightarrow> int list"
  case_fold :: "char \<Rightarrow> char"

text \<open>\<open>column ILIKE pattern\<close>: both sides are folded, then matched.\<close>

definition ilike :: "text_rules \<Rightarrow> string \<Rightarrow> string \<Rightarrow> bool" where
  "ilike tr t pattern \<longleftrightarrow> like_match (map (case_fold tr) pattern) (map (case_fold tr) t)"

definition title_pattern :: "string \<Rightarrow> string" where
  "title_pattern v = ''%'' @ escape_like v @ ''%''"

section \<open>Owner filters\<close>

record task_query_criteria =
  c_user_id :: uuid
  c_project_id :: "uuid option"
  c_status :: "task_status option"
  c_priority :: "task_priority option"
  c_planned_from :: "date option"
  c_planned_to :: "date option"
  c_due_from :: "instant option"
  c_due_to :: "instant option"
  c_overdue :: "bool option"
  c_title :: "string option"
  c_now :: instant

definition non_overdue_status :: "task_status \<Rightarrow> bool" where
  "non_overdue_status s \<longleftrightarrow> s \<in> {COMPLETED, CANCELLED}"

text \<open>A comparison with a null column is not true.\<close>

definition sql_cmp :: "(int \<Rightarrow> int \<Rightarrow> bool) \<Rightarrow> int option \<Rightarrow> int \<Rightarrow> bool" where
  "sql_cmp rel col v \<longleftrightarrow> (case col of None \<Rightarrow> False | Some x \<Rightarrow> rel x v)"

definition when_some :: "'a option \<Rightarrow> ('a \<Rightarrow> (task \<Rightarrow> bool) list) \<Rightarrow> (task \<Rightarrow> bool) list" where
  "when_some v f = (case v of None \<Rightarrow> [] | Some x \<Rightarrow> f x)"

definition owned_filters :: "text_rules \<Rightarrow> task_query_criteria \<Rightarrow> (task \<Rightarrow> bool) list" where
  "owned_filters tr c =
     [\<lambda>t. t_user_id t = c_user_id c] @
     when_some (c_project_id c) (\<lambda>v. [\<lambda>t. t_project_id t = v]) @
     when_some (c_status c) (\<lambda>v. [\<lambda>t. t_status t = v]) @
     when_some (c_priority c) (\<lambda>v. [\<lambda>t. t_priority t = v]) @
     when_some (c_planned_from c) (\<lambda>v. [\<lambda>t. sql_cmp (\<ge>) (t_planned_date t) v]) @
     when_some (c_planned_to c) (\<lambda>v. [\<lambda>t. sql_cmp (\<le>) (t_planned_date t) v]) @
     when_some (c_due_from c) (\<lambda>v. [\<lambda>t. sql_cmp (\<ge>) (t_due_at t) v]) @
     when_some (c_due_to c) (\<lambda>v. [\<lambda>t. sql_cmp (\<le>) (t_due_at t) v]) @
     when_some (c_overdue c)
       (\<lambda>v. if v then [\<lambda>t. sql_cmp (<) (t_due_at t) (c_now c), \<lambda>t. \<not> non_overdue_status (t_status t)]
            else [\<lambda>t. t_due_at t = None \<or> sql_cmp (\<ge>) (t_due_at t) (c_now c) \<or>
                      non_overdue_status (t_status t)]) @
     when_some (c_title c) (\<lambda>v. [\<lambda>t. ilike tr (t_title t) (title_pattern v)])"

definition select_owned :: "text_rules \<Rightarrow> task_query_criteria \<Rightarrow> db \<Rightarrow> task list" where
  "select_owned tr c d = filter (\<lambda>t. list_all (\<lambda>p. p t) (owned_filters tr c)) (tasks d)"

section \<open>Ordering\<close>

definition sort_column :: "text_rules \<Rightarrow> task_sort_field \<Rightarrow> task \<Rightarrow> int list option" where
  "sort_column tr f t =
     (case f of
        SORT_CREATED_AT \<Rightarrow> Some [t_created_at t]
      | SORT_UPDATED_AT \<Rightarrow> Some [t_updated_at t]
      | SORT_DUE_AT \<Rightarrow> map_option (\<lambda>x. [x]) (t_due_at t)
      | SORT_PLANNED_DATE \<Rightarrow> map_option (\<lambda>x. [x]) (t_planned_date t)
      | SORT_TITLE \<Rightarrow> Some (collation_key tr (t_title t)))"

text \<open>\<open>ORDER BY column [NULLS LAST], id\<close>, both ascending or both descending.\<close>

definition order_tasks ::
  "(task \<Rightarrow> int list option) \<Rightarrow> sort_direction \<Rightarrow> task list \<Rightarrow> task list" where
  "order_tasks col dir ts =
     (let present = sort_key (\<lambda>t. (the (col t), t_id t)) (filter (\<lambda>t. col t \<noteq> None) ts);
          absent = sort_key t_id (filter (\<lambda>t. col t = None) ts)
      in case dir of ASC \<Rightarrow> present @ absent | DESC \<Rightarrow> rev present @ rev absent)"

definition list_owned ::
  "text_rules \<Rightarrow> task_query_criteria \<Rightarrow> nat \<Rightarrow> nat \<Rightarrow> task_sort_field \<Rightarrow> sort_direction \<Rightarrow> db \<Rightarrow> task list"
where
  "list_owned tr c page page_size sort_by dir d =
     page_slice page page_size (order_tasks (sort_column tr sort_by) dir (select_owned tr c d))"

definition count_owned :: "text_rules \<Rightarrow> task_query_criteria \<Rightarrow> db \<Rightarrow> nat" where
  "count_owned tr c d = length (select_owned tr c d)"

section \<open>Read services\<close>

definition query_time :: "datetime \<Rightarrow> instant result" where
  "query_time clock = (case utc_instant clock of None \<Rightarrow> Inl ValueError | Some t \<Rightarrow> Inr t)"

definition get_owned_by_id :: "uuid \<Rightarrow> uuid \<Rightarrow> db \<Rightarrow> task option" where
  "get_owned_by_id task_id user_id d = List.find (\<lambda>t. t_id t = task_id \<and> t_user_id t = user_id) (tasks d)"

definition require_owned_task :: "task option \<Rightarrow> task result" where
  "require_owned_task t = (case t of None \<Rightarrow> Inl TaskNotFoundError | Some x \<Rightarrow> Inr x)"

definition get_owned_task :: "uuid \<Rightarrow> uuid \<Rightarrow> db \<Rightarrow> public_task result" where
  "get_owned_task task_id user_id d =
     bind_result (require_owned_task (get_owned_by_id task_id user_id d)) validate_public_task"

definition criteria_of :: "task_list_query \<Rightarrow> uuid \<Rightarrow> instant \<Rightarrow> task_query_criteria" where
  "criteria_of q user_id now =
     \<lparr>c_user_id = user_id, c_project_id = q_project_id q, c_status = q_status q,
      c_priority = q_priority q, c_planned_from = q_planned_from q, c_planned_to = q_planned_to q,
      c_due_from = q_due_from q, c_due_to = q_due_to q, c_overdue = q_overdue q,
      c_title = q_title q, c_now = now\<rparr>"

definition list_owned_tasks ::
  "text_rules \<Rightarrow> datetime \<Rightarrow> task_list_query \<Rightarrow> uuid \<Rightarrow> db \<Rightarrow> task_list_response result" where
  "list_owned_tasks tr clock q user_id d =
     bind_result (query_time clock) (\<lambda>now.
       let c = criteria_of q user_id now;
           ts = list_owned tr c (q_page q) (q_page_size q) (q_sort_by q) (q_sort_direction q) d;
           n = count_owned tr c d
       in bind_result (traverse validate_public_task ts) (\<lambda>items.
            validate_task_page \<lparr>tl_items = items, tl_page = q_page q, tl_page_size = q_page_size q,
              tl_total = n, tl_pages = page_count n (q_page_size q)\<rparr>))"

section \<open>Search text is matched literally\<close>

definition like_special :: "char \<Rightarrow> bool" where
  "like_special c \<longleftrightarrow> c \<in> {CHR 0x5C, CHR ''%'', CHR ''_''}"

text \<open>Case folding that leaves the three characters with a meaning in patterns alone.\<close>

definition fold_keeps_specials :: "(char \<Rightarrow> char) \<Rightarrow> bool" where
  "fold_keeps_specials f \<longleftrightarrow>
     (\<forall>c. \<forall>s \<in> {CHR 0x5C, CHR ''%'', CHR ''_''}. (f c = s) = (c = s))"

lemma escape_like_concat:
  "escape_like v = concat (map (\<lambda>c. if like_special c then [CHR 0x5C, c] else [c]) v)"
  by (induction v) (auto simp: escape_like_def replace_char_def like_special_def)

lemma like_match_percent: "like_match (CHR ''%'' # ps) t \<longleftrightarrow> (\<exists>a b. t = a @ b \<and> like_match ps b)"
proof (induction t)
  case Nil
  then show ?case by simp
next
  case (Cons c t)
  have "(\<exists>a b. c # t = a @ b \<and> like_match ps b) \<longleftrightarrow>
        like_match ps (c # t) \<or> (\<exists>a b. t = a @ b \<and> like_match ps b)"
    by (metis append_Cons append_Nil list.inject neq_Nil_conv)
  with Cons show ?case by simp
qed

lemma like_match_any: "like_match ''%'' t"
  by (simp only: like_match_percent) auto

lemma like_match_literal:
  assumes "fold_keeps_specials f"
  shows "like_match (map f (escape_like v) @ ps) t \<longleftrightarrow> (\<exists>t'. t = map f v @ t' \<and> like_match ps t')"
proof (induction v arbitrary: t)
  case Nil
  then show ?case by (simp add: escape_like_concat)
next
  case (Cons c v)
  let ?rest = "map f (escape_like v) @ ps"
  have unfold: "map f (escape_like (c # v)) @ ps =
      (if like_special c then CHR 0x5C # c # ?rest else f c # ?rest)"
    using assms by (auto simp: escape_like_concat like_special_def fold_keeps_specials_def)
  have fix_special: "like_special c \<Longrightarrow> f c = c" and plain: "\<not> like_special c \<Longrightarrow> \<not> like_special (f c)"
    using assms by (auto simp: like_special_def fold_keeps_specials_def)
  have "like_match (map f (escape_like (c # v)) @ ps) t \<longleftrightarrow>
        (\<exists>t'. t = f c # t' \<and> like_match ?rest t')"
    using fix_special plain unfolding unfold
    by (cases t) (auto simp: like_special_def)
  also have "\<dots> \<longleftrightarrow> (\<exists>t'. t = map f (c # v) @ t' \<and> like_match ps t')"
    by (auto simp: Cons)
  finally show ?case .
qed

lemma ilike_title_pattern_sublist:
  assumes "fold_keeps_specials (case_fold tr)"
  shows "ilike tr t (title_pattern v) \<longleftrightarrow> sublist (map (case_fold tr) v) (map (case_fold tr) t)"
proof -
  let ?f = "case_fold tr"
  have percent: "?f CHR ''%'' = CHR ''%''"
    using assms by (auto simp: fold_keeps_specials_def)
  have "ilike tr t (title_pattern v) \<longleftrightarrow>
        like_match (CHR ''%'' # (map ?f (escape_like v) @ ''%'')) (map ?f t)"
    by (simp add: ilike_def title_pattern_def percent)
  also have "\<dots> \<longleftrightarrow> (\<exists>a b. map ?f t = a @ b \<and> (\<exists>t'. b = map ?f v @ t'))"
    by (simp only: like_match_percent like_match_literal [OF assms]) (simp add: like_match_any)
  also have "\<dots> \<longleftrightarrow> sublist (map ?f v) (map ?f t)"
    by (auto simp: sublist_def)
  finally show ?thesis .
qed

section \<open>Selected rows\<close>

lemma select_owned_owner: "t \<in> set (select_owned tr c d) \<Longrightarrow> t \<in> set (tasks d) \<and> t_user_id t = c_user_id c"
  by (simp add: select_owned_def owned_filters_def)

lemma overdue_split:
  "list_all (\<lambda>p. p t) (owned_filters tr (c\<lparr>c_overdue := None\<rparr>)) \<longleftrightarrow>
     list_all (\<lambda>p. p t) (owned_filters tr (c\<lparr>c_overdue := Some True\<rparr>)) \<or>
     list_all (\<lambda>p. p t) (owned_filters tr (c\<lparr>c_overdue := Some False\<rparr>))"
  "\<not> (list_all (\<lambda>p. p t) (owned_filters tr (c\<lparr>c_overdue := Some True\<rparr>)) \<and>
      list_all (\<lambda>p. p t) (owned_filters tr (c\<lparr>c_overdue := Some False\<rparr>)))"
  by (cases "t_due_at t"; force simp: owned_filters_def when_some_def sql_cmp_def)+

section \<open>Ordering is total and exact\<close>

text \<open>The order that the statement asks for, as a relation on rows.\<close>

definition task_before :: "(task \<Rightarrow> int list option) \<Rightarrow> sort_direction \<Rightarrow> task \<Rightarrow> task \<Rightarrow> bool" where
  "task_before col dir t u \<longleftrightarrow>
     (case (col t, col u) of
        (Some a, Some b) \<Rightarrow> (case dir of ASC \<Rightarrow> (a, t_id t) < (b, t_id u) | DESC \<Rightarrow> (b, t_id u) < (a, t_id t))
      | (Some _, None) \<Rightarrow> True
      | (None, Some _) \<Rightarrow> False
      | (None, None) \<Rightarrow> (case dir of ASC \<Rightarrow> t_id t < t_id u | DESC \<Rightarrow> t_id u < t_id t))"

lemma mset_order_tasks: "mset (order_tasks col dir ts) = mset ts"
proof -
  have "mset (filter (\<lambda>t. col t \<noteq> None) ts) + mset (filter (\<lambda>t. col t = None) ts) = mset ts"
    by (induction ts) auto
  then show ?thesis by (cases dir) (simp_all add: order_tasks_def Let_def)
qed

lemma set_order_tasks: "set (order_tasks col dir ts) = set ts"
  by (metis mset_order_tasks set_mset_mset)

lemma length_order_tasks: "length (order_tasks col dir ts) = length ts"
  by (metis mset_order_tasks size_mset)

lemma sorted_wrt_sort_key:
  fixes k :: "'a \<Rightarrow> 'b :: linorder"
  assumes "distinct (map k xs)"
  shows "sorted_wrt (\<lambda>x y. k x < k y) (sort_key k xs)"
proof -
  have "sorted (map k (sort_key k xs))"
    by simp
  moreover have "distinct (map k (sort_key k xs))"
    using assms by (metis distinct_map distinct_sort set_sort)
  ultimately have "sorted_wrt (<) (map k (sort_key k xs))"
    by (simp add: strict_sorted_iff)
  then show ?thesis by (simp add: sorted_wrt_map)
qed

lemma order_tasks_sorted:
  assumes "distinct (map t_id ts)"
  shows "sorted_wrt (task_before col dir) (order_tasks col dir ts)"
proof -
  let ?P = "sort_key (\<lambda>t. (the (col t), t_id t)) (filter (\<lambda>t. col t \<noteq> None) ts)"
  let ?A = "sort_key t_id (filter (\<lambda>t. col t = None) ts)"
  have dP: "distinct (map t_id (filter Q ts))" for Q
    using assms by (simp add: distinct_map_filter)
  have dpair: "distinct (map (\<lambda>t. (the (col t), t_id t)) (filter (\<lambda>t. col t \<noteq> None) ts))"
    using dP by (auto simp: distinct_map inj_on_def)
  have P: "sorted_wrt (\<lambda>x y. (the (col x), t_id x) < (the (col y), t_id y)) ?P"
    by (rule sorted_wrt_sort_key [OF dpair])
  have A: "sorted_wrt (\<lambda>x y. t_id x < t_id y) ?A"
    by (rule sorted_wrt_sort_key [OF dP])
  have "sorted_wrt (task_before col ASC) ?P"
    by (rule sorted_wrt_mono_rel [OF _ P]) (auto simp: task_before_def)
  moreover have "sorted_wrt (task_before col ASC) ?A"
    by (rule sorted_wrt_mono_rel [OF _ A]) (auto simp: task_before_def)
  moreover have "sorted_wrt (task_before col DESC) (rev ?P)"
    unfolding sorted_wrt_rev by (rule sorted_wrt_mono_rel [OF _ P]) (auto simp: task_before_def)
  moreover have "sorted_wrt (task_before col DESC) (rev ?A)"
    unfolding sorted_wrt_rev by (rule sorted_wrt_mono_rel [OF _ A]) (auto simp: task_before_def)
  ultimately show ?thesis
    by (cases dir) (auto simp: order_tasks_def Let_def sorted_wrt_append task_before_def)
qed

lemma distinct_select_owned: "distinct (map t_id (tasks d)) \<Longrightarrow> distinct (map t_id (select_owned tr c d))"
  by (simp add: select_owned_def distinct_map_filter)

section \<open>Listing\<close>

definition completion_consistent :: "task \<Rightarrow> bool" where
  "completion_consistent t \<longleftrightarrow> (t_status t = COMPLETED) = (t_completed_at t \<noteq> None)"

lemma validate_public_task_ok: "completion_consistent t \<Longrightarrow> validate_public_task t = Inr (public_task t)"
  by (auto simp: completion_consistent_def validate_public_task_def validate_completion_def public_task_def)

lemma list_owned_tasks_eq:
  assumes "utc_instant clock = Some now" and "task_list_query_ok q"
    and "\<And>t. t \<in> set (tasks d) \<Longrightarrow> completion_consistent t"
  shows "list_owned_tasks tr clock q u d =
    (let c = criteria_of q u now;
         rows = order_tasks (sort_column tr (q_sort_by q)) (q_sort_direction q) (select_owned tr c d)
     in Inr \<lparr>tl_items = map public_task (page_slice (q_page q) (q_page_size q) rows),
             tl_page = q_page q, tl_page_size = q_page_size q, tl_total = length (select_owned tr c d),
             tl_pages = page_count (length (select_owned tr c d)) (q_page_size q)\<rparr>)"
proof -
  let ?c = "criteria_of q u now"
  let ?page = "list_owned tr ?c (q_page q) (q_page_size q) (q_sort_by q) (q_sort_direction q) d"
  have "set ?page \<subseteq> set (tasks d)"
    using set_page_slice set_order_tasks by (fastforce simp: list_owned_def select_owned_def)
  then have "traverse validate_public_task ?page = Inr (map public_task ?page)"
    using assms(3) by (intro traverse_total validate_public_task_ok) auto
  moreover have "length ?page \<le> q_page_size q"
    by (simp add: list_owned_def length_page_slice)
  ultimately show ?thesis
    using assms(1,2)
    by (simp add: list_owned_tasks_def query_time_def count_owned_def list_owned_def Let_def
          validate_task_page_def task_list_query_ok_def)
qed

end
