(* ===== verification/Tasks.thy ===== *)
theory Tasks
  imports Task_Queries Projects
begin

text \<open>
  Writing Tasks: the mutating half of \<open>TaskRepository\<close> (\<open>app/repositories/tasks.py\<close>) and the use
  cases of \<open>app/services/tasks.py\<close>. The lemmas describe everything that one request can do to
  the database (\<open>task_effect\<close>), and from it derive the status lifecycle, the atomicity of a batch,
  the absence of constraint violations and the \<open>owner_scoped\<close> contract.
\<close>

section \<open>Repository\<close>

definition new_task :: "env \<Rightarrow> nat \<Rightarrow> uuid \<Rightarrow> task_create \<Rightarrow> task" where
  "new_task e n user_id c =
     \<lparr>t_id = env_ids e n, t_user_id = user_id, t_project_id = tc_project_id c, t_title = tc_title c,
      t_description = tc_description c, t_status = TODO, t_priority = tc_priority c,
      t_planned_date = tc_planned_date c, t_due_at = tc_due_at c,
      t_estimated_minutes = tc_estimated_minutes c, t_completed_at = None,
      t_created_at = env_now e, t_updated_at = env_now e\<rparr>"

definition task_repo_create ::
  "env \<Rightarrow> nat \<Rightarrow> uuid \<Rightarrow> task_create \<Rightarrow> db \<Rightarrow> (task \<times> db) result" where
  "task_repo_create e n user_id c d =
     (let t = new_task e n user_id c
      in bind_result (flush_row e n (task_lengths t)
           ((''pk_tasks'', t_id t \<notin> t_id ` set (tasks d)) # task_constraints d t))
           (\<lambda>_. Inr (t, d\<lparr>tasks := tasks d @ [t]\<rparr>)))"

datatype task_change =
    T_title string | T_description "string option" | T_planned_date "date option"
  | T_due_at "instant option" | T_estimated_minutes "int option" | T_priority task_priority
  | T_status task_status | T_completed_at "instant option"

fun set_task_attr :: "task \<Rightarrow> task_change \<Rightarrow> task" where
  "set_task_attr t (T_title v) = t\<lparr>t_title := v\<rparr>"
| "set_task_attr t (T_description v) = t\<lparr>t_description := v\<rparr>"
| "set_task_attr t (T_planned_date v) = t\<lparr>t_planned_date := v\<rparr>"
| "set_task_attr t (T_due_at v) = t\<lparr>t_due_at := v\<rparr>"
| "set_task_attr t (T_estimated_minutes v) = t\<lparr>t_estimated_minutes := v\<rparr>"
| "set_task_attr t (T_priority v) = t\<lparr>t_priority := v\<rparr>"
| "set_task_attr t (T_status v) = t\<lparr>t_status := v\<rparr>"
| "set_task_attr t (T_completed_at v) = t\<lparr>t_completed_at := v\<rparr>"

definition task_repo_update ::
  "env \<Rightarrow> task \<Rightarrow> task_change list \<Rightarrow> instant \<Rightarrow> db \<Rightarrow> (task \<times> db) result" where
  "task_repo_update e t values updated_at d =
     (let t' = (foldl set_task_attr t values)\<lparr>t_updated_at := updated_at\<rparr>
      in bind_result (flush_row e 0 (task_lengths t') (task_constraints d t'))
           (\<lambda>_. Inr (t', d\<lparr>tasks := replace_row t_id t' (tasks d)\<rparr>)))"

definition task_repo_delete_owned :: "env \<Rightarrow> uuid \<Rightarrow> uuid \<Rightarrow> db \<Rightarrow> (bool \<times> db) result" where
  "task_repo_delete_owned e i user_id d =
     (case get_owned_by_id i user_id d of
        None \<Rightarrow> Inr (False, d)
      | Some t \<Rightarrow> if env_flush_fails e 0 then Inl DatabaseError
                  else Inr (True, d\<lparr>tasks := delete_row t_id (t_id t) (tasks d)\<rparr>))"

section \<open>Status transitions\<close>

definition allowed_non_completed_transitions :: "(task_status \<times> task_status) list" where
  "allowed_non_completed_transitions =
     [(TODO, IN_PROGRESS), (TODO, CANCELLED), (IN_PROGRESS, TODO), (IN_PROGRESS, CANCELLED),
      (CANCELLED, TODO)]"

definition validate_status_transition :: "task_status \<Rightarrow> task_status \<Rightarrow> unit result" where
  "validate_status_transition current target =
     (if current = target then Inr ()
      else if current = COMPLETED then Inr ()
      else if (current, target) \<notin> set allowed_non_completed_transitions then Inl TaskTransitionError
      else Inr ())"

section \<open>Use cases\<close>

definition create_task ::
  "env \<Rightarrow> task_create \<Rightarrow> uuid \<Rightarrow> session \<Rightarrow> public_task result \<times> session" where
  "create_task e c user_id s =
     (case project_get_owned_by_id (tc_project_id c) user_id (working s) of
        None \<Rightarrow> (Inl ProjectNotFoundError, s)
      | Some _ \<Rightarrow> transaction (env_commit e) (\<lambda>d.
          bind_result (task_repo_create e 0 user_id c d) (\<lambda>(t, d').
            bind_result (validate_public_task t) (\<lambda>r. Inr (r, d')))) s)"

fun create_all ::
  "env \<Rightarrow> nat \<Rightarrow> uuid \<Rightarrow> task_create list \<Rightarrow> db \<Rightarrow> (public_task list \<times> db) result" where
  "create_all e n user_id [] d = Inr ([], d)"
| "create_all e n user_id (c # cs) d =
     bind_result (task_repo_create e n user_id c d) (\<lambda>(t, d').
       bind_result (validate_public_task t) (\<lambda>r.
         bind_result (create_all e (Suc n) user_id cs d') (\<lambda>(rs, d''). Inr (r # rs, d''))))"

definition create_task_batch ::
  "env \<Rightarrow> task_create list \<Rightarrow> uuid \<Rightarrow> session \<Rightarrow> public_task list result \<times> session" where
  "create_task_batch e cs user_id s =
     (if \<not> (1 \<le> length cs \<and> length cs \<le> 10) then (Inl ValueError, s)
      else let project_id = tc_project_id (hd cs) in
        if list_ex (\<lambda>c. tc_project_id c \<noteq> project_id) cs then (Inl ValueError, s)
        else case project_get_owned_by_id project_id user_id (working s) of
               None \<Rightarrow> (Inl ProjectNotFoundError, s)
             | Some _ \<Rightarrow> transaction (env_commit e) (create_all e 0 user_id cs) s)"

text \<open>
  The loop of \<open>update_owned_task\<close> over the supplied fields, in the order of the schema; only the
  status field is checked against the stored row.
\<close>

definition status_changes :: "task \<Rightarrow> task_status option \<Rightarrow> task_change list result" where
  "status_changes t v =
     (case v of None \<Rightarrow> Inr []
      | Some target \<Rightarrow>
          bind_result (validate_status_transition (t_status t) target) (\<lambda>_.
            Inr ((if t_status t = COMPLETED \<and> target \<noteq> t_status t then [T_completed_at None] else []) @
                 (if t_status t \<noteq> target then [T_status target] else []))))"

definition task_changes :: "task \<Rightarrow> task_update \<Rightarrow> task_change list result" where
  "task_changes t u =
     bind_result (status_changes t (tu_status u)) (\<lambda>status.
       Inr (changed (tu_title u) (t_title t) T_title @
            changed (tu_description u) (t_description t) T_description @
            changed (tu_planned_date u) (t_planned_date t) T_planned_date @
            changed (tu_due_at u) (t_due_at t) T_due_at @
            changed (tu_estimated_minutes u) (t_estimated_minutes t) T_estimated_minutes @
            changed (tu_priority u) (t_priority t) T_priority @ status))"

definition update_owned_task ::
  "env \<Rightarrow> uuid \<Rightarrow> task_update \<Rightarrow> uuid \<Rightarrow> session \<Rightarrow> public_task result \<times> session" where
  "update_owned_task e i u user_id s =
     (case require_owned_task (get_owned_by_id i user_id (working s)) of
        Inl x \<Rightarrow> (Inl x, s)
      | Inr t \<Rightarrow>
          let planned_date = (case tu_planned_date u of None \<Rightarrow> t_planned_date t | Some v \<Rightarrow> v);
              due_at = (case tu_due_at u of None \<Rightarrow> t_due_at t | Some v \<Rightarrow> v)
          in case validate_task_date_order planned_date due_at of
               Inl x \<Rightarrow> (Inl x, s)
             | Inr _ \<Rightarrow>
                 (case task_changes t u of
                    Inl x \<Rightarrow> (Inl x, s)
                  | Inr changes \<Rightarrow>
                      if changes = [] then (validate_public_task t, s)
                      else (case query_time (env_clock e) of
                              Inl x \<Rightarrow> (Inl x, s)
                            | Inr changed_at \<Rightarrow> transaction (env_commit e) (\<lambda>d.
                                bind_result (task_repo_update e t changes changed_at d) (\<lambda>(t', d').
                                  bind_result (validate_public_task t') (\<lambda>r. Inr (r, d')))) s)))"

definition complete_owned_task ::
  "env \<Rightarrow> uuid \<Rightarrow> uuid \<Rightarrow> session \<Rightarrow> public_task result \<times> session" where
  "complete_owned_task e i user_id s =
     (case require_owned_task (get_owned_by_id i user_id (working s)) of
        Inl x \<Rightarrow> (Inl x, s)
      | Inr t \<Rightarrow>
          if t_status t = COMPLETED then (validate_public_task t, s)
          else (case query_time (env_clock e) of
                  Inl x \<Rightarrow> (Inl x, s)
                | Inr completed_at \<Rightarrow> transaction (env_commit e) (\<lambda>d.
                    bind_result (task_repo_update e t [T_status COMPLETED, T_completed_at (Some completed_at)]
                      completed_at d) (\<lambda>(t', d').
                        bind_result (validate_public_task t') (\<lambda>r. Inr (r, d')))) s))"

text \<open>
  \<open>except TaskNotFoundError: raise\<close> comes before the general handler, so a missing Task is
  reported without a rollback; any other exception rolls back.
\<close>

definition delete_owned_task :: "env \<Rightarrow> uuid \<Rightarrow> uuid \<Rightarrow> session \<Rightarrow> unit result \<times> session" where
  "delete_owned_task e i user_id s =
     (case task_repo_delete_owned e i user_id (working s) of
        Inl x \<Rightarrow> (Inl x, session_rollback s)
      | Inr (deleted, d) \<Rightarrow>
          if \<not> deleted then (Inl TaskNotFoundError, s)
          else transaction (env_commit e) (\<lambda>_. Inr ((), d)) s)"

section \<open>Requests\<close>

datatype task_request =
    Task_create env uuid task_create
  | Task_batch env uuid "task_create list"
  | Task_get uuid uuid
  | Task_list text_rules datetime uuid task_list_query
  | Task_update env uuid uuid task_update
  | Task_complete env uuid uuid
  | Task_delete env uuid uuid

datatype task_response =
    Task_one "public_task result"
  | Task_many "public_task list result"
  | Task_page "task_list_response result"
  | Task_none "unit result"

fun exec_task :: "task_request \<Rightarrow> db \<Rightarrow> task_response \<times> db" where
  "exec_task (Task_create e u c) d = map_prod Task_one committed (create_task e c u (open_session d))"
| "exec_task (Task_batch e u cs) d = map_prod Task_many committed (create_task_batch e cs u (open_session d))"
| "exec_task (Task_get u i) d = (Task_one (get_owned_task i u d), d)"
| "exec_task (Task_list tr clock u q) d = (Task_page (list_owned_tasks tr clock q u d), d)"
| "exec_task (Task_update e u i c) d = map_prod Task_one committed (update_owned_task e i c u (open_session d))"
| "exec_task (Task_complete e u i) d = map_prod Task_one committed (complete_owned_task e i u (open_session d))"
| "exec_task (Task_delete e u i) d = map_prod Task_none committed (delete_owned_task e i u (open_session d))"

fun task_actor :: "task_request \<Rightarrow> uuid" where
  "task_actor (Task_create e u c) = u"
| "task_actor (Task_batch e u cs) = u"
| "task_actor (Task_get u i) = u"
| "task_actor (Task_list tr clock u q) = u"
| "task_actor (Task_update e u i c) = u"
| "task_actor (Task_complete e u i) = u"
| "task_actor (Task_delete e u i) = u"

fun task_fresh :: "task_request \<Rightarrow> db \<Rightarrow> bool" where
  "task_fresh (Task_create e u c) d \<longleftrightarrow> env_ids e 0 \<notin> t_id ` set (tasks d)"
| "task_fresh (Task_batch e u cs) d \<longleftrightarrow> (\<forall>n < length cs. env_ids e n \<notin> t_id ` set (tasks d))"
| "task_fresh _ d \<longleftrightarrow> True"

section \<open>What a request can do to the database\<close>

fun is_completion :: "task_request \<Rightarrow> bool" where
  "is_completion (Task_complete e u i) = True"
| "is_completion _ = False"

text \<open>
  The status edges that a request may take. Completion is reserved for the completion action;
  a completed Task may be reopened with any other status.
\<close>

definition status_edge :: "bool \<Rightarrow> task_status \<Rightarrow> task_status \<Rightarrow> bool" where
  "status_edge completion a b \<longleftrightarrow>
     (if completion then b = COMPLETED
      else a = b \<or> (a = COMPLETED \<and> b \<noteq> COMPLETED) \<or> (a, b) \<in> set allowed_non_completed_transitions)"

definition added_tasks :: "uuid \<Rightarrow> db \<Rightarrow> db \<Rightarrow> bool" where
  "added_tasks u d d' \<longleftrightarrow> (\<exists>ts. d' = d\<lparr>tasks := tasks d @ ts\<rparr> \<and> distinct (map t_id (tasks d @ ts)) \<and>
     (\<forall>t \<in> set ts. t_user_id t = u \<and> t_status t = TODO \<and> list_all snd (task_constraints d t) \<and> task_lengths t))"

definition replaced_task :: "bool \<Rightarrow> uuid \<Rightarrow> db \<Rightarrow> db \<Rightarrow> bool" where
  "replaced_task completion u d d' \<longleftrightarrow>
     (\<exists>q \<in> set (tasks d). \<exists>t. t_id t = t_id q \<and> t_user_id q = u \<and> t_user_id t = u \<and>
        t_project_id t = t_project_id q \<and> t_created_at t = t_created_at q \<and>
        status_edge completion (t_status q) (t_status t) \<and>
        list_all snd (task_constraints d t) \<and> task_lengths t \<and>
        d' = d\<lparr>tasks := replace_row t_id t (tasks d)\<rparr>)"

definition removed_task :: "uuid \<Rightarrow> db \<Rightarrow> db \<Rightarrow> bool" where
  "removed_task u d d' \<longleftrightarrow>
     (\<exists>q \<in> set (tasks d). t_user_id q = u \<and> d' = d\<lparr>tasks := delete_row t_id (t_id q) (tasks d)\<rparr>)"

definition task_effect :: "bool \<Rightarrow> uuid \<Rightarrow> db \<Rightarrow> db \<Rightarrow> bool" where
  "task_effect completion u d d' \<longleftrightarrow>
     d' = d \<or> added_tasks u d d' \<or> replaced_task completion u d d' \<or> removed_task u d d'"

lemma task_effect_refl [simp]: "task_effect completion u d d"
  by (simp add: task_effect_def)

lemma get_owned_SomeD:
  "get_owned_by_id i u d = Some t \<Longrightarrow> t \<in> set (tasks d) \<and> t_id t = i \<and> t_user_id t = u"
  by (auto simp: get_owned_by_id_def dest: find_SomeD)

lemma task_constraints_tasks [simp]: "task_constraints (d\<lparr>tasks := ts\<rparr>) t = task_constraints d t"
  by (simp add: task_constraints_def)

lemma task_repo_create_Inr:
  "task_repo_create e n u c d = Inr (t, d') \<longleftrightarrow>
     t = new_task e n u c \<and> d' = d\<lparr>tasks := tasks d @ [t]\<rparr> \<and> \<not> env_flush_fails e n \<and>
     task_lengths t \<and> t_id t \<notin> t_id ` set (tasks d) \<and> list_all snd (task_constraints d t)"
  by (auto simp: task_repo_create_def Let_def bind_result_eq_Inr flush_row_ok)

lemma create_all_Inr:
  assumes "create_all e n u cs d = Inr (rs, d')"
  defines "ts \<equiv> map (\<lambda>(k, c). new_task e k u c) (zip [n..<n + length cs] cs)"
  shows "d' = d\<lparr>tasks := tasks d @ ts\<rparr> \<and> rs = map public_task ts \<and>
         (distinct (map t_id (tasks d)) \<longrightarrow> distinct (map t_id (tasks d @ ts))) \<and>
         (\<forall>t \<in> set ts. list_all snd (task_constraints d t) \<and> task_lengths t)"
  using assms(1) unfolding ts_def
proof (induction cs arbitrary: n d rs)
  case (Cons c cs)
  let ?t = "new_task e n u c"
  from Cons.prems obtain r rs' where
    t: "task_repo_create e n u c d = Inr (?t, d\<lparr>tasks := tasks d @ [?t]\<rparr>)"
    and r: "validate_public_task ?t = Inr r"
    and rest: "create_all e (Suc n) u cs (d\<lparr>tasks := tasks d @ [?t]\<rparr>) = Inr (rs', d')"
    and rs: "rs = r # rs'"
    by (auto simp: bind_result_eq_Inr task_repo_create_Inr)
  have "r = public_task ?t"
    using r by (auto simp: validate_public_task_def validate_completion_def split: if_splits)
  moreover have "[n..<n + length (c # cs)] = n # [Suc n..<Suc n + length cs]"
    by (simp add: upt_rec)
  ultimately show ?case
    using Cons.IH [OF rest] t by (auto simp: rs task_repo_create_Inr)
qed auto

lemma new_task_simps [simp]:
  "t_id (new_task e n u c) = env_ids e n" "t_user_id (new_task e n u c) = u"
  "t_status (new_task e n u c) = TODO" "t_completed_at (new_task e n u c) = None"
  by (simp_all add: new_task_def)

lemma added_tasks_effect:
  "distinct (map t_id (tasks d @ ts)) \<Longrightarrow>
   (\<And>t. t \<in> set ts \<Longrightarrow> t_user_id t = u \<and> t_status t = TODO \<and> list_all snd (task_constraints d t) \<and> task_lengths t) \<Longrightarrow>
   task_effect completion u d (d\<lparr>tasks := tasks d @ ts\<rparr>)"
  unfolding task_effect_def added_tasks_def by blast

lemma create_task_effect:
  "task_effect False u d (committed (snd (create_task e c u (open_session d))))"
  if "distinct (map t_id (tasks d))"
proof (cases "project_get_owned_by_id (tc_project_id c) u d")
  case (Some p)
  have "task_effect False u d d'"
    if "task_repo_create e 0 u c d = Inr (t, d')" for t d'
    using that \<open>distinct (map t_id (tasks d))\<close>
    by (auto simp: task_repo_create_Inr intro!: added_tasks_effect)
  with Some show ?thesis
    by (auto simp: create_task_def bind_result_eq_Inr
          intro!: transaction_preserves [where P = "task_effect False u d"])
qed (simp add: create_task_def)

lemma create_task_batch_effect:
  "task_effect False u d (committed (snd (create_task_batch e cs u (open_session d))))"
  if "distinct (map t_id (tasks d))"
proof -
  have "task_effect False u d d'" if "create_all e 0 u cs d = Inr (rs, d')" for rs d'
  proof -
    let ?ts = "map (\<lambda>(k, c). new_task e k u c) (zip [0..<0 + length cs] cs)"
    have "task_effect False u d (d\<lparr>tasks := tasks d @ ?ts\<rparr>)"
      using create_all_Inr [OF that] \<open>distinct (map t_id (tasks d))\<close>
      by (intro added_tasks_effect) auto
    then show ?thesis using create_all_Inr [OF that] by simp
  qed
  then show ?thesis
    by (auto simp: create_task_batch_def Let_def
          intro!: transaction_preserves [where P = "task_effect False u d"] split: option.splits)
qed

lemma set_task_attr_key [simp]:
  "t_id (set_task_attr t c) = t_id t" "t_user_id (set_task_attr t c) = t_user_id t"
  "t_project_id (set_task_attr t c) = t_project_id t" "t_created_at (set_task_attr t c) = t_created_at t"
  by (cases c; simp)+

lemma foldl_set_task_attr_key [simp]:
  "t_id (foldl set_task_attr t cs) = t_id t" "t_user_id (foldl set_task_attr t cs) = t_user_id t"
  "t_project_id (foldl set_task_attr t cs) = t_project_id t"
  "t_created_at (foldl set_task_attr t cs) = t_created_at t"
  by (induction cs arbitrary: t) auto

lemma task_repo_update_Inr:
  "task_repo_update e t cs now d = Inr (t', d') \<longleftrightarrow>
     t' = (foldl set_task_attr t cs)\<lparr>t_updated_at := now\<rparr> \<and>
     d' = d\<lparr>tasks := replace_row t_id t' (tasks d)\<rparr> \<and> \<not> env_flush_fails e 0 \<and>
     task_lengths t' \<and> list_all snd (task_constraints d t')"
  by (auto simp: task_repo_update_def Let_def bind_result_eq_Inr flush_row_ok)

lemma foldl_changed_attr:
  "cur = t_title x \<Longrightarrow> foldl set_task_attr x (changed v1 cur T_title) =
     x\<lparr>t_title := (case v1 of None \<Rightarrow> t_title x | Some w \<Rightarrow> w)\<rparr>"
  "cur2 = t_description x \<Longrightarrow> foldl set_task_attr x (changed v2 cur2 T_description) =
     x\<lparr>t_description := (case v2 of None \<Rightarrow> t_description x | Some w \<Rightarrow> w)\<rparr>"
  "cur3 = t_planned_date x \<Longrightarrow> foldl set_task_attr x (changed v3 cur3 T_planned_date) =
     x\<lparr>t_planned_date := (case v3 of None \<Rightarrow> t_planned_date x | Some w \<Rightarrow> w)\<rparr>"
  "cur4 = t_due_at x \<Longrightarrow> foldl set_task_attr x (changed v4 cur4 T_due_at) =
     x\<lparr>t_due_at := (case v4 of None \<Rightarrow> t_due_at x | Some w \<Rightarrow> w)\<rparr>"
  "cur5 = t_estimated_minutes x \<Longrightarrow> foldl set_task_attr x (changed v5 cur5 T_estimated_minutes) =
     x\<lparr>t_estimated_minutes := (case v5 of None \<Rightarrow> t_estimated_minutes x | Some w \<Rightarrow> w)\<rparr>"
  "cur6 = t_priority x \<Longrightarrow> foldl set_task_attr x (changed v6 cur6 T_priority) =
     x\<lparr>t_priority := (case v6 of None \<Rightarrow> t_priority x | Some w \<Rightarrow> w)\<rparr>"
  by (simp_all add: changed_def split: option.splits)

text \<open>The row that the collected changes write.\<close>

lemma foldl_changed_task:
  assumes "task_changes t u = Inr cs"
  shows "foldl set_task_attr t cs =
     t\<lparr>t_title := (case tu_title u of None \<Rightarrow> t_title t | Some v \<Rightarrow> v),
       t_description := (case tu_description u of None \<Rightarrow> t_description t | Some v \<Rightarrow> v),
       t_planned_date := (case tu_planned_date u of None \<Rightarrow> t_planned_date t | Some v \<Rightarrow> v),
       t_due_at := (case tu_due_at u of None \<Rightarrow> t_due_at t | Some v \<Rightarrow> v),
       t_estimated_minutes := (case tu_estimated_minutes u of None \<Rightarrow> t_estimated_minutes t | Some v \<Rightarrow> v),
       t_priority := (case tu_priority u of None \<Rightarrow> t_priority t | Some v \<Rightarrow> v),
       t_status := (case tu_status u of None \<Rightarrow> t_status t | Some v \<Rightarrow> v),
       t_completed_at := (case tu_status u of None \<Rightarrow> t_completed_at t
          | Some v \<Rightarrow> if t_status t = COMPLETED \<and> v \<noteq> COMPLETED then None else t_completed_at t)\<rparr>"
proof -
  obtain sc where sc: "status_changes t (tu_status u) = Inr sc"
    and cs: "cs = changed (tu_title u) (t_title t) T_title @
            changed (tu_description u) (t_description t) T_description @
            changed (tu_planned_date u) (t_planned_date t) T_planned_date @
            changed (tu_due_at u) (t_due_at t) T_due_at @
            changed (tu_estimated_minutes u) (t_estimated_minutes t) T_estimated_minutes @
            changed (tu_priority u) (t_priority t) T_priority @ sc"
    using assms by (auto simp: task_changes_def bind_result_eq_Inr)
  have status: "foldl set_task_attr x sc =
      x\<lparr>t_status := (case tu_status u of None \<Rightarrow> t_status x | Some v \<Rightarrow> v),
        t_completed_at := (case tu_status u of None \<Rightarrow> t_completed_at x
          | Some v \<Rightarrow> if t_status t = COMPLETED \<and> v \<noteq> COMPLETED then None else t_completed_at x)\<rparr>"
    if "t_status x = t_status t" for x
    using sc that by (auto simp: status_changes_def bind_result_eq_Inr split: option.splits)
  show ?thesis
    unfolding cs foldl_append by (simp add: foldl_changed_attr status cong: option.case_cong if_cong)
qed

lemma task_changes_edge:
  assumes "task_changes t u = Inr cs"
  shows "status_edge False (t_status t) (t_status (foldl set_task_attr t cs))"
  unfolding foldl_changed_task [OF assms] using assms
  by (auto simp: task_changes_def status_changes_def bind_result_eq_Inr validate_status_transition_def
        status_edge_def split: option.splits if_splits)

lemma task_write_effect:
  assumes "t \<in> set (tasks d)" "t_user_id t = u"
    and "status_edge completion (t_status t) (t_status (foldl set_task_attr t cs))"
  shows "task_effect completion u d (committed (snd (transaction outcome (\<lambda>x.
           bind_result (task_repo_update e t cs now x) (\<lambda>(t', d').
             bind_result (validate_public_task t') (\<lambda>r. Inr (r, d')))) (open_session d))))"
proof (rule transaction_preserves [where P = "task_effect completion u d"])
  fix r d'
  assume "bind_result (task_repo_update e t cs now (working (open_session d))) (\<lambda>(t', d').
             bind_result (validate_public_task t') (\<lambda>r. Inr (r, d'))) = Inr (r, d')"
  then obtain t' where t': "task_repo_update e t cs now d = Inr (t', d')"
    by (auto simp: bind_result_eq_Inr)
  with assms have "replaced_task completion u d d'"
    unfolding replaced_task_def by (intro bexI [of _ t] exI [of _ t']) (auto simp: task_repo_update_Inr)
  then show "task_effect completion u d d'" by (simp add: task_effect_def)
qed simp

lemma update_owned_task_effect:
  "task_effect False u d (committed (snd (update_owned_task e i c u (open_session d))))"
proof (cases "get_owned_by_id i u d")
  case (Some t)
  from get_owned_SomeD [OF this] Some show ?thesis
    by (auto simp: update_owned_task_def require_owned_task_def Let_def
          intro!: task_write_effect task_changes_edge split: sum.splits)
qed (simp add: update_owned_task_def require_owned_task_def)

lemma complete_owned_task_effect:
  "task_effect True u d (committed (snd (complete_owned_task e i u (open_session d))))"
proof (cases "get_owned_by_id i u d")
  case (Some t)
  from get_owned_SomeD [OF this] Some show ?thesis
    by (auto simp: complete_owned_task_def require_owned_task_def status_edge_def
          intro!: task_write_effect split: sum.splits)
qed (simp add: complete_owned_task_def require_owned_task_def)

lemma delete_owned_task_effect:
  "task_effect False u d (committed (snd (delete_owned_task e i u (open_session d))))"
proof (cases "get_owned_by_id i u d")
  case (Some t)
  from get_owned_SomeD [OF this] have "task_effect False u d (d\<lparr>tasks := delete_row t_id i (tasks d)\<rparr>)"
    by (auto simp: removed_task_def task_effect_def)
  with Some get_owned_SomeD [OF Some] show ?thesis
    by (auto simp: delete_owned_task_def task_repo_delete_owned_def
          intro!: transaction_preserves [where P = "task_effect False (t_user_id t) d"])
qed (simp add: delete_owned_task_def task_repo_delete_owned_def)

lemma exec_task_effect:
  assumes "distinct (map t_id (tasks d))"
  shows "task_effect (is_completion r) (task_actor r) d (snd (exec_task r d))"
  by (cases r)
     (simp_all add: snd_map_prod create_task_effect [OF assms] create_task_batch_effect [OF assms]
        update_owned_task_effect complete_owned_task_effect delete_owned_task_effect)

section \<open>Integrity\<close>

lemma task_effect_tables:
  "task_effect b u d d' \<Longrightarrow> users d' = users d \<and> projects d' = projects d \<and>
     refresh_tokens d' = refresh_tokens d \<and> task_constraints d' t = task_constraints d t"
  by (auto simp: task_effect_def added_tasks_def replaced_task_def removed_task_def)

lemma task_effect_wf_tasks:
  assumes "task_effect b u d d'" "wf_tasks d"
  shows "wf_tasks d'"
proof -
  have cs: "task_constraints d' t = task_constraints d t" for t
    using task_effect_tables [OF assms(1)] by blast
  show ?thesis
    using assms unfolding wf_tasks_def cs task_effect_def
  proof (elim disjE)
    assume "added_tasks u d d'"
    with assms(2) show "distinct (map t_id (tasks d')) \<and>
        (\<forall>t\<in>set (tasks d'). list_all snd (task_constraints d t) \<and> task_lengths t)"
      by (auto simp: added_tasks_def wf_tasks_def)
  next
    assume "replaced_task b u d d'"
    with assms(2) show "distinct (map t_id (tasks d')) \<and>
        (\<forall>t\<in>set (tasks d'). list_all snd (task_constraints d t) \<and> task_lengths t)"
      by (auto simp: replaced_task_def wf_tasks_def keys_replace_row dest!: set_replace_row)
  next
    assume "removed_task u d d'"
    with assms(2) show "distinct (map t_id (tasks d')) \<and>
        (\<forall>t\<in>set (tasks d'). list_all snd (task_constraints d t) \<and> task_lengths t)"
      by (auto simp: removed_task_def wf_tasks_def set_delete_row intro: distinct_delete_row)
  qed auto
qed

lemma task_effect_wf_core: "task_effect b u d d' \<Longrightarrow> wf_core d \<Longrightarrow> wf_core d'"
  using task_effect_wf_tasks [of b u d d'] task_effect_tables [of b u d d']
  by (simp add: wf_core_def wf_users_def wf_projects_def wf_tokens_def project_constraints_def
        refresh_token_constraints_def)

lemma wf_core_distinct_tasks: "wf_core d \<Longrightarrow> distinct (map t_id (tasks d))"
  by (simp add: wf_core_def wf_tasks_def)

lemma wf_core_completion: "wf_core d \<Longrightarrow> t \<in> set (tasks d) \<Longrightarrow> completion_consistent t"
  by (auto simp: wf_core_def wf_tasks_def task_constraints_def completion_consistent_def)

text \<open>Rows of a table with distinct keys are determined by their key.\<close>

lemma task_row_unique:
  "distinct (map t_id ts) \<Longrightarrow> x \<in> set ts \<Longrightarrow> y \<in> set ts \<Longrightarrow> t_id x = t_id y \<Longrightarrow> x = y"
  by (metis distinct_map inj_onD)

lemma task_effect_rows:
  assumes "task_effect b u d d'" "wf_core d" "t \<in> set (tasks d)" "t' \<in> set (tasks d')" "t_id t' = t_id t"
  shows "t' = t \<or> (t_user_id t = u \<and> t_user_id t' = u \<and> t_project_id t' = t_project_id t \<and>
           t_created_at t' = t_created_at t \<and> status_edge b (t_status t) (t_status t'))"
proof -
  note uniq = task_row_unique [OF wf_core_distinct_tasks [OF assms(2)]]
  have ?thesis if "added_tasks u d d'"
  proof -
    from that obtain ts where ts: "d' = d\<lparr>tasks := tasks d @ ts\<rparr>" "distinct (map t_id (tasks d @ ts))"
      by (auto simp: added_tasks_def)
    with task_row_unique [OF ts(2), of t' t] assms(3-5) show ?thesis by auto
  qed
  moreover have ?thesis if "replaced_task b u d d'"
  proof -
    from that obtain q x where q: "q \<in> set (tasks d)" "t_id x = t_id q" "t_user_id q = u" "t_user_id x = u"
      "t_project_id x = t_project_id q" "t_created_at x = t_created_at q"
      "status_edge b (t_status q) (t_status x)" "d' = d\<lparr>tasks := replace_row t_id x (tasks d)\<rparr>"
      by (auto simp: replaced_task_def)
    with assms(4) have "t' = x \<or> t' \<in> set (tasks d)"
      by (auto dest: set_replace_row)
    then show ?thesis
    proof
      assume "t' = x"
      moreover from this have "q = t" using q(1,2) assms(3,5) by (intro uniq) auto
      ultimately show ?thesis using q by auto
    qed (use uniq assms(3,5) in blast)
  qed
  moreover have ?thesis if "removed_task u d d'"
  proof -
    from that assms(4) have "t' \<in> set (tasks d)" by (auto simp: removed_task_def set_delete_row)
    from uniq [OF this assms(3,5)] show ?thesis by simp
  qed
  moreover have ?thesis if "d' = d"
    using uniq [of t' t] that assms(3-5) by simp
  ultimately show ?thesis
    using assms(1) unfolding task_effect_def by blast
qed

section \<open>Validated input never trips a constraint\<close>

lemma new_task_fits:
  assumes "task_create_ok c" "u \<in> u_id ` set (users d)" "(tc_project_id c, u) \<in> project_keys d"
  shows "list_all snd (task_constraints d (new_task e n u c))" "task_lengths (new_task e n u c)"
  using assms
  by (auto simp: task_constraints_def new_task_def task_lengths_def task_create_ok_def minutes_ok_def
        project_keys_def validate_task_date_order_def split: option.splits if_splits)

lemma updated_task_fits:
  assumes row: "list_all snd (task_constraints d t)" "task_lengths t" and ok: "task_update_ok u"
    and changes: "task_changes t u = Inr cs"
    and order: "validate_task_date_order
           (case tu_planned_date u of None \<Rightarrow> t_planned_date t | Some v \<Rightarrow> v)
           (case tu_due_at u of None \<Rightarrow> t_due_at t | Some v \<Rightarrow> v) = Inr ()"
  shows "list_all snd (task_constraints d ((foldl set_task_attr t cs)\<lparr>t_updated_at := now\<rparr>))"
    and "task_lengths ((foldl set_task_attr t cs)\<lparr>t_updated_at := now\<rparr>)"
proof -
  have title: "btrim_nonblank (case tu_title u of None \<Rightarrow> t_title t | Some v \<Rightarrow> v)"
    "length (case tu_title u of None \<Rightarrow> t_title t | Some v \<Rightarrow> v) \<le> 300"
    using row ok by (auto simp: task_constraints_def task_lengths_def task_update_ok_def split: option.splits)
  have minutes: "opt_all (\<lambda>m. 1 \<le> m \<and> m \<le> 1440)
      (case tu_estimated_minutes u of None \<Rightarrow> t_estimated_minutes t | Some v \<Rightarrow> v)"
    using row ok by (auto simp: task_constraints_def task_update_ok_def minutes_ok_def split: option.splits)
  have desc: "opt_all (\<lambda>s. length s \<le> 5000) (case tu_description u of None \<Rightarrow> t_description t | Some v \<Rightarrow> v)"
    using row ok by (auto simp: task_lengths_def task_update_ok_def split: option.splits)
  have dates: "case (case tu_due_at u of None \<Rightarrow> t_due_at t | Some v \<Rightarrow> v,
                 case tu_planned_date u of None \<Rightarrow> t_planned_date t | Some v \<Rightarrow> v) of
               (Some due, Some planned) \<Rightarrow> day_start planned \<le> due | _ \<Rightarrow> True"
    using order by (auto simp: validate_task_date_order_def split: option.splits if_splits)
  have status: "((case tu_status u of None \<Rightarrow> t_status t | Some v \<Rightarrow> v) = COMPLETED) =
      ((case tu_status u of None \<Rightarrow> t_completed_at t
          | Some v \<Rightarrow> if t_status t = COMPLETED \<and> v \<noteq> COMPLETED then None else t_completed_at t) \<noteq> None)"
    using row ok by (auto simp: task_constraints_def task_update_ok_def split: option.splits)
  show "list_all snd (task_constraints d ((foldl set_task_attr t cs)\<lparr>t_updated_at := now\<rparr>))"
    using row(1) title(1) minutes dates status
    by (simp add: foldl_changed_task [OF changes] task_constraints_def)
  show "task_lengths ((foldl set_task_attr t cs)\<lparr>t_updated_at := now\<rparr>)"
    using title(2) desc by (simp add: foldl_changed_task [OF changes] task_lengths_def)
qed

lemma task_constraints_completion: "list_all snd (task_constraints d t) \<Longrightarrow> completion_consistent t"
  by (simp add: task_constraints_def completion_consistent_def)

lemma task_write_errors:
  assumes "list_all snd (task_constraints d ((foldl set_task_attr t cs)\<lparr>t_updated_at := now\<rparr>))"
    and "fst (transaction outcome (\<lambda>x. bind_result (task_repo_update e t cs now x) (\<lambda>(t', d').
             bind_result (validate_public_task t') (\<lambda>r. Inr (r, d')))) (open_session d)) = Inl x"
  shows "x = DatabaseError"
proof -
  have "y = DatabaseError" if "task_repo_update e t cs now d = Inl y" for y
    using that assms(1) by (auto simp: task_repo_update_def Let_def bind_result_eq_Inl dest: flush_row_no_integrity)
  moreover have "validate_public_task t' \<noteq> Inl y" if "task_repo_update e t cs now d = Inr (t', d')" for t' d' y
    using that assms(1)
    by (auto simp: task_repo_update_Inr validate_public_task_ok [OF task_constraints_completion])
  ultimately show ?thesis
    using transaction_fst_Inl [OF assms(2)] by (auto simp: bind_result_eq_Inl)
qed

lemma create_task_no_constraint_error:
  assumes "task_create_ok c" "u \<in> u_id ` set (users d)" "env_ids e 0 \<notin> t_id ` set (tasks d)"
    and "fst (create_task e c u (open_session d)) = Inl x"
  shows "x \<in> {ProjectNotFoundError, DatabaseError}"
proof (cases "project_get_owned_by_id (tc_project_id c) u d")
  case None
  with assms(4) show ?thesis by (simp add: create_task_def)
next
  case (Some p)
  from project_get_owned_SomeD [OF this] have "(tc_project_id c, u) \<in> project_keys d"
    by (force simp: project_keys_def)
  note fits = new_task_fits [OF assms(1,2) this, of e 0]
  have "y = DatabaseError" if "task_repo_create e 0 u c d = Inl y" for y
    using that fits assms(3)
    by (auto simp: task_repo_create_def Let_def bind_result_eq_Inl dest!: flush_row_no_integrity [rotated])
  moreover have "validate_public_task (new_task e 0 u c) = Inr (public_task (new_task e 0 u c))"
    by (rule validate_public_task_ok) (simp add: completion_consistent_def)
  ultimately show ?thesis
    using assms(4) Some
    by (auto simp: create_task_def bind_result_eq_Inl task_repo_create_Inr dest!: transaction_fst_Inl)
qed

lemma update_owned_task_no_constraint_error:
  assumes "wf_tasks d" "task_update_ok c"
    and "fst (update_owned_task e i c u (open_session d)) = Inl x"
  shows "x \<in> {TaskNotFoundError, TaskDateOrderError, TaskTransitionError, ValueError, DatabaseError}"
proof (cases "get_owned_by_id i u d")
  case None
  with assms(3) show ?thesis by (simp add: update_owned_task_def require_owned_task_def)
next
  case (Some t)
  have row: "list_all snd (task_constraints d t)" "task_lengths t"
    using get_owned_SomeD [OF Some] assms(1) by (auto simp: wf_tasks_def)
  note same = validate_public_task_ok [OF task_constraints_completion [OF row(1)]]
  have flush: "y = DatabaseError"
    if "validate_task_date_order
           (case tu_planned_date c of None \<Rightarrow> t_planned_date t | Some v \<Rightarrow> v)
           (case tu_due_at c of None \<Rightarrow> t_due_at t | Some v \<Rightarrow> v) = Inr ()"
      "task_changes t c = Inr cs"
      "fst (transaction outcome (\<lambda>x. bind_result (task_repo_update e t cs now x) (\<lambda>(t', d').
             bind_result (validate_public_task t') (\<lambda>r. Inr (r, d')))) (open_session d)) = Inl y"
    for outcome cs now y
    by (rule task_write_errors [OF updated_task_fits(1) [OF row assms(2) that(2,1)] that(3)])
  have "y = TaskTransitionError" if "task_changes t c = Inl y" for y
    using that by (auto simp: task_changes_def status_changes_def validate_status_transition_def
        bind_result_eq_Inl split: option.splits if_splits)
  moreover have "y = TaskDateOrderError" if "validate_task_date_order a b = Inl y" for y a b
    using that by (auto simp: validate_task_date_order_def split: option.splits if_splits)
  moreover have "y = ValueError" if "query_time a = Inl y" for y a
    using that by (auto simp: query_time_def split: option.splits)
  ultimately show ?thesis
    using assms(3) Some same
    by (auto simp: update_owned_task_def require_owned_task_def Let_def
          dest: flush split: sum.splits if_splits)
qed

section \<open>Owner scope\<close>

definition task_view :: "uuid \<Rightarrow> db \<Rightarrow> db" where
  "task_view u d = empty_db\<lparr>users := filter (\<lambda>x. u_id x = u) (users d),
     projects := filter (\<lambda>p. p_user_id p = u) (projects d),
     tasks := filter (\<lambda>t. t_user_id t = u) (tasks d)\<rparr>"

lemma task_view_simps [simp]:
  "users (task_view u d) = filter (\<lambda>x. u_id x = u) (users d)"
  "projects (task_view u d) = filter (\<lambda>p. p_user_id p = u) (projects d)"
  "tasks (task_view u d) = filter (\<lambda>t. t_user_id t = u) (tasks d)"
  by (simp_all add: task_view_def)

lemma task_constraints_view:
  "t_user_id t = u \<Longrightarrow> task_constraints (task_view u d) t = task_constraints d t"
  by (force simp: task_constraints_def)

lemma task_view_lookups [simp]:
  "get_owned_by_id i u (task_view u d) = get_owned_by_id i u d"
  "project_get_owned_by_id i u (task_view u d) = project_get_owned_by_id i u d"
  by (auto simp: get_owned_by_id_def project_get_owned_by_id_def find_filter_conj intro: find_cong_set)

lemma select_owned_view [simp]: "c_user_id c = u \<Longrightarrow> select_owned tr c (task_view u d) = select_owned tr c d"
  by (auto simp: select_owned_def owned_filters_def intro: filter_cong)

lemma task_view_update:
  assumes "distinct (map t_id (tasks d))" "q \<in> set (tasks d)" "t_id q = t_id t"
    "t_user_id q = u" "t_user_id t = u"
  shows "task_view u (d\<lparr>tasks := replace_row t_id t (tasks d)\<rparr>) =
         (task_view u d)\<lparr>tasks := replace_row t_id t (tasks (task_view u d))\<rparr>"
proof -
  have "t_user_id x = u" if "x \<in> set (tasks d)" "t_id x = t_id t" for x
    using that task_row_unique [OF assms(1) _ assms(2), of x] assms(3,4) by simp
  then have "filter (\<lambda>x. t_user_id x = u) (replace_row t_id t (tasks d)) =
        replace_row t_id t (filter (\<lambda>x. t_user_id x = u) (tasks d))"
    using assms(5) by (intro filter_replace_row_own) auto
  then show ?thesis by (simp add: task_view_def)
qed

lemma task_repo_update_view:
  assumes "distinct (map t_id (tasks d))" "t \<in> set (tasks d)" "t_user_id t = u"
  shows "task_repo_update e t cs now (task_view u d) =
         map_sum id (map_prod id (task_view u)) (task_repo_update e t cs now d)"
proof -
  let ?t = "(foldl set_task_attr t cs)\<lparr>t_updated_at := now\<rparr>"
  have "task_view u (d\<lparr>tasks := replace_row t_id ?t (tasks d)\<rparr>) =
        (task_view u d)\<lparr>tasks := replace_row t_id ?t (tasks (task_view u d))\<rparr>"
    using assms by (intro task_view_update [of d t]) auto
  then show ?thesis
    using assms(3)
    by (auto simp: task_repo_update_def Let_def bind_result_def task_constraints_view split: sum.splits)
qed

lemma task_write_view:
  assumes "distinct (map t_id (tasks d))" "t \<in> set (tasks d)" "t_user_id t = u"
  shows "map_prod g committed (transaction outcome (\<lambda>x.
           bind_result (task_repo_update e t cs now x) (\<lambda>(t', d').
             bind_result (validate_public_task t') (\<lambda>r. Inr (r, d')))) (open_session (task_view u d))) =
         map_prod id (task_view u) (map_prod g committed (transaction outcome (\<lambda>x.
           bind_result (task_repo_update e t cs now x) (\<lambda>(t', d').
             bind_result (validate_public_task t') (\<lambda>r. Inr (r, d')))) (open_session d)))"
  by (rule transaction_commute)
     (auto simp: task_repo_update_view [OF assms] bind_result_def map_sum_def split: sum.splits)

lemma task_repo_create_view:
  assumes "env_ids e n \<in> t_id ` set (tasks (task_view u d)) \<longleftrightarrow> env_ids e n \<in> t_id ` set (tasks d)"
  shows "task_repo_create e n u c (task_view u d) =
         map_sum id (map_prod id (task_view u)) (task_repo_create e n u c d)"
  using assms
  by (simp add: task_repo_create_def Let_def bind_result_def task_constraints_view split: sum.splits)
     (simp add: task_view_def)

text \<open>
  Identifiers of a batch are unused outside the owner's rows; if the batch generates one
  twice, the second insertion violates the primary key with and without the other owners.
\<close>

lemma create_all_view:
  assumes "\<And>k. n \<le> k \<Longrightarrow> k < n + length cs \<Longrightarrow>
      env_ids e k \<in> t_id ` set (tasks (task_view u d)) \<longleftrightarrow> env_ids e k \<in> t_id ` set (tasks d)"
  shows "create_all e n u cs (task_view u d) =
         map_sum id (map_prod id (task_view u)) (create_all e n u cs d)"
  using assms
proof (induction cs arbitrary: n d)
  case (Cons c cs)
  have create: "task_repo_create e n u c (task_view u d) =
         map_sum id (map_prod id (task_view u)) (task_repo_create e n u c d)"
    by (rule task_repo_create_view) (rule Cons.prems, simp_all)
  have rest: "create_all e (Suc n) u cs (task_view u d') =
         map_sum id (map_prod id (task_view u)) (create_all e (Suc n) u cs d')"
    if "task_repo_create e n u c d = Inr (t, d')" for t d'
  proof (rule Cons.IH)
    fix k assume k: "Suc n \<le> k" "k < Suc n + length cs"
    then have "env_ids e k \<in> t_id ` set (tasks (task_view u d)) \<longleftrightarrow> env_ids e k \<in> t_id ` set (tasks d)"
      by (intro Cons.prems) auto
    then show "env_ids e k \<in> t_id ` set (tasks (task_view u d')) \<longleftrightarrow> env_ids e k \<in> t_id ` set (tasks d')"
      using that by (auto simp: task_repo_create_Inr)
  qed
  show ?case
  proof (cases "task_repo_create e n u c d")
    case (Inr x)
    then show ?thesis
      using create rest [of "fst x" "snd x"]
      by (auto simp: bind_result_def split: sum.splits prod.splits)
  qed (simp add: create)
qed simp

lemma delete_view:
  "task_view u (d\<lparr>tasks := delete_row t_id i (tasks d)\<rparr>) =
   (task_view u d)\<lparr>tasks := delete_row t_id i (tasks (task_view u d))\<rparr>"
  by (simp add: task_view_def delete_row_def conj_commute)

text \<open>The rows of other users are not touched.\<close>

lemma task_effect_others:
  assumes "task_effect b v d d'" "distinct (map t_id (tasks d))" "u \<noteq> v"
  shows "task_view u d' = task_view u d"
proof -
  have uniq: "t_user_id x \<noteq> u" if "q \<in> set (tasks d)" "t_user_id q = v" "x \<in> set (tasks d)" "t_id x = t_id q" for q x
    using task_row_unique [OF assms(2) that(3,1,4)] that(2) assms(3) by simp
  have "filter (\<lambda>t. t_user_id t = u) (tasks d') = filter (\<lambda>t. t_user_id t = u) (tasks d)"
    using assms(1) unfolding task_effect_def
  proof (elim disjE)
    assume "added_tasks v d d'"
    then show ?thesis using assms(3) by (auto simp: added_tasks_def filter_empty_conv)
  next
    assume "replaced_task b v d d'"
    then obtain q t where q: "q \<in> set (tasks d)" "t_user_id q = v" "t_id t = t_id q" "t_user_id t = v"
      and d': "d' = d\<lparr>tasks := replace_row t_id t (tasks d)\<rparr>"
      by (auto simp: replaced_task_def)
    from q uniq [OF q(1,2)] assms(3) show ?thesis
      by (simp add: d' filter_replace_row_other)
  next
    assume "removed_task v d d'"
    then obtain q where q: "q \<in> set (tasks d)" "t_user_id q = v"
      and d': "d' = d\<lparr>tasks := delete_row t_id (t_id q) (tasks d)\<rparr>"
      by (auto simp: removed_task_def)
    from uniq [OF q] have "filter (\<lambda>t. t_id t \<noteq> t_id q \<and> t_user_id t = u) (tasks d) =
        filter (\<lambda>t. t_user_id t = u) (tasks d)"
      by (intro filter_cong) auto
    then show ?thesis by (simp add: d' delete_row_def conj_commute)
  qed simp
  with task_effect_tables [OF assms(1)] show ?thesis by (simp add: task_view_def)
qed

lemma exec_task_view:
  assumes wf: "distinct (map t_id (tasks d))" and fresh: "task_fresh r d"
  shows "exec_task r (task_view (task_actor r) d) =
         map_prod id (task_view (task_actor r)) (exec_task r d)"
proof (cases r)
  case (Task_create e u c)
  have "exec_task r (task_view u d) = map_prod id (task_view u) (exec_task r d)"
  proof (cases "project_get_owned_by_id (tc_project_id c) u d")
    case (Some p)
    have "task_repo_create e 0 u c (task_view u d) =
        map_sum id (map_prod id (task_view u)) (task_repo_create e 0 u c d)"
      using fresh Task_create by (intro task_repo_create_view) auto
    with Some show ?thesis
      unfolding Task_create exec_task.simps create_task_def
      by (simp, intro transaction_commute) (auto simp: bind_result_def map_sum_def split: sum.splits)
  qed (simp add: Task_create create_task_def)
  then show ?thesis by (simp add: Task_create)
next
  case (Task_batch e u cs)
  have "create_all e 0 u cs (task_view u d) =
      map_sum id (map_prod id (task_view u)) (create_all e 0 u cs d)"
    using fresh Task_batch by (intro create_all_view) auto
  then show ?thesis
    by (auto simp: Task_batch create_task_batch_def Let_def intro!: transaction_commute split: option.splits)
next
  case (Task_update e u i c)
  then show ?thesis
    using wf
    by (cases "get_owned_by_id i u d")
       (auto simp: update_owned_task_def require_owned_task_def Let_def
          dest!: get_owned_SomeD intro!: task_write_view split: sum.splits)
next
  case (Task_complete e u i)
  then show ?thesis
    using wf
    by (cases "get_owned_by_id i u d")
       (auto simp: complete_owned_task_def require_owned_task_def
          dest!: get_owned_SomeD intro!: task_write_view split: sum.splits)
next
  case (Task_delete e u i)
  then show ?thesis
    by (cases "get_owned_by_id i u d")
       (auto simp: delete_owned_task_def task_repo_delete_owned_def delete_view transaction_def
          session_commit_def split: commit_outcome.splits)
next
  case (Task_list tr clock u q)
  then show ?thesis
    by (simp add: list_owned_tasks_def list_owned_def count_owned_def criteria_of_def Let_def)
qed (simp add: get_owned_task_def)

interpretation task_service: owner_restricted exec_task task_actor task_view task_fresh wf_core
proof unfold_locales
  fix d a u
  assume wf: "wf_core d"
  note ids = wf_core_distinct_tasks [OF wf]
  from wf show "wf_core (snd (exec_task a d))"
    by (rule task_effect_wf_core [OF exec_task_effect [OF ids]])
  show "task_view u (snd (exec_task a d)) = task_view u d" if "u \<noteq> task_actor a"
    by (rule task_effect_others [OF exec_task_effect [OF ids] ids that])
  show "exec_task a (task_view (task_actor a) d) =
      map_prod id (task_view (task_actor a)) (exec_task a d)" if "task_fresh a d"
    by (rule exec_task_view [OF ids that])
qed

section \<open>Properties\<close>

definition demo_task :: task where
  "demo_task = \<lparr>t_id = 20, t_user_id = 1, t_project_id = 10, t_title = ''Read 100%'', t_description = None,
     t_status = TODO, t_priority = MEDIUM, t_planned_date = Some 3, t_due_at = None,
     t_estimated_minutes = Some 30, t_completed_at = None, t_created_at = 1, t_updated_at = 1\<rparr>"

definition demo_task2 :: task where
  "demo_task2 = demo_task\<lparr>t_id := 21, t_title := ''Practice'', t_created_at := 2\<rparr>"

definition demo_tasks_db :: db where
  "demo_tasks_db = demo_projects_db\<lparr>tasks := [demo_task, demo_task2]\<rparr>"

definition demo_task_create :: task_create where
  "demo_task_create = \<lparr>tc_project_id = 10, tc_title = ''Quiz'', tc_description = None, tc_planned_date = None,
     tc_due_at = None, tc_estimated_minutes = Some 15, tc_priority = HIGH\<rparr>"

lemma demo_tasks_db_wf: "wf_core demo_tasks_db"
  by code_simp


definition demo_completed_task :: task where
  "demo_completed_task = demo_task\<lparr>t_status := COMPLETED, t_completed_at := Some 7, t_updated_at := 7\<rparr>"

lemma demo_task_in: "demo_task \<in> set (tasks demo_tasks_db)"
  by code_simp

lemma demo_completed_in:
  "demo_completed_task \<in> set (tasks (snd (exec_task (Task_complete demo_env 1 20) demo_tasks_db)))"
  "t_id demo_completed_task = t_id demo_task"
  by code_simp+


lemma task_effect_completed:
  assumes "task_effect False u d d'" "t' \<in> set (tasks d')" "t_status t' = COMPLETED"
  shows "\<exists>t \<in> set (tasks d). t_id t = t_id t' \<and> t_status t = COMPLETED"
  using assms unfolding task_effect_def
proof (elim disjE)
  assume "replaced_task False u d d'"
  then show ?thesis
    using assms(2,3)
    by (auto simp: replaced_task_def status_edge_def allowed_non_completed_transitions_def dest!: set_replace_row)
      blast+
qed (auto simp: added_tasks_def removed_task_def set_delete_row)

text \<open>Only the completion action completes. After any sequence of Task requests of any users
  without a completion, every COMPLETED Task was COMPLETED, under the same identifier, at the
  start.\<close>

theorem completed_only_by_completion:
  assumes "wf_core d" "list_all (\<lambda>r. \<not> is_completion r) rs"
    and "t' \<in> set (tasks (snd (run_ops exec_task rs d)))" "t_status t' = COMPLETED"
  shows "\<exists>t \<in> set (tasks d). t_id t = t_id t' \<and> t_status t = COMPLETED"
  using assms
proof (induction rs arbitrary: d)
  case (Cons r rs)
  let ?d = "snd (exec_task r d)"
  have "wf_core ?d" by (rule task_service.keeps_inv [OF Cons.prems(1)])
  moreover from Cons.prems(3) have "t' \<in> set (tasks (snd (run_ops exec_task rs ?d)))"
    by (auto split: prod.splits)
  ultimately obtain t where t: "t \<in> set (tasks ?d)" "t_id t = t_id t'" "t_status t = COMPLETED"
    using Cons.IH [of ?d] Cons.prems(2,4) by auto
  have "task_effect False (task_actor r) d ?d"
    using exec_task_effect [OF wf_core_distinct_tasks [OF Cons.prems(1)], of r] Cons.prems(2) by simp
  from task_effect_completed [OF this t(1,3)] t(2) show ?case by simp
qed auto

definition demo_done_db :: db where
  "demo_done_db = demo_projects_db\<lparr>tasks := [demo_completed_task, demo_task2]\<rparr>"

definition demo_edit_requests :: "task_request list" where
  "demo_edit_requests = [Task_create demo_env 1 demo_task_create, Task_delete demo_env 1 21]"

lemma demo_done_facts:
  "wf_core demo_done_db" "list_all (\<lambda>r. \<not> is_completion r) demo_edit_requests"
  "demo_completed_task \<in> set (tasks (snd (run_ops exec_task demo_edit_requests demo_done_db)))"
  "t_status demo_completed_task = COMPLETED"
  by code_simp+

theorem completed_only_by_completion_witness:
  "\<exists>t \<in> set (tasks demo_done_db). t_id t = t_id demo_completed_task \<and> t_status t = COMPLETED"
  by (rule completed_only_by_completion [OF demo_done_facts])

text \<open>A validated Task update on a well-formed database fails only with a documented domain
  error, the clock check or a database outage, never with a violated CHECK or foreign-key
  constraint and never while its response is built.\<close>

theorem task_update_respects_constraints:
  assumes "wf_core d" "validate_task_update raw = Inr c"
    and "fst (exec_task (Task_update e u i c) d) = Task_one (Inl x)"
  shows "x \<in> {TaskNotFoundError, TaskDateOrderError, TaskTransitionError, ValueError, DatabaseError}"
  using update_owned_task_no_constraint_error [of d c e i u x] validate_task_update_ok [OF assms(2)] assms(1,3)
  by (simp add: wf_core_def)

definition demo_raw_task_update :: raw_task_update where
  "demo_raw_task_update = \<lparr>ru_title = None, ru_description = None, ru_planned_date = None,
     ru_due_at = Some (Some (Aware 5 2)), ru_estimated_minutes = None, ru_priority = None, ru_status = None\<rparr>"

definition demo_task_update :: task_update where
  "demo_task_update = \<lparr>tu_title = None, tu_description = None, tu_planned_date = None,
     tu_due_at = Some (Some 3), tu_estimated_minutes = None, tu_priority = None, tu_status = None\<rparr>"

lemma demo_task_update_facts:
  "validate_task_update demo_raw_task_update = Inr demo_task_update"
  "fst (exec_task (Task_update demo_env 1 20 demo_task_update) demo_tasks_db) = Task_one (Inl TaskDateOrderError)"
  by code_simp+

theorem task_update_respects_constraints_witness:
  "TaskDateOrderError \<in> {TaskNotFoundError, TaskDateOrderError, TaskTransitionError, ValueError, DatabaseError} \<and>
   fst (exec_task (Task_update demo_env 1 20 demo_task_update) demo_tasks_db) = Task_one (Inl TaskDateOrderError)"
  using task_update_respects_constraints [OF demo_tasks_db_wf demo_task_update_facts] demo_task_update_facts(2)
  by blast

definition batch_rows :: "env \<Rightarrow> uuid \<Rightarrow> task_create list \<Rightarrow> task list" where
  "batch_rows e u cs = map (\<lambda>(k, c). new_task e k u c) (zip [0..<length cs] cs)"

lemma create_all_batch_rows:
  "create_all e 0 u cs d = Inr (rs, d') \<Longrightarrow>
     d' = d\<lparr>tasks := tasks d @ batch_rows e u cs\<rparr> \<and> rs = map public_task (batch_rows e u cs)"
  using create_all_Inr [of e 0 u cs d rs d'] by (simp add: batch_rows_def)

text \<open>C15: a batch is all or nothing. Whatever fails (a later row, a flush, the commit, or the
  acknowledgement of a commit that did happen), the Task table afterwards is the one before or the
  one before followed by all the requested Tasks in order; an answer lists exactly those rows, and
  every error other than a lost acknowledgement leaves the table unchanged.\<close>

theorem task_batch_atomic:
  assumes "create_task_batch e cs u (open_session d) = (res, s)"
  shows "(committed s = d \<and> isl res) \<or>
         (committed s = d\<lparr>tasks := tasks d @ batch_rows e u cs\<rparr> \<and>
          (res = Inr (map public_task (batch_rows e u cs)) \<or>
           (res = Inl DatabaseError \<and> env_commit e = Commit_lost)))"
proof -
  have ?thesis if "transaction (env_commit e) (create_all e 0 u cs) (open_session d) = (res, s)"
    using that
    by (cases rule: transaction_cases) (auto dest: create_all_batch_rows)
  then show ?thesis
    using assms
    by (auto simp: create_task_batch_def Let_def split: if_splits option.splits)
qed

definition demo_lost_env :: env where
  "demo_lost_env = demo_env\<lparr>env_commit := Commit_lost\<rparr>"

lemma demo_batch_lost:
  "fst (create_task_batch demo_lost_env [demo_task_create, demo_task_create] 1 (open_session demo_tasks_db)) =
     Inl DatabaseError"
  "length (tasks (committed (snd (create_task_batch demo_lost_env [demo_task_create, demo_task_create] 1
     (open_session demo_tasks_db))))) = 4"
  by code_simp+

theorem task_batch_atomic_witness:
  "committed (snd (create_task_batch demo_lost_env [demo_task_create, demo_task_create] 1
       (open_session demo_tasks_db))) =
   demo_tasks_db\<lparr>tasks := tasks demo_tasks_db @ batch_rows demo_lost_env 1 [demo_task_create, demo_task_create]\<rparr>"
proof -
  let ?b = "create_task_batch demo_lost_env [demo_task_create, demo_task_create] 1 (open_session demo_tasks_db)"
  have "committed (snd ?b) \<noteq> demo_tasks_db"
  proof
    assume "committed (snd ?b) = demo_tasks_db"
    with demo_batch_lost(2) have "length (tasks demo_tasks_db) = 4" by simp
    then show False by (simp add: demo_tasks_db_def)
  qed
  then show ?thesis
    using task_batch_atomic [OF prod.collapse [symmetric], of demo_lost_env
      "[demo_task_create, demo_task_create]" 1 demo_tasks_db] by blast
qed

text \<open>Completing a Task succeeds with a COMPLETED Task, and completing it again, in any later
  environment, answers the same public Task (in particular the original completion time) without
  writing.\<close>

theorem complete_owned_task_idempotent:
  assumes "wf_tasks d" "complete_owned_task e i u (open_session d) = (Inr r, s')"
  shows "pt_status r = COMPLETED \<and>
         complete_owned_task e' i u (open_session (committed s')) = (Inr r, open_session (committed s'))"
proof -
  obtain t where t: "get_owned_by_id i u d = Some t"
    using assms(2)
    by (cases "get_owned_by_id i u d") (auto simp: complete_owned_task_def require_owned_task_def)
  note own = get_owned_SomeD [OF t]
  show ?thesis
  proof (cases "t_status t = COMPLETED")
    case True
    with assms(2) t have s': "s' = open_session d" and r: "validate_public_task t = Inr r"
      by (simp_all add: complete_owned_task_def require_owned_task_def)
    from r have "r = public_task t"
      by (auto simp: validate_public_task_def validate_completion_def split: if_splits)
    with True t s' r show ?thesis
      by (simp add: complete_owned_task_def require_owned_task_def public_task_def)
  next
    case False
    let ?q = "\<lambda>now. t\<lparr>t_status := COMPLETED, t_completed_at := Some now, t_updated_at := now\<rparr>"
    from False assms(2) t obtain now where
      r: "validate_public_task (?q now) = Inr r" and
      s': "committed s' = d\<lparr>tasks := replace_row t_id (?q now) (tasks d)\<rparr>"
      by (auto simp: complete_owned_task_def require_owned_task_def task_repo_update_Inr
            bind_result_eq_Inr dest!: transaction_success split: sum.splits)
    have mem: "?q now \<in> set (replace_row t_id (?q now) (tasks d))"
      using own by (intro replace_row_mem [of t]) auto
    have "get_owned_by_id i u (committed s') = Some (?q now)"
      unfolding get_owned_by_id_def s'
      using own assms(1) mem
      by (intro find_distinct_key [where key = t_id]) (auto simp: wf_tasks_def keys_replace_row)
    with r show ?thesis
      by (auto simp: complete_owned_task_def require_owned_task_def validate_public_task_def
            validate_completion_def public_task_def split: if_splits)
  qed
qed

lemma demo_tasks_wf: "wf_tasks demo_tasks_db"
  by code_simp

lemma demo_complete:
  "fst (complete_owned_task demo_env 20 1 (open_session demo_tasks_db)) = Inr (public_task demo_completed_task)"
  by code_simp

theorem complete_owned_task_idempotent_witness:
  "fst (complete_owned_task (demo_env\<lparr>env_clock := Naive 0\<rparr>) 20 1
     (open_session (committed (snd (complete_owned_task demo_env 20 1 (open_session demo_tasks_db)))))) =
   Inr (public_task demo_completed_task)"
proof -
  let ?a = "complete_owned_task demo_env 20 1 (open_session demo_tasks_db)"
  have "?a = (Inr (public_task demo_completed_task), snd ?a)"
    by (simp only: prod_eq_iff demo_complete fst_conv snd_conv)
  from complete_owned_task_idempotent [OF demo_tasks_wf this, of "demo_env\<lparr>env_clock := Naive 0\<rparr>"]
  show ?thesis by simp
qed

definition listed_page ::
  "text_rules \<Rightarrow> datetime \<Rightarrow> task_list_query \<Rightarrow> uuid \<Rightarrow> db \<Rightarrow> nat \<Rightarrow> public_task list" where
  "listed_page tr clock q u d p =
     (case list_owned_tasks tr clock (q\<lparr>q_page := p\<rparr>) u d of Inl _ \<Rightarrow> [] | Inr r \<Rightarrow> tl_items r)"

lemma listed_page_eq:
  assumes "wf_core d" "utc_instant clock = Some now" "task_list_query_ok q" "1 \<le> p"
  shows "list_owned_tasks tr clock (q\<lparr>q_page := p\<rparr>) u d =
    (let ts = select_owned tr (criteria_of q u now) d in
     Inr \<lparr>tl_items = map public_task (page_slice p (q_page_size q)
              (order_tasks (sort_column tr (q_sort_by q)) (q_sort_direction q) ts)),
          tl_page = p, tl_page_size = q_page_size q, tl_total = length ts,
          tl_pages = page_count (length ts) (q_page_size q)\<rparr>)"
proof -
  have "task_list_query_ok (q\<lparr>q_page := p\<rparr>)"
    using assms(3,4) by (simp add: task_list_query_ok_def)
  from list_owned_tasks_eq [OF assms(2) this wf_core_completion [OF assms(1)]] show ?thesis
    by (simp add: criteria_of_def Let_def)
qed

text \<open>C17: paging is exact. For a validated query, the pages \<open>1 .. pages\<close> of the listing, put
  one after the other, are the public projections of the owner's matching Tasks, each exactly
  once, in the strict order that the query asks for (nulls last, ties broken by identifier);
  every page is served, is non-empty up to \<open>pages\<close>, and reports the same total and page count.\<close>

theorem task_listing_exact:
  assumes "wf_core d" "utc_instant clock = Some now" "task_list_query_ok q"
  shows "\<exists>rows. mset rows = mset (select_owned tr (criteria_of q u now) d) \<and>
           sorted_wrt (task_before (sort_column tr (q_sort_by q)) (q_sort_direction q)) rows \<and>
           concat (map (listed_page tr clock q u d) [1..<Suc (page_count (length rows) (q_page_size q))]) =
             map public_task rows \<and>
           (\<forall>p \<ge> 1. \<exists>r. list_owned_tasks tr clock (q\<lparr>q_page := p\<rparr>) u d = Inr r \<and>
              tl_total r = length rows \<and> tl_pages r = page_count (length rows) (q_page_size q) \<and>
              (p \<le> tl_pages r \<longrightarrow> tl_items r \<noteq> []))"
proof -
  let ?ts = "select_owned tr (criteria_of q u now) d"
  let ?rows = "order_tasks (sort_column tr (q_sort_by q)) (q_sort_direction q) ?ts"
  let ?n = "q_page_size q"
  have n: "0 < ?n" using assms(3) by (simp add: task_list_query_ok_def)
  have items: "listed_page tr clock q u d p = map public_task (page_slice p ?n ?rows)" if "1 \<le> p" for p
    using listed_page_eq [OF assms that] by (simp add: listed_page_def Let_def)
  have "concat (map (listed_page tr clock q u d) ps) =
      map public_task (concat (map (\<lambda>p. page_slice p ?n ?rows) ps))"
    if "\<forall>p \<in> set ps. 1 \<le> p" for ps
    using that by (induction ps) (auto simp: items)
  from this [of "[1..<Suc (page_count (length ?rows) ?n)]"]
  have "concat (map (listed_page tr clock q u d) [1..<Suc (page_count (length ?rows) ?n)]) =
      map public_task ?rows"
    using concat_all_pages [OF n, of ?rows] by (simp del: upt_Suc)
  moreover have "sorted_wrt (task_before (sort_column tr (q_sort_by q)) (q_sort_direction q)) ?rows"
    by (intro order_tasks_sorted distinct_select_owned wf_core_distinct_tasks assms(1))
  ultimately show ?thesis
    using listed_page_eq [OF assms] page_slice_nonempty [OF n, of _ ?rows]
    by (intro exI [of _ ?rows]) (auto simp: mset_order_tasks length_order_tasks Let_def)
qed

definition demo_rules :: text_rules where
  "demo_rules = \<lparr>collation_key = map of_char, case_fold = id\<rparr>"

definition demo_query :: task_list_query where
  "demo_query = \<lparr>q_page = 1, q_page_size = 1, q_project_id = None, q_status = None, q_priority = None,
     q_planned_from = None, q_planned_to = None, q_due_from = None, q_due_to = None, q_overdue = None,
     q_title = None, q_sort_by = SORT_TITLE, q_sort_direction = ASC\<rparr>"

lemma demo_query_ok: "utc_instant (Aware 9 2) = Some 7" "task_list_query_ok demo_query"
  by code_simp+

lemma demo_query_pages:
  "length (select_owned demo_rules (criteria_of demo_query 1 7) demo_tasks_db) = 2"
  "map (listed_page demo_rules (Aware 9 2) demo_query 1 demo_tasks_db) [1..<3] =
     [[public_task demo_task2], [public_task demo_task]]"
  by code_simp+

theorem task_listing_exact_witness:
  "\<exists>rows. length rows = 2 \<and>
     sorted_wrt (task_before (sort_column demo_rules SORT_TITLE) ASC) rows \<and>
     map public_task rows = [public_task demo_task2, public_task demo_task]"
proof -
  obtain rows where rows: "mset rows = mset (select_owned demo_rules (criteria_of demo_query 1 7) demo_tasks_db)"
    "sorted_wrt (task_before (sort_column demo_rules (q_sort_by demo_query)) (q_sort_direction demo_query)) rows"
    "concat (map (listed_page demo_rules (Aware 9 2) demo_query 1 demo_tasks_db)
       [1..<Suc (page_count (length rows) (q_page_size demo_query))]) = map public_task rows"
    using task_listing_exact [OF demo_tasks_db_wf demo_query_ok, of demo_rules 1] by blast
  have "length rows = 2"
    using rows(1) demo_query_pages(1) by (metis size_mset)
  moreover from this have "[1..<Suc (page_count (length rows) (q_page_size demo_query))] = [1..<3]"
    by (simp add: demo_query_def page_count_def numeral_eq_Suc)
  ultimately show ?thesis
    using rows(2,3) demo_query_pages(2) by (intro exI [of _ rows]) (simp add: demo_query_def)
qed

text \<open>Title search is literal. Whatever characters the search text contains, wildcards and
  backslashes included, a Task matches exactly when the case-folded search text occurs in the
  case-folded title; the database's case folding is only assumed to leave the three pattern
  characters alone.\<close>

theorem title_search_literal:
  assumes "fold_keeps_specials (case_fold tr)"
  shows "select_owned tr (c\<lparr>c_title := Some v\<rparr>) d =
         filter (\<lambda>t. sublist (map (case_fold tr) v) (map (case_fold tr) (t_title t)))
           (select_owned tr (c\<lparr>c_title := None\<rparr>) d)"
proof -
  have "owned_filters tr (c\<lparr>c_title := Some v\<rparr>) =
      owned_filters tr (c\<lparr>c_title := None\<rparr>) @ [\<lambda>t. ilike tr (t_title t) (title_pattern v)]"
    by (cases "c_overdue c") (simp_all add: owned_filters_def when_some_def)
  then show ?thesis
    by (simp add: select_owned_def ilike_title_pattern_sublist [OF assms] conj_commute)
qed

lemma demo_rules_fold: "fold_keeps_specials (case_fold demo_rules)"
  by (simp add: fold_keeps_specials_def demo_rules_def)

theorem title_search_literal_witness:
  "select_owned demo_rules ((criteria_of demo_query 1 7)\<lparr>c_title := Some ''%''\<rparr>) demo_tasks_db =
     filter (\<lambda>t. sublist ''%'' (t_title t)) (select_owned demo_rules ((criteria_of demo_query 1 7)\<lparr>c_title := None\<rparr>) demo_tasks_db)"
  using title_search_literal [OF demo_rules_fold, where v = "''%''" and c = "criteria_of demo_query 1 7" and d = demo_tasks_db]
  by (simp add: demo_rules_def)

text \<open>The overdue filter partitions. With every other criterion fixed, the Tasks listed with
  \<open>overdue=true\<close> and with \<open>overdue=false\<close> are, row by row, the Tasks listed without the filter, and
  no Task is in both; in particular Tasks without a due time and finished Tasks are not lost.\<close>

theorem overdue_partition:
  "mset (select_owned tr (c\<lparr>c_overdue := None\<rparr>) d) =
     mset (select_owned tr (c\<lparr>c_overdue := Some True\<rparr>) d) +
     mset (select_owned tr (c\<lparr>c_overdue := Some False\<rparr>) d) \<and>
   set (select_owned tr (c\<lparr>c_overdue := Some True\<rparr>) d) \<inter>
     set (select_owned tr (c\<lparr>c_overdue := Some False\<rparr>) d) = {}"
proof -
  have "mset (filter (\<lambda>t. P t \<or> Q t) ts) = mset (filter P ts) + mset (filter Q ts)"
    if "\<And>t. \<not> (P t \<and> Q t)" for P Q :: "task \<Rightarrow> bool" and ts
    using that by (induction ts) auto
  then show ?thesis
    using overdue_split(2) by (auto simp: select_owned_def overdue_split(1))
qed

text \<open>C6: Task ownership isolates users. In any interleaving of Task requests of many users, the
  answers one user gets, and the Tasks that user ends up with, are those of running the user's own
  requests alone from any well-formed database that agrees on the user's account, Projects and
  Tasks; generated identifiers are assumed to be unused.\<close>

theorem task_requests_noninterference:
  assumes "wf_core d" "wf_core d'" "task_view u d = task_view u d'"
    and "along task_fresh exec_task rs d"
    and "along task_fresh exec_task (filter (\<lambda>r. task_actor r = u) rs) d'"
  shows "map snd (filter (\<lambda>x. task_actor (fst x) = u) (zip rs (fst (run_ops exec_task rs d)))) =
           fst (run_ops exec_task (filter (\<lambda>r. task_actor r = u) rs) d') \<and>
         task_view u (snd (run_ops exec_task rs d)) =
           task_view u (snd (run_ops exec_task (filter (\<lambda>r. task_actor r = u) rs) d'))"
  by (rule task_service.noninterference [OF assms])

definition demo_task_requests :: "task_request list" where
  "demo_task_requests = [Task_delete demo_env 2 20, Task_complete demo_env 1 20,
     Task_create demo_env 2 demo_task_create, Task_get 1 20]"

lemma demo_task_view_facts:
  "wf_core (task_view 1 demo_tasks_db)"
  "task_view 1 demo_tasks_db = task_view 1 (task_view 1 demo_tasks_db)"
  "along task_fresh exec_task demo_task_requests demo_tasks_db"
  "along task_fresh exec_task (filter (\<lambda>r. task_actor r = 1) demo_task_requests) (task_view 1 demo_tasks_db)"
  by code_simp+

theorem task_requests_noninterference_witness:
  "task_view 1 (snd (run_ops exec_task demo_task_requests demo_tasks_db)) =
     task_view 1 (snd (run_ops exec_task (filter (\<lambda>r. task_actor r = 1) demo_task_requests)
       (task_view 1 demo_tasks_db)))"
  using task_requests_noninterference [OF demo_tasks_db_wf demo_task_view_facts] by blast

end
