(* ===== verification/Accounts.thy ===== *)
theory Accounts
  imports Transactions
begin

text \<open>
  Accounts: the credential primitives of \<open>app/core\<close> (\<open>security.py\<close>, \<open>email_normalization.py\<close>,
  \<open>refresh_tokens.py\<close>), the contracts of \<open>app/schemas/user.py\<close>, \<open>UserRepository\<close> of
  \<open>app/repositories/users.py\<close> and the use cases of \<open>app/services/registration.py\<close> and
  \<open>app/services/current_user.py\<close>. What third-party packages compute is a parameter,
  \<open>account_libs\<close>: \<open>email_validator\<close>, the Argon2 hasher and verifier of \<open>pwdlib\<close>, and the
  SHA-256 digest, which Python takes from OpenSSL.
\<close>

record account_libs =
  lib_validate_email :: "string \<Rightarrow> string option"
  lib_argon_hash :: "nat \<Rightarrow> string \<Rightarrow> string"
  lib_argon_verify :: "string \<Rightarrow> string \<Rightarrow> bool result"
  lib_sha256 :: "string \<Rightarrow> string"

section \<open>Passwords\<close>

definition min_password_length :: nat where "min_password_length = 12"
definition max_password_length :: nat where "max_password_length = 128"

definition validate_password :: "string \<Rightarrow> string result" where
  "validate_password password =
     (if \<not> (min_password_length \<le> length password \<and> length password \<le> max_password_length)
      then Inl PasswordPolicyError
      else if isspace password then Inl PasswordPolicyError
      else Inr password)"

text \<open>The salt is the randomness that the hasher draws.\<close>

definition hash_password :: "account_libs \<Rightarrow> nat \<Rightarrow> string \<Rightarrow> string result" where
  "hash_password L salt password = bind_result (validate_password password) (\<lambda>p. Inr (lib_argon_hash L salt p))"

definition verify_password :: "account_libs \<Rightarrow> string \<Rightarrow> string \<Rightarrow> bool" where
  "verify_password L password password_hash =
     (case lib_argon_verify L password password_hash of Inl _ \<Rightarrow> False | Inr b \<Rightarrow> b)"

section \<open>Canonical email\<close>

text \<open>
  \<open>str.casefold()\<close> on the code points that \<open>char\<close> represents: upper-case Latin letters are
  lowered and the sharp s becomes two letters. (The micro sign folds to a Greek letter outside
  of this range and is left alone.)
\<close>

definition casefold_char :: "char \<Rightarrow> string" where
  "casefold_char c = (let n = (of_char c :: nat) in
     if (65 \<le> n \<and> n \<le> 90) \<or> (192 \<le> n \<and> n \<le> 222 \<and> n \<noteq> 215) then [char_of (n + 32)]
     else if n = 223 then ''ss'' else [c])"

definition casefold :: "string \<Rightarrow> string" where
  "casefold s = concat (map casefold_char s)"

definition max_email_length :: nat where "max_email_length = 254"

definition normalize_email :: "account_libs \<Rightarrow> string \<Rightarrow> string result" where
  "normalize_email L raw_email =
     (let stripped = strip raw_email in
      if stripped = [] then Inl EmailNormalizationError
      else case lib_validate_email L stripped of
             None \<Rightarrow> Inl EmailNormalizationError
           | Some validated \<Rightarrow>
               let normalized = casefold validated in
               if max_email_length < length normalized then Inl EmailNormalizationError
               else Inr normalized)"

section \<open>Opaque refresh tokens\<close>

definition token_alphabet :: string where
  "token_alphabet = ''ABCDEFGHIJKLMNOPQRSTUVWXYZabcdefghijklmnopqrstuvwxyz0123456789-_''"

definition token_char :: "char \<Rightarrow> bool" where
  "token_char c \<longleftrightarrow> char_between CHR ''A'' CHR ''Z'' c \<or> char_between CHR ''a'' CHR ''z'' c \<or>
     char_between CHR ''0'' CHR ''9'' c \<or> c = CHR ''_'' \<or> c = CHR ''-''"

text \<open>\<open>[A-Za-z0-9_-]{43}\<close>, matched against the whole text\<close>

definition refresh_token_pattern :: "string \<Rightarrow> bool" where
  "refresh_token_pattern s \<longleftrightarrow> length s = 43 \<and> list_all token_char s"

text \<open>
  \<open>base64.urlsafe_b64encode\<close> with the padding stripped, as \<open>secrets.token_urlsafe\<close> applies it
  to the random bytes.
\<close>

fun urlsafe_b64 :: "nat list \<Rightarrow> string" where
  "urlsafe_b64 [] = []"
| "urlsafe_b64 [a] = [token_alphabet ! (a div 4), token_alphabet ! (a mod 4 * 16)]"
| "urlsafe_b64 [a, b] =
     [token_alphabet ! (a div 4), token_alphabet ! (a mod 4 * 16 + b div 16), token_alphabet ! (b mod 16 * 4)]"
| "urlsafe_b64 (a # b # c # rest) =
     [token_alphabet ! (a div 4), token_alphabet ! (a mod 4 * 16 + b div 16),
      token_alphabet ! (b mod 16 * 4 + c div 64), token_alphabet ! (c mod 64)] @ urlsafe_b64 rest"

definition refresh_token_random_bytes :: nat where "refresh_token_random_bytes = 32"

definition generate_refresh_token :: "(nat \<Rightarrow> nat list) \<Rightarrow> string" where
  "generate_refresh_token token_bytes = urlsafe_b64 (token_bytes refresh_token_random_bytes)"

definition hash_refresh_token :: "account_libs \<Rightarrow> string \<Rightarrow> string result" where
  "hash_refresh_token L raw =
     (if refresh_token_pattern raw then Inr (lib_sha256 L raw) else Inl ValueError)"

section \<open>Contracts\<close>

record user_registration_request =
  reg_email :: string
  reg_password :: string

definition validate_registration ::
  "account_libs \<Rightarrow> user_registration_request \<Rightarrow> user_registration_request result" where
  "validate_registration L raw =
     (case (normalize_email L (reg_email raw), validate_password (reg_password raw)) of
        (Inr email, Inr _) \<Rightarrow> Inr (raw\<lparr>reg_email := email\<rparr>)
      | _ \<Rightarrow> Inl ValidationError)"

record password_change_request =
  pcr_current :: string
  pcr_new :: string

definition validate_password_change :: "password_change_request \<Rightarrow> password_change_request result" where
  "validate_password_change raw =
     (if 1 \<le> length (pcr_current raw) \<and> length (pcr_current raw) \<le> 128 \<and>
         12 \<le> length (pcr_new raw) \<and> length (pcr_new raw) \<le> 128 \<and>
         validate_password (pcr_new raw) = Inr (pcr_new raw) \<and> pcr_current raw \<noteq> pcr_new raw
      then Inr raw else Inl ValidationError)"

definition validate_email_update :: "account_libs \<Rightarrow> string \<Rightarrow> string result" where
  "validate_email_update L raw =
     (case normalize_email L raw of Inl _ \<Rightarrow> Inl ValidationError | Inr email \<Rightarrow> Inr email)"

record public_user =
  pub_id :: uuid
  pub_email :: string
  pub_created_at :: instant
  pub_updated_at :: instant

definition validate_public_user :: "account_libs \<Rightarrow> user \<Rightarrow> public_user result" where
  "validate_public_user L u =
     (case normalize_email L (u_email u) of
        Inl _ \<Rightarrow> Inl ValidationError
      | Inr email \<Rightarrow> Inr \<lparr>pub_id = u_id u, pub_email = email, pub_created_at = u_created_at u,
                          pub_updated_at = u_updated_at u\<rparr>)"

section \<open>Repository\<close>

definition get_by_email :: "string \<Rightarrow> db \<Rightarrow> user option" where
  "get_by_email email d = List.find (\<lambda>u. u_email u = email) (users d)"

definition get_by_id :: "uuid \<Rightarrow> db \<Rightarrow> user option" where
  "get_by_id i d = List.find (\<lambda>u. u_id u = i) (users d)"

text \<open>A statement that waits for a lock or times out is the \<open>n\<close>-th that may fail.\<close>

definition db_statement :: "env \<Rightarrow> nat \<Rightarrow> unit result" where
  "db_statement e n = guard (\<not> env_flush_fails e n) DatabaseError"

definition get_by_email_for_update :: "env \<Rightarrow> nat \<Rightarrow> string \<Rightarrow> db \<Rightarrow> user option result" where
  "get_by_email_for_update e n email d = bind_result (db_statement e n) (\<lambda>_. Inr (get_by_email email d))"

definition get_by_id_for_update :: "env \<Rightarrow> nat \<Rightarrow> uuid \<Rightarrow> db \<Rightarrow> user option result" where
  "get_by_id_for_update e n i d = bind_result (db_statement e n) (\<lambda>_. Inr (get_by_id i d))"

text \<open>\<open>uq_users_email\<close> and the lengths of the columns, checked when a row is flushed.\<close>

definition email_free :: "db \<Rightarrow> user \<Rightarrow> bool" where
  "email_free d u \<longleftrightarrow> list_all (\<lambda>x. u_id x = u_id u \<or> u_email x \<noteq> u_email u) (users d)"

definition user_repo_create :: "env \<Rightarrow> string \<Rightarrow> string \<Rightarrow> db \<Rightarrow> (user \<times> db) result" where
  "user_repo_create e email password_hash d =
     (let u = \<lparr>u_id = env_ids e 0, u_email = email, u_password_hash = password_hash,
               u_created_at = env_now e, u_updated_at = env_now e\<rparr>
      in bind_result (flush_row e 0 (user_checks u)
           [(''pk_users'', u_id u \<notin> u_id ` set (users d)), (''uq_users_email'', email_free d u)])
           (\<lambda>_. Inr (u, d\<lparr>users := users d @ [u]\<rparr>)))"

text \<open>Flushing a changed attribute updates that column of the stored row only.\<close>

definition update_email :: "env \<Rightarrow> user \<Rightarrow> string \<Rightarrow> db \<Rightarrow> (user \<times> db) result" where
  "update_email e u email d =
     (let u' = u\<lparr>u_email := email\<rparr>
      in bind_result (flush_row e 0 (user_checks u') [(''uq_users_email'', email_free d u')])
           (\<lambda>_. Inr (u', d\<lparr>users := map (\<lambda>x. if u_id x = u_id u then x\<lparr>u_email := email\<rparr> else x) (users d)\<rparr>)))"

definition update_password :: "env \<Rightarrow> nat \<Rightarrow> user \<Rightarrow> string \<Rightarrow> instant \<Rightarrow> db \<Rightarrow> (user \<times> db) result" where
  "update_password e n u password_hash updated_at d =
     (let u' = u\<lparr>u_password_hash := password_hash, u_updated_at := updated_at\<rparr>
      in bind_result (flush_row e n (user_checks u') [])
           (\<lambda>_. Inr (u', d\<lparr>users := map (\<lambda>x. if u_id x = u_id u
              then x\<lparr>u_password_hash := password_hash, u_updated_at := updated_at\<rparr> else x) (users d)\<rparr>)))"

section \<open>Use cases\<close>

text \<open>
  Registration and the email change read before they write, without a lock: other transactions
  may commit between the two statements. \<open>others\<close> is what they do to the durable database.
\<close>

definition is_user_email_unique_violation :: "exn \<Rightarrow> bool" where
  "is_user_email_unique_violation x \<longleftrightarrow> x = IntegrityError ''uq_users_email''"

definition report_duplicate :: "'a result \<Rightarrow> 'a result" where
  "report_duplicate r =
     (case r of Inl x \<Rightarrow> if is_user_email_unique_violation x then Inl DuplicateEmailError else Inl x
      | Inr v \<Rightarrow> Inr v)"

definition interleave :: "(db \<Rightarrow> db) \<Rightarrow> session \<Rightarrow> session" where
  "interleave others s = open_session (others (committed s))"

definition register_user ::
  "account_libs \<Rightarrow> env \<Rightarrow> nat \<Rightarrow> (db \<Rightarrow> db) \<Rightarrow> user_registration_request \<Rightarrow> session \<Rightarrow>
   public_user result \<times> session" where
  "register_user L e salt others registration s =
     (case bind_result (normalize_email L (reg_email registration)) (\<lambda>email.
             bind_result (guard (get_by_email email (working s) = None) DuplicateEmailError) (\<lambda>_.
               bind_result (validate_password (reg_password registration)) (\<lambda>accepted.
                 bind_result (hash_password L salt accepted) (\<lambda>hashed. Inr (email, hashed))))) of
        Inl x \<Rightarrow> (Inl x, session_rollback s)
      | Inr (email, hashed) \<Rightarrow>
          map_prod report_duplicate id
            (transaction (env_commit e) (\<lambda>d.
               bind_result (user_repo_create e email hashed d) (\<lambda>(u, d').
                 bind_result (validate_public_user L u) (\<lambda>r. Inr (r, d')))) (interleave others s)))"

definition update_current_user_email ::
  "account_libs \<Rightarrow> env \<Rightarrow> (db \<Rightarrow> db) \<Rightarrow> string \<Rightarrow> user \<Rightarrow> session \<Rightarrow> public_user result \<times> session" where
  "update_current_user_email L e others email current_user s =
     (if email = u_email current_user then (validate_public_user L current_user, s)
      else if (case get_by_email email (working s) of None \<Rightarrow> False | Some x \<Rightarrow> u_id x \<noteq> u_id current_user)
      then (Inl DuplicateEmailError, session_rollback s)
      else map_prod report_duplicate id
             (transaction (env_commit e) (\<lambda>d.
                bind_result (update_email e current_user email d) (\<lambda>(u, d').
                  bind_result (validate_public_user L u) (\<lambda>r. Inr (r, d')))) (interleave others s)))"

section \<open>Generated tokens\<close>

lemma token_alphabet_length: "length token_alphabet = 64"
  by (simp add: token_alphabet_def)

lemma token_alphabet_distinct: "distinct token_alphabet"
  by code_simp

lemma token_alphabet_chars: "list_all token_char token_alphabet"
  by code_simp

lemma token_alphabet_nth [simp]: "i < 64 \<Longrightarrow> token_char (token_alphabet ! i)"
  using token_alphabet_chars by (simp add: list_all_length token_alphabet_length)

lemma token_alphabet_inj [simp]:
  "i < 64 \<Longrightarrow> j < 64 \<Longrightarrow> token_alphabet ! i = token_alphabet ! j \<longleftrightarrow> i = j"
  by (simp add: nth_eq_iff_index_eq token_alphabet_distinct token_alphabet_length)

lemma sextets_bounds:
  fixes a :: nat
  shows "a < 256 \<Longrightarrow> a div 4 < 64" "a mod 4 * 16 < 64" "b < 256 \<Longrightarrow> a mod 4 * 16 + b div 16 < 64"
    "b mod 16 * 4 < 64" "c < 256 \<Longrightarrow> b mod 16 * 4 + c div 64 < 64" "c mod 64 < 64"
proof -
  note m = mod_less_divisor [of 4 a] mod_less_divisor [of 16 b] mod_less_divisor [of 64 c]
  show "a mod 4 * 16 < 64" "b mod 16 * 4 < 64" "c mod 64 < 64" using m by simp_all
  show "a div 4 < 64" if "a < 256" using that by (simp add: less_mult_imp_div_less)
  show "a mod 4 * 16 + b div 16 < 64" if "b < 256"
    using m(1) less_mult_imp_div_less [of b 16 16] that by simp
  show "b mod 16 * 4 + c div 64 < 64" if "c < 256"
    using m(2) less_mult_imp_div_less [of c 4 64] that by simp
qed

lemma digit_inj:
  fixes x :: nat
  assumes "y < m" "y' < m" "x * m + y = x' * m + y'"
  shows "x = x' \<and> y = y'"
proof -
  have "x = (x * m + y) div m" "x' = (x' * m + y') div m" using assms(1,2) by auto
  with assms(3) have "x = x'" by simp
  with assms(3) show ?thesis by simp
qed

lemma div_mod_inj: "(a::nat) div m = a' div m \<Longrightarrow> a mod m = a' mod m \<Longrightarrow> a = a'"
  by (metis div_mult_mod_eq)

lemma sextets_inj:
  fixes a :: nat
  assumes "b < 256" "b' < 256" "c < 256" "c' < 256"
  shows "a div 4 = a' div 4 \<Longrightarrow> a mod 4 * 16 + b div 16 = a' mod 4 * 16 + b' div 16 \<Longrightarrow> a = a'"
    "a mod 4 * 16 + b div 16 = a' mod 4 * 16 + b' div 16 \<Longrightarrow>
     b mod 16 * 4 + c div 64 = b' mod 16 * 4 + c' div 64 \<Longrightarrow> b = b'"
    "b mod 16 * 4 + c div 64 = b' mod 16 * 4 + c' div 64 \<Longrightarrow> c mod 64 = c' mod 64 \<Longrightarrow> c = c'"
proof -
  have q: "b div 16 < 16" "b' div 16 < 16" "c div 64 < 4" "c' div 64 < 4"
    using assms by (simp_all add: less_mult_imp_div_less)
  note d1 = digit_inj [OF q(1,2), of "a mod 4" "a' mod 4"]
  note d2 = digit_inj [OF q(3,4), of "b mod 16" "b' mod 16"]
  show "a div 4 = a' div 4 \<Longrightarrow> a mod 4 * 16 + b div 16 = a' mod 4 * 16 + b' div 16 \<Longrightarrow> a = a'"
    using d1 div_mod_inj [of a 4 a'] by simp
  show "a mod 4 * 16 + b div 16 = a' mod 4 * 16 + b' div 16 \<Longrightarrow>
      b mod 16 * 4 + c div 64 = b' mod 16 * 4 + c' div 64 \<Longrightarrow> b = b'"
    using d1 d2 div_mod_inj [of b 16 b'] by simp
  show "b mod 16 * 4 + c div 64 = b' mod 16 * 4 + c' div 64 \<Longrightarrow> c mod 64 = c' mod 64 \<Longrightarrow> c = c'"
    using d2 div_mod_inj [of c 64 c'] by simp
qed

lemma urlsafe_b64_chars: "list_all (\<lambda>b. b < 256) bs \<Longrightarrow> list_all token_char (urlsafe_b64 bs)"
  by (induction bs rule: urlsafe_b64.induct) (auto simp: sextets_bounds)

lemma urlsafe_b64_length: "length (urlsafe_b64 bs) = (4 * length bs + 2) div 3"
  by (induction bs rule: urlsafe_b64.induct) auto

lemma urlsafe_b64_inj:
  "list_all (\<lambda>b. b < 256) xs \<Longrightarrow> list_all (\<lambda>b. b < 256) ys \<Longrightarrow> length xs = length ys \<Longrightarrow>
   urlsafe_b64 xs = urlsafe_b64 ys \<Longrightarrow> xs = ys"
proof (induction xs arbitrary: ys rule: urlsafe_b64.induct)
  case (2 a)
  then obtain a' where "ys = [a']" by (cases ys) auto
  with 2 show ?case using sextets_inj(1) [of 0 0 0 0 a a'] by (auto simp: sextets_bounds)
next
  case (3 a b)
  then obtain a' b' where "ys = [a', b']" by (cases ys; cases "tl ys") auto
  with 3 show ?case
    using sextets_inj(1) [of b b' 0 0 a a'] sextets_inj(2) [of b b' 0 0 a a'] by (auto simp: sextets_bounds)
next
  case (4 a b c rest)
  then obtain a' b' c' rest' where ys: "ys = a' # b' # c' # rest'"
    by (cases ys; cases "tl ys"; cases "tl (tl ys)") auto
  with "4.prems" have bytes: "a < 256" "b < 256" "c < 256" "a' < 256" "b' < 256" "c' < 256"
    and rest: "list_all (\<lambda>b. b < 256) rest" "list_all (\<lambda>b. b < 256) rest'" "length rest = length rest'"
      "urlsafe_b64 rest = urlsafe_b64 rest'"
    and s: "token_alphabet ! (a div 4) = token_alphabet ! (a' div 4)"
      "token_alphabet ! (a mod 4 * 16 + b div 16) = token_alphabet ! (a' mod 4 * 16 + b' div 16)"
      "token_alphabet ! (b mod 16 * 4 + c div 64) = token_alphabet ! (b' mod 16 * 4 + c' div 64)"
      "token_alphabet ! (c mod 64) = token_alphabet ! (c' mod 64)"
    by simp_all
  note t = s [unfolded token_alphabet_inj [OF sextets_bounds(1) [OF bytes(1)] sextets_bounds(1) [OF bytes(4)]]
    token_alphabet_inj [OF sextets_bounds(3) [OF bytes(2)] sextets_bounds(3) [OF bytes(5)]]
    token_alphabet_inj [OF sextets_bounds(5) [OF bytes(3)] sextets_bounds(5) [OF bytes(6)]]
    token_alphabet_inj [OF sextets_bounds(6) sextets_bounds(6)]]
  have "a = a'" "b = b'" "c = c'"
    using sextets_inj [OF bytes(2,5,3,6)] t by blast+
  with "4.IH" [OF rest] ys show ?case by simp
qed simp

text \<open>Every credential that \<open>generate_refresh_token\<close> produces has the format that
  \<open>hash_refresh_token\<close> and the request schema demand, so hashing it never fails, and different
  random bytes give different credentials: encoding loses none of the 256 random bits.\<close>

theorem generated_token_accepted:
  assumes "length (token_bytes 32) = 32" "list_all (\<lambda>b. b < 256) (token_bytes 32)"
    and "length (token_bytes' 32) = 32" "list_all (\<lambda>b. b < 256) (token_bytes' 32)"
  shows "hash_refresh_token L (generate_refresh_token token_bytes) =
           Inr (lib_sha256 L (generate_refresh_token token_bytes)) \<and>
         (generate_refresh_token token_bytes = generate_refresh_token token_bytes' \<longleftrightarrow>
          token_bytes 32 = token_bytes' 32)"
  using assms urlsafe_b64_chars [OF assms(2)] urlsafe_b64_inj [OF assms(2,4)]
  by (auto simp: hash_refresh_token_def generate_refresh_token_def refresh_token_random_bytes_def
        refresh_token_pattern_def urlsafe_b64_length)

definition demo_libs :: account_libs where
  "demo_libs = \<lparr>lib_validate_email = (\<lambda>s. if CHR ''@'' \<in> set s then Some s else None),
     lib_argon_hash = (\<lambda>salt p. p), lib_argon_verify = (\<lambda>p h. Inr (p = h)),
     lib_sha256 = (\<lambda>s. take 64 (concat (map (\<lambda>c. replicate 2
        (''0123456789abcdef'' ! (of_char c mod 16))) (rev s)) @ replicate 64 CHR ''0''))\<rparr>"

lemma demo_bytes:
  "length (replicate 32 (7::nat)) = 32" "list_all (\<lambda>b. b < 256) (replicate 32 (7::nat))"
  "length ([0..<32]) = 32" "list_all (\<lambda>b. b < 256) [0..<32]"
  "replicate 32 7 \<noteq> [0..<32]"
  by code_simp+

theorem generated_token_accepted_witness:
  "hash_refresh_token demo_libs (generate_refresh_token (\<lambda>n. replicate n 7)) =
     Inr (lib_sha256 demo_libs (generate_refresh_token (\<lambda>n. replicate n 7))) \<and>
   generate_refresh_token (\<lambda>n. replicate n 7) \<noteq> generate_refresh_token (\<lambda>n. [0..<n])"
  using generated_token_accepted [of "\<lambda>n. replicate n 7" "\<lambda>n. [0..<n]", OF demo_bytes(1-4)] demo_bytes(5)
  by blast

section \<open>User rows\<close>

lemma get_by_email_SomeD: "get_by_email m d = Some u \<Longrightarrow> u \<in> set (users d) \<and> u_email u = m"
  by (auto simp: get_by_email_def dest: find_SomeD)

lemma get_by_id_SomeD: "get_by_id i d = Some u \<Longrightarrow> u \<in> set (users d) \<and> u_id u = i"
  by (auto simp: get_by_id_def dest: find_SomeD)

text \<open>The other tables refer to users by identifier only, so the table may grow.\<close>

lemma wf_core_users:
  assumes "wf_core d" "distinct (map u_id us)" "distinct (map u_email us)"
    and "u_id ` set (users d) \<subseteq> u_id ` set us"
  shows "wf_core (d\<lparr>users := us\<rparr>)"
proof -
  have "list_all snd (project_constraints (d\<lparr>users := us\<rparr>) p)" if "list_all snd (project_constraints d p)" for p
    using that assms(4) by (auto simp: project_constraints_def)
  moreover have "list_all snd (task_constraints (d\<lparr>users := us\<rparr>) t)" if "list_all snd (task_constraints d t)" for t
    using that assms(4) by (auto simp: task_constraints_def)
  moreover have "list_all snd (refresh_token_constraints (d\<lparr>users := us\<rparr>) r)"
    if "list_all snd (refresh_token_constraints d r)" for r
    using that assms(4) by (auto simp: refresh_token_constraints_def)
  ultimately show ?thesis
    using assms by (auto simp: wf_core_def wf_users_def wf_projects_def wf_tasks_def wf_tokens_def)
qed

lemma wf_core_user_columns:
  assumes "wf_core d" "\<And>x. u_id (f x) = u_id x" "distinct (map u_email (map f (users d)))"
  shows "wf_core (d\<lparr>users := map f (users d)\<rparr>)"
proof (rule wf_core_users [OF assms(1)])
  show "distinct (map u_id (map f (users d)))"
    using assms(1) by (simp add: comp_def assms(2) wf_core_def wf_users_def)
  show "u_id ` set (users d) \<subseteq> u_id ` set (map f (users d))"
    using assms(2) by (auto simp: image_image)
qed (rule assms(3))

definition new_user :: "env \<Rightarrow> string \<Rightarrow> string \<Rightarrow> user" where
  "new_user e email password_hash =
     \<lparr>u_id = env_ids e 0, u_email = email, u_password_hash = password_hash,
      u_created_at = env_now e, u_updated_at = env_now e\<rparr>"

lemma user_repo_create_Inr:
  "user_repo_create e m h d = Inr (u, d') \<longleftrightarrow>
     u = new_user e m h \<and> d' = d\<lparr>users := users d @ [u]\<rparr> \<and> \<not> env_flush_fails e 0 \<and> user_checks u \<and>
     u_id u \<notin> u_id ` set (users d) \<and> email_free d u"
  by (auto simp: user_repo_create_def new_user_def Let_def bind_result_eq_Inr flush_row_ok)

lemma user_repo_create_wf:
  assumes "user_repo_create e m h d = Inr (u, d')" "wf_core d"
  shows "wf_core d' \<and> m \<notin> u_email ` set (users d)"
proof -
  from assms(1) have d': "d' = d\<lparr>users := users d @ [u]\<rparr>" "u_id u \<notin> u_id ` set (users d)" "email_free d u"
    "u_email u = m"
    by (auto simp: user_repo_create_Inr new_user_def)
  have free: "m \<notin> u_email ` set (users d)"
  proof
    assume "m \<in> u_email ` set (users d)"
    then obtain x where x: "x \<in> set (users d)" "u_email x = m" by auto
    with d'(3,4) have "u_id x = u_id u" by (auto simp: email_free_def list_all_iff)
    with imageI [OF x(1), of u_id] d'(2) show False by simp
  qed
  have "distinct (map u_id (users d @ [u]))" "distinct (map u_email (users d @ [u]))"
    using assms(2) d' free by (auto simp: wf_core_def wf_users_def)
  from wf_core_users [OF assms(2) this] free show ?thesis by (auto simp: d'(1))
qed

lemma distinct_column_update:
  assumes "distinct (map key xs)" "distinct (map col xs)"
    and "\<forall>x \<in> set xs. key x \<noteq> k \<longrightarrow> col x \<noteq> v"
  shows "distinct (map (\<lambda>x. if key x = k then v else col x) xs)"
  using assms by (induction xs) (auto simp: image_iff)

lemma update_email_Inr:
  "update_email e u m d = Inr (u', d') \<longleftrightarrow>
     u' = u\<lparr>u_email := m\<rparr> \<and> \<not> env_flush_fails e 0 \<and> user_checks u' \<and> email_free d u' \<and>
     d' = d\<lparr>users := map (\<lambda>x. if u_id x = u_id u then x\<lparr>u_email := m\<rparr> else x) (users d)\<rparr>"
  by (auto simp: update_email_def Let_def bind_result_eq_Inr flush_row_ok)

lemma update_email_wf:
  assumes "update_email e u m d = Inr (u', d')" "wf_core d"
  shows "wf_core d'"
proof -
  let ?f = "\<lambda>x :: user. if u_id x = u_id u then x\<lparr>u_email := m\<rparr> else x"
  have "u_email \<circ> ?f = (\<lambda>x. if u_id x = u_id u then m else u_email x)" by auto
  moreover have "distinct (map (\<lambda>x. if u_id x = u_id u then m else u_email x) (users d))"
    using assms by (intro distinct_column_update)
      (auto simp: update_email_Inr email_free_def list_all_iff wf_core_def wf_users_def)
  ultimately have "distinct (map u_email (map ?f (users d)))" by (simp only: map_map)
  from wf_core_user_columns [OF assms(2) _ this] assms(1) show ?thesis
    by (simp add: update_email_Inr)
qed


definition demo_account_db :: db where
  "demo_account_db = empty_db\<lparr>users := [\<lparr>u_id = 1, u_email = ''a@b.c'', u_password_hash = ''secret secret'',
     u_created_at = 0, u_updated_at = 0\<rparr>]\<rparr>"

definition demo_register_env :: env where
  "demo_register_env = \<lparr>env_ids = (\<lambda>n. 50 + n), env_now = 7, env_clock = Aware 9 2,
     env_flush_fails = (\<lambda>_. False), env_commit = Commit_ok\<rparr>"

definition demo_rival :: "db \<Rightarrow> db" where
  "demo_rival d = d\<lparr>users := users d @ [new_user (demo_register_env\<lparr>env_ids := (\<lambda>n. 90)\<rparr>) ''new@b.c'' ''h'']\<rparr>"

definition demo_registration :: user_registration_request where
  "demo_registration = \<lparr>reg_email = ''  New@B.c'', reg_password = ''correct horse''\<rparr>"

lemma demo_account_facts:
  "wf_core (demo_rival demo_account_db)" "wf_core demo_account_db"
  "fst (register_user demo_libs demo_register_env 3 demo_rival demo_registration (open_session demo_account_db)) =
     Inl DuplicateEmailError"
  by code_simp+


end
