(* ===== verification/Authentication.thy ===== *)
theory Authentication
  imports Accounts
begin

text \<open>
  Sessions of a user: \<open>RefreshTokenRepository\<close> of \<open>app/repositories/refresh_tokens.py\<close> and the use
  cases of \<open>app/services/refresh_tokens.py\<close>, \<open>app/services/authentication.py\<close> and
  \<open>app/services/password_change.py\<close>. Every operation locks the owner's row first, so operations
  on one user's credentials are serialized and each acts on the durable database on its own. The
  new credential of an operation and the access-token issuer are arguments, as in the code. The
  lemmas show that a spent, revoked or logged-out credential stays unusable for ever, and that a
  password change ends all sessions of its user and of nobody else.
\<close>

section \<open>Repository\<close>

definition new_refresh_token :: "env \<Rightarrow> uuid \<Rightarrow> string \<Rightarrow> instant \<Rightarrow> instant \<Rightarrow> refresh_token" where
  "new_refresh_token e user_id token_hash created_at expires_at =
     \<lparr>rt_id = env_ids e 0, rt_user_id = user_id, rt_token_hash = token_hash,
      rt_created_at = created_at, rt_expires_at = expires_at, rt_revoked_at = None\<rparr>"

definition token_repo_create ::
  "env \<Rightarrow> nat \<Rightarrow> uuid \<Rightarrow> string \<Rightarrow> instant \<Rightarrow> instant \<Rightarrow> db \<Rightarrow> (refresh_token \<times> db) result" where
  "token_repo_create e n user_id token_hash created_at expires_at d =
     bind_result (get_by_id_for_update e n user_id d) (\<lambda>owner.
       bind_result (guard (owner \<noteq> None) ValueError) (\<lambda>_.
         let r = new_refresh_token e user_id token_hash created_at expires_at
         in bind_result (flush_row e (Suc n) (length token_hash \<le> 64)
              ((''pk_refresh_tokens'', rt_id r \<notin> rt_id ` set (refresh_tokens d)) #
               refresh_token_constraints d r))
              (\<lambda>_. Inr (r, d\<lparr>refresh_tokens := refresh_tokens d @ [r]\<rparr>))))"

definition get_by_hash_for_update :: "env \<Rightarrow> nat \<Rightarrow> string \<Rightarrow> db \<Rightarrow> refresh_token option result" where
  "get_by_hash_for_update e n token_hash d =
     bind_result (db_statement e n) (\<lambda>_.
       Inr (case List.find (\<lambda>r. rt_token_hash r = token_hash) (refresh_tokens d) of
              None \<Rightarrow> None
            | Some r0 \<Rightarrow>
                (case get_by_id (rt_user_id r0) d of
                   None \<Rightarrow> None
                 | Some owner \<Rightarrow>
                     List.find (\<lambda>r. rt_token_hash r = token_hash \<and> rt_user_id r = u_id owner)
                       (refresh_tokens d))))"

text \<open>\<open>UPDATE refresh_tokens SET revoked_at = v WHERE p RETURNING id\<close>\<close>

definition revoke_where ::
  "env \<Rightarrow> nat \<Rightarrow> (refresh_token \<Rightarrow> bool) \<Rightarrow> (refresh_token \<Rightarrow> instant) \<Rightarrow> db \<Rightarrow> (bool \<times> db) result" where
  "revoke_where e n p v d =
     bind_result (flush_row e n True
       [(''ck_refresh_tokens_revocation_not_before_creation'',
          list_all (\<lambda>r. p r \<longrightarrow> rt_created_at r \<le> v r) (refresh_tokens d))])
       (\<lambda>_. Inr (list_ex p (refresh_tokens d),
              d\<lparr>refresh_tokens := map (\<lambda>r. if p r then r\<lparr>rt_revoked_at := Some (v r)\<rparr> else r)
                                  (refresh_tokens d)\<rparr>))"

definition revoke_if_active :: "env \<Rightarrow> nat \<Rightarrow> uuid \<Rightarrow> uuid \<Rightarrow> instant \<Rightarrow> db \<Rightarrow> (bool \<times> db) result" where
  "revoke_if_active e n token_id user_id revoked_at =
     revoke_where e n (\<lambda>r. rt_id r = token_id \<and> rt_user_id r = user_id \<and> rt_revoked_at r = None \<and>
       revoked_at < rt_expires_at r \<and> rt_created_at r \<le> revoked_at) (\<lambda>_. revoked_at)"

definition revoke_all_for_owner :: "env \<Rightarrow> nat \<Rightarrow> uuid \<Rightarrow> instant \<Rightarrow> db \<Rightarrow> (bool \<times> db) result" where
  "revoke_all_for_owner e n user_id revoked_at =
     revoke_where e n (\<lambda>r. rt_user_id r = user_id \<and> rt_revoked_at r = None)
       (\<lambda>r. max revoked_at (rt_created_at r))"

definition revoke_if_unrevoked :: "env \<Rightarrow> nat \<Rightarrow> uuid \<Rightarrow> uuid \<Rightarrow> instant \<Rightarrow> db \<Rightarrow> (bool \<times> db) result" where
  "revoke_if_unrevoked e n token_id user_id revoked_at =
     revoke_where e n (\<lambda>r. rt_id r = token_id \<and> rt_user_id r = user_id \<and> rt_revoked_at r = None)
       (\<lambda>_. revoked_at)"

section \<open>Issuance and rotation\<close>

definition refresh_token_ttl :: int where "refresh_token_ttl = 604800000000"

record issued_refresh_token =
  issued_token :: string
  issued_expires_at :: instant

record rotated_refresh_token =
  rotated_user_id :: uuid
  rotated_token :: string
  rotated_expires_at :: instant

definition aware_time :: "datetime \<Rightarrow> instant result" where
  "aware_time clock = (case utc_instant clock of None \<Rightarrow> Inl ValueError | Some t \<Rightarrow> Inr t)"

definition prepare_issuance ::
  "account_libs \<Rightarrow> env \<Rightarrow> nat \<Rightarrow> string \<Rightarrow> uuid \<Rightarrow> db \<Rightarrow> (issued_refresh_token \<times> db) result" where
  "prepare_issuance L e n new_token trusted_user_id d =
     bind_result (aware_time (env_clock e)) (\<lambda>created_at.
       bind_result (hash_refresh_token L new_token) (\<lambda>token_hash.
         let expires_at = created_at + refresh_token_ttl
         in bind_result (token_repo_create e n trusted_user_id token_hash created_at expires_at d) (\<lambda>(_, d').
              Inr (\<lparr>issued_token = new_token, issued_expires_at = expires_at\<rparr>, d'))))"

definition prepare_rotation ::
  "account_libs \<Rightarrow> env \<Rightarrow> string \<Rightarrow> string \<Rightarrow> db \<Rightarrow> (rotated_refresh_token \<times> db) result" where
  "prepare_rotation L e new_token token d =
     (case hash_refresh_token L token of
        Inl _ \<Rightarrow> Inl InvalidRefreshTokenError
      | Inr old_hash \<Rightarrow>
          bind_result (get_by_hash_for_update e 0 old_hash d) (\<lambda>found.
            case found of
              None \<Rightarrow> Inl InvalidRefreshTokenError
            | Some record \<Rightarrow>
                bind_result (aware_time (env_clock e)) (\<lambda>now.
                  if rt_revoked_at record \<noteq> None \<or> \<not> (rt_created_at record \<le> now \<and> now < rt_expires_at record)
                  then Inl InvalidRefreshTokenError
                  else
                    bind_result (revoke_if_active e 1 (rt_id record) (rt_user_id record) now d) (\<lambda>(hit, d1).
                      if \<not> hit then Inl InvalidRefreshTokenError
                      else
                        bind_result (hash_refresh_token L new_token) (\<lambda>replacement_hash.
                          let expires_at = now + refresh_token_ttl
                          in bind_result (token_repo_create e 2 (rt_user_id record) replacement_hash now
                                 expires_at d1) (\<lambda>(_, d2).
                               Inr (\<lparr>rotated_user_id = rt_user_id record, rotated_token = new_token,
                                     rotated_expires_at = expires_at\<rparr>, d2)))))))"

text \<open>Exceptions that leave a service, chosen by the handlers around the transaction.\<close>

definition reraise :: "exn set \<Rightarrow> exn \<Rightarrow> 'a result \<Rightarrow> 'a result" where
  "reraise kept replacement r =
     (case r of Inl x \<Rightarrow> Inl (if x \<in> kept then x else replacement) | Inr v \<Rightarrow> Inr v)"

definition issue_refresh_token ::
  "account_libs \<Rightarrow> env \<Rightarrow> string \<Rightarrow> uuid \<Rightarrow> session \<Rightarrow> issued_refresh_token result \<times> session" where
  "issue_refresh_token L e new_token trusted_user_id s =
     map_prod (reraise {} RefreshTokenIssuanceError) id
       (transaction (env_commit e) (prepare_issuance L e 0 new_token trusted_user_id) s)"

definition rotate_refresh_token ::
  "account_libs \<Rightarrow> env \<Rightarrow> string \<Rightarrow> string \<Rightarrow> session \<Rightarrow> rotated_refresh_token result \<times> session" where
  "rotate_refresh_token L e new_token token s =
     map_prod (reraise {InvalidRefreshTokenError} RefreshTokenRotationError) id
       (transaction (env_commit e) (prepare_rotation L e new_token token) s)"

definition logout_refresh_token :: "account_libs \<Rightarrow> env \<Rightarrow> string \<Rightarrow> session \<Rightarrow> unit result \<times> session" where
  "logout_refresh_token L e token s =
     map_prod (reraise {} AuthenticationUnavailableError) id
       (transaction (env_commit e) (\<lambda>d.
          bind_result (hash_refresh_token L token) (\<lambda>token_hash.
            bind_result (get_by_hash_for_update e 0 token_hash d) (\<lambda>found.
              case found of
                None \<Rightarrow> Inr ((), d)
              | Some record \<Rightarrow>
                  if rt_revoked_at record \<noteq> None then Inr ((), d)
                  else
                    bind_result (aware_time (env_clock e)) (\<lambda>now.
                      bind_result (revoke_if_unrevoked e 1 (rt_id record) (rt_user_id record)
                          (max now (rt_created_at record)) d) (\<lambda>(hit, d').
                        if \<not> hit then Inl RuntimeError else Inr ((), d')))))) s)"

section \<open>Authentication\<close>

record user_login_request =
  login_email :: string
  login_password :: string

definition validate_login :: "account_libs \<Rightarrow> user_login_request \<Rightarrow> user_login_request result" where
  "validate_login L raw =
     (case normalize_email L (login_email raw) of
        Inl _ \<Rightarrow> Inl ValidationError
      | Inr email \<Rightarrow>
          if length (login_password raw) < 1 \<or> 128 < length (login_password raw) then Inl ValidationError
          else Inr (raw\<lparr>login_email := email\<rparr>))"

definition validate_refresh_request :: "string \<Rightarrow> string result" where
  "validate_refresh_request raw = (if refresh_token_pattern raw then Inr raw else Inl ValidationError)"

record 'tok token_pair =
  access_token :: 'tok
  refresh_token_value :: string
  refresh_expires_at :: instant

definition token_pair_response :: "'tok \<Rightarrow> string \<Rightarrow> instant \<Rightarrow> 'tok token_pair result" where
  "token_pair_response access refresh expires =
     (if length refresh = 43
      then Inr \<lparr>access_token = access, refresh_token_value = refresh, refresh_expires_at = expires\<rparr>
      else Inl ValidationError)"

definition authenticate_user ::
  "account_libs \<Rightarrow> env \<Rightarrow> (uuid \<Rightarrow> 'tok result) \<Rightarrow> string \<Rightarrow> user_login_request \<Rightarrow> session \<Rightarrow>
   'tok token_pair result \<times> session" where
  "authenticate_user L e token_issuer new_token credentials s =
     map_prod (reraise {InvalidCredentialsError} AuthenticationUnavailableError) id
       (transaction (env_commit e) (\<lambda>d.
          bind_result (normalize_email L (login_email credentials)) (\<lambda>email.
            bind_result (get_by_email_for_update e 0 email d) (\<lambda>found.
              case found of
                None \<Rightarrow> Inl InvalidCredentialsError
              | Some user \<Rightarrow>
                  if \<not> verify_password L (login_password credentials) (u_password_hash user)
                  then Inl InvalidCredentialsError
                  else
                    bind_result (prepare_issuance L e 1 new_token (u_id user) d) (\<lambda>(refresh, d').
                      bind_result (token_issuer (u_id user)) (\<lambda>access.
                        bind_result (token_pair_response access (issued_token refresh)
                            (issued_expires_at refresh)) (\<lambda>pair. Inr (pair, d'))))))) s)"

definition refresh_authentication ::
  "account_libs \<Rightarrow> env \<Rightarrow> (uuid \<Rightarrow> 'tok result) \<Rightarrow> string \<Rightarrow> string \<Rightarrow> session \<Rightarrow>
   'tok token_pair result \<times> session" where
  "refresh_authentication L e token_issuer new_token token s =
     map_prod (reraise {InvalidRefreshTokenError} AuthenticationUnavailableError) id
       (transaction (env_commit e) (\<lambda>d.
          bind_result (prepare_rotation L e new_token token d) (\<lambda>(refresh, d').
            bind_result (token_issuer (rotated_user_id refresh)) (\<lambda>access.
              bind_result (token_pair_response access (rotated_token refresh)
                  (rotated_expires_at refresh)) (\<lambda>pair. Inr (pair, d'))))) s)"

definition change_password ::
  "account_libs \<Rightarrow> env \<Rightarrow> nat \<Rightarrow> password_change_request \<Rightarrow> uuid \<Rightarrow> session \<Rightarrow> unit result \<times> session" where
  "change_password L e salt credentials authenticated_user_id s =
     map_prod (reraise {InvalidCredentialsError} AuthenticationUnavailableError) id
       (transaction (env_commit e) (\<lambda>d.
          bind_result (get_by_id_for_update e 0 authenticated_user_id d) (\<lambda>found.
            case found of
              None \<Rightarrow> Inl InvalidCredentialsError
            | Some user \<Rightarrow>
                if \<not> verify_password L (pcr_current credentials) (u_password_hash user)
                then Inl InvalidCredentialsError
                else
                  bind_result (hash_password L salt (pcr_new credentials)) (\<lambda>replacement.
                    bind_result (aware_time (env_clock e)) (\<lambda>now.
                      bind_result (update_password e 1 user replacement now d) (\<lambda>(_, d1).
                        bind_result (revoke_all_for_owner e 2 (u_id user) now d1) (\<lambda>(_, d2).
                          Inr ((), d2))))))) s)"

section \<open>Requests\<close>

datatype auth_request =
    Auth_register env nat user_registration_request
  | Auth_email env user string
  | Auth_issue env string uuid
  | Auth_rotate env string string
  | Auth_login env string user_login_request
  | Auth_refresh env string string
  | Auth_logout env string
  | Auth_password env nat password_change_request uuid

datatype 'tok auth_response =
    Answer_user "public_user result"
  | Answer_issued "issued_refresh_token result"
  | Answer_rotated "rotated_refresh_token result"
  | Answer_pair "'tok token_pair result"
  | Answer_unit "unit result"

fun exec_auth ::
  "account_libs \<Rightarrow> (uuid \<Rightarrow> 'tok result) \<Rightarrow> auth_request \<Rightarrow> db \<Rightarrow> 'tok auth_response \<times> db" where
  "exec_auth L iss (Auth_register e salt r) d =
     map_prod Answer_user committed (register_user L e salt id r (open_session d))"
| "exec_auth L iss (Auth_email e u m) d =
     map_prod Answer_user committed (update_current_user_email L e id m u (open_session d))"
| "exec_auth L iss (Auth_issue e new u) d =
     map_prod Answer_issued committed (issue_refresh_token L e new u (open_session d))"
| "exec_auth L iss (Auth_rotate e new t) d =
     map_prod Answer_rotated committed (rotate_refresh_token L e new t (open_session d))"
| "exec_auth L iss (Auth_login e new c) d =
     map_prod Answer_pair committed (authenticate_user L e iss new c (open_session d))"
| "exec_auth L iss (Auth_refresh e new t) d =
     map_prod Answer_pair committed (refresh_authentication L e iss new t (open_session d))"
| "exec_auth L iss (Auth_logout e t) d =
     map_prod Answer_unit committed (logout_refresh_token L e t (open_session d))"
| "exec_auth L iss (Auth_password e salt c u) d =
     map_prod Answer_unit committed (change_password L e salt c u (open_session d))"

section \<open>The history of a credential\<close>

text \<open>
  Nothing ever removes a credential row, changes its digest, owner or lifetime, or withdraws a
  revocation.
\<close>

definition token_successor :: "refresh_token \<Rightarrow> refresh_token \<Rightarrow> bool" where
  "token_successor r r' \<longleftrightarrow>
     rt_id r' = rt_id r \<and> rt_token_hash r' = rt_token_hash r \<and> rt_user_id r' = rt_user_id r \<and>
     rt_created_at r' = rt_created_at r \<and> rt_expires_at r' = rt_expires_at r \<and>
     (rt_revoked_at r \<noteq> None \<longrightarrow> rt_revoked_at r' = rt_revoked_at r)"

definition token_history :: "db \<Rightarrow> db \<Rightarrow> bool" where
  "token_history d d' \<longleftrightarrow>
     (\<forall>r \<in> set (refresh_tokens d). \<exists>r' \<in> set (refresh_tokens d'). token_successor r r')"

lemma token_successor_refl [simp]: "token_successor r r"
  by (simp add: token_successor_def)

lemma token_successor_trans: "token_successor a b \<Longrightarrow> token_successor b c \<Longrightarrow> token_successor a c"
  by (auto simp: token_successor_def)

lemma token_history_same: "refresh_tokens d' = refresh_tokens d \<Longrightarrow> token_history d d'"
  by (auto simp: token_history_def intro: token_successor_refl)

lemma token_history_refl [simp]: "token_history d d"
  by (rule token_history_same) simp

lemma token_history_trans: "token_history d d' \<Longrightarrow> token_history d' d'' \<Longrightarrow> token_history d d''"
  unfolding token_history_def by (meson token_successor_trans)

lemma token_constraints_d:
  "users d' = users d \<Longrightarrow> refresh_tokens d' = refresh_tokens d \<Longrightarrow>
   refresh_token_constraints d' r = refresh_token_constraints d r"
  by (simp add: refresh_token_constraints_def)

lemma wf_core_tokens:
  assumes "wf_core d" "wf_tokens (d\<lparr>refresh_tokens := rs\<rparr>)"
  shows "wf_core (d\<lparr>refresh_tokens := rs\<rparr>)"
  using assms by (simp add: wf_core_def wf_users_def wf_projects_def wf_tasks_def project_constraints_def
        task_constraints_def)

lemma token_repo_create_Inr:
  "token_repo_create e n u h c x d = Inr (r, d') \<Longrightarrow>
     get_by_id u d \<noteq> None \<and> \<not> env_flush_fails e n \<and> \<not> env_flush_fails e (Suc n) \<and> length h \<le> 64 \<and>
     r = new_refresh_token e u h c x \<and>
     rt_id r \<notin> rt_id ` set (refresh_tokens d) \<and> list_all snd (refresh_token_constraints d r) \<and>
     d' = d\<lparr>refresh_tokens := refresh_tokens d @ [r]\<rparr>"
  by (auto simp: token_repo_create_def get_by_id_for_update_def db_statement_def bind_result_eq_Inr Let_def
        flush_row_ok)

lemma token_repo_create_effect:
  assumes "token_repo_create e n u h c x d = Inr (r, d')" "wf_core d"
  shows "wf_core d' \<and> token_history d d'"
proof -
  from assms(1) have d': "d' = d\<lparr>refresh_tokens := refresh_tokens d @ [r]\<rparr>"
    and new: "rt_id r \<notin> rt_id ` set (refresh_tokens d)" "list_all snd (refresh_token_constraints d r)"
    by (auto dest: token_repo_create_Inr)
  have old: "list_all snd (refresh_token_constraints d' q)" if "q \<in> set (refresh_tokens d)" for q
    using that assms(2) new(2)
    by (auto simp: d' wf_core_def wf_tokens_def refresh_token_constraints_def list_all_iff)
  have "list_all snd (refresh_token_constraints d' r)"
    using new(2) by (simp add: d' refresh_token_constraints_def)
  with old new assms(2) have "wf_tokens d'"
    by (auto simp: d' wf_core_def wf_tokens_def)
  with wf_core_tokens [OF assms(2)] show ?thesis
    by (auto simp: d' token_history_def intro: token_successor_refl)
qed

lemma revoke_where_Inr:
  "revoke_where e n p v d = Inr (hit, d') \<longleftrightarrow>
     \<not> env_flush_fails e n \<and> (\<forall>r \<in> set (refresh_tokens d). p r \<longrightarrow> rt_created_at r \<le> v r) \<and>
     hit = (\<exists>r \<in> set (refresh_tokens d). p r) \<and>
     d' = d\<lparr>refresh_tokens := map (\<lambda>r. if p r then r\<lparr>rt_revoked_at := Some (v r)\<rparr> else r) (refresh_tokens d)\<rparr>"
  by (auto simp: revoke_where_def bind_result_eq_Inr flush_row_ok list_all_iff list_ex_iff)

lemma revoke_where_effect:
  assumes "revoke_where e n p v d = Inr (hit, d')" "wf_core d" "\<And>r. p r \<Longrightarrow> rt_revoked_at r = None"
  shows "wf_core d' \<and> token_history d d'"
proof -
  let ?f = "\<lambda>r :: refresh_token. if p r then r\<lparr>rt_revoked_at := Some (v r)\<rparr> else r"
  from assms(1) have d': "d' = d\<lparr>refresh_tokens := map ?f (refresh_tokens d)\<rparr>"
    and ok: "\<And>r. r \<in> set (refresh_tokens d) \<Longrightarrow> p r \<Longrightarrow> rt_created_at r \<le> v r"
    by (auto simp: revoke_where_Inr)
  have succ: "token_successor r (?f r)" for r
    using assms(3) [of r] by (auto simp: token_successor_def)
  have ids: "rt_id (?f r) = rt_id r" "rt_token_hash (?f r) = rt_token_hash r" for r by simp_all
  have same_ids: "map rt_id (map ?f (refresh_tokens d)) = map rt_id (refresh_tokens d)"
    by (simp add: ids)
  have rows: "list_all snd (refresh_token_constraints d' (?f r))" if "r \<in> set (refresh_tokens d)" for r
  proof -
    have "list_all (\<lambda>x. rt_id x = i \<or> rt_token_hash x \<noteq> h) (map ?f ts) =
        list_all (\<lambda>x. rt_id x = i \<or> rt_token_hash x \<noteq> h) ts" for i h ts
      by (simp add: list.pred_map comp_def ids)
    moreover have "list_all snd (refresh_token_constraints d r)"
      using that assms(2) by (simp add: wf_core_def wf_tokens_def)
    ultimately show ?thesis
      using ok [OF that] by (simp add: d' refresh_token_constraints_def)
  qed
  have tokens: "refresh_tokens d' = map ?f (refresh_tokens d)"
    by (simp add: d')
  have "wf_tokens d'"
  proof -
    have "list_all snd (refresh_token_constraints d' q)" if "q \<in> set (refresh_tokens d')" for q
      using that rows by (auto simp only: tokens set_map)
    moreover have "distinct (map rt_id (refresh_tokens d'))"
      using assms(2) same_ids
      by (simp only: tokens wf_core_def wf_tokens_def)
    ultimately show ?thesis by (simp add: wf_tokens_def)
  qed
  moreover have "token_history d d'"
    unfolding token_history_def tokens
  proof
    fix r assume "r \<in> set (refresh_tokens d)"
    then have "?f r \<in> set (map ?f (refresh_tokens d))" by (simp only: set_map) (rule imageI)
    with succ show "\<exists>r' \<in> set (map ?f (refresh_tokens d)). token_successor r r'" by blast
  qed
  ultimately show ?thesis
    using wf_core_tokens [OF assms(2), of "map ?f (refresh_tokens d)"] unfolding d' by blast
qed

lemma update_password_Inr:
  "update_password e n u h t d = Inr (u', d') \<longleftrightarrow>
     u' = u\<lparr>u_password_hash := h, u_updated_at := t\<rparr> \<and> \<not> env_flush_fails e n \<and> user_checks u' \<and>
     d' = d\<lparr>users := map (\<lambda>x. if u_id x = u_id u then x\<lparr>u_password_hash := h, u_updated_at := t\<rparr> else x) (users d)\<rparr>"
  by (auto simp: update_password_def Let_def bind_result_eq_Inr flush_row_ok)

lemma update_password_effect:
  assumes "update_password e n u h t d = Inr (u', d')" "wf_core d"
  shows "wf_core d' \<and> token_history d d'"
proof -
  let ?f = "\<lambda>x :: user. if u_id x = u_id u then x\<lparr>u_password_hash := h, u_updated_at := t\<rparr> else x"
  have "u_email \<circ> ?f = u_email" by auto
  then have "distinct (map u_email (map ?f (users d)))"
    using assms(2) by (simp add: wf_core_def wf_users_def)
  from wf_core_user_columns [OF assms(2) _ this] assms(1) show ?thesis
    by (simp add: update_password_Inr token_history_same)
qed

lemma prepare_issuance_effect:
  assumes "prepare_issuance L e n new u d = Inr (x, d')" "wf_core d"
  shows "wf_core d' \<and> token_history d d'"
  using assms token_repo_create_effect
  by (fastforce simp: prepare_issuance_def bind_result_eq_Inr Let_def)

lemma get_by_hash_SomeD:
  "get_by_hash_for_update e n h d = Inr (Some r) \<Longrightarrow> r \<in> set (refresh_tokens d) \<and> rt_token_hash r = h"
  by (auto simp: get_by_hash_for_update_def bind_result_eq_Inr split: option.splits dest: find_SomeD)

text \<open>Everything that a successful rotation did.\<close>

lemma prepare_rotation_Inr:
  assumes "prepare_rotation L e new t d = Inr (x, d')"
  obtains r :: refresh_token and now d1 n where "refresh_token_pattern t" "get_by_hash_for_update e 0 (lib_sha256 L t) d = Inr (Some r)"
    "utc_instant (env_clock e) = Some now" "rt_revoked_at r = None" "rt_created_at r \<le> now" "now < rt_expires_at r"
    "revoke_if_active e 1 (rt_id r) (rt_user_id r) now d = Inr (True, d1)"
    "refresh_token_pattern new"
    "token_repo_create e 2 (rt_user_id r) (lib_sha256 L new) now (now + refresh_token_ttl) d1 = Inr (n, d')"
    "x = \<lparr>rotated_user_id = rt_user_id r, rotated_token = new, rotated_expires_at = now + refresh_token_ttl\<rparr>"
  using assms
  by (auto simp: prepare_rotation_def hash_refresh_token_def aware_time_def bind_result_eq_Inr Let_def
        split: if_splits option.splits)

lemma prepare_rotation_effect:
  assumes "prepare_rotation L e new t d = Inr (x, d')" "wf_core d"
  shows "wf_core d' \<and> token_history d d'"
proof -
  obtain r :: refresh_token and now d1 n where
    a: "revoke_if_active e 1 (rt_id r) (rt_user_id r) now d = Inr (True, d1)" and
    b: "token_repo_create e 2 (rt_user_id r) (lib_sha256 L new) now (now + refresh_token_ttl) d1 = Inr (n, d')"
    by (rule prepare_rotation_Inr [OF assms(1)]) (rule that)
  from revoke_where_effect [OF a [unfolded revoke_if_active_def] assms(2)]
  have "wf_core d1" "token_history d d1" by auto
  with token_repo_create_effect [OF b] show ?thesis by (auto intro: token_history_trans)
qed

lemma transaction_effect:
  assumes "wf_core d" "\<And>r d'. body d = Inr (r, d') \<Longrightarrow> wf_core d' \<and> token_history d d'"
  shows "wf_core (committed (snd (transaction outcome body (open_session d)))) \<and>
         token_history d (committed (snd (transaction outcome body (open_session d))))"
  by (rule transaction_preserves [where P = "\<lambda>x. wf_core x \<and> token_history d x"])
     (use assms in \<open>auto intro: token_history_same\<close>)

lemma exec_auth_effect:
  assumes "wf_core d"
  shows "wf_core (snd (exec_auth L iss a d)) \<and> token_history d (snd (exec_auth L iss a d))"
proof (cases a)
  case (Auth_register e salt r)
  have "wf_core d' \<and> token_history d d'" if "user_repo_create e m h d = Inr (u, d')" for m h u d'
    using that user_repo_create_wf [OF that assms] by (auto simp: user_repo_create_Inr intro: token_history_same)
  then show ?thesis
    using assms unfolding Auth_register
    by (auto simp: register_user_def interleave_def bind_result_eq_Inr snd_map_prod
          intro!: transaction_effect split: sum.splits)
next
  case (Auth_email e u m)
  have "wf_core d' \<and> token_history d d'" if "update_email e u m d = Inr (u', d')" for u' d'
    using that update_email_wf [OF that assms] by (auto simp: update_email_Inr intro: token_history_same)
  then show ?thesis
    using assms unfolding Auth_email
    by (auto simp: update_current_user_email_def interleave_def bind_result_eq_Inr snd_map_prod
          intro!: transaction_effect)
next
  case (Auth_issue e new u)
  then show ?thesis
    using assms by (auto simp: issue_refresh_token_def snd_map_prod intro!: transaction_effect
        dest: prepare_issuance_effect)
next
  case (Auth_rotate e new t)
  then show ?thesis
    using assms by (auto simp: rotate_refresh_token_def snd_map_prod intro!: transaction_effect
        dest: prepare_rotation_effect)
next
  case (Auth_login e new c)
  then show ?thesis
    using assms by (auto simp: authenticate_user_def snd_map_prod result_Inr intro!: transaction_effect
        dest: prepare_issuance_effect)
next
  case (Auth_refresh e new t)
  then show ?thesis
    using assms by (auto simp: refresh_authentication_def snd_map_prod bind_result_eq_Inr
        intro!: transaction_effect dest: prepare_rotation_effect)
next
  case (Auth_logout e t)
  have "wf_core d' \<and> token_history d d'" if "revoke_if_unrevoked e 1 i u v d = Inr (hit, d')" for i u v hit d'
    using revoke_where_effect [OF that [unfolded revoke_if_unrevoked_def] assms] by simp
  then show ?thesis
    using assms unfolding Auth_logout
    by (auto simp: logout_refresh_token_def snd_map_prod result_Inr intro!: transaction_effect)
next
  case (Auth_password e salt c u)
  have "wf_core d2 \<and> token_history d d2"
    if "update_password e 1 x h now d = Inr (u', d1)" "revoke_all_for_owner e 2 i now d1 = Inr (hit, d2)"
    for x h now u' d1 i hit d2
    using update_password_effect [OF that(1) assms] revoke_where_effect [OF that(2) [unfolded revoke_all_for_owner_def]]
    by (auto intro: token_history_trans)
  then show ?thesis
    using assms unfolding Auth_password
    by (auto simp: change_password_def snd_map_prod result_Inr intro!: transaction_effect)
qed

text \<open>
  The credential operations keep the database well-formed, so every sequence of them does.
\<close>

interpretation auth_service: invariant_operations "exec_auth L iss" wf_core
  by unfold_locales (simp add: exec_auth_effect)

lemma run_auth_history:
  "wf_core d \<Longrightarrow> token_history d (snd (run_ops (exec_auth L iss) as d))"
proof (induction as arbitrary: d)
  case (Cons a as)
  let ?d = "snd (exec_auth L iss a d)"
  have "token_history ?d (snd (run_ops (exec_auth L iss) as ?d))"
    by (rule Cons.IH) (simp add: exec_auth_effect [OF Cons.prems])
  with exec_auth_effect [OF Cons.prems, of L iss a] show ?case
    by (auto split: prod.splits intro: token_history_trans)
qed simp

section \<open>Spent credentials\<close>

definition revoked_hash :: "string \<Rightarrow> db \<Rightarrow> bool" where
  "revoked_hash h d \<longleftrightarrow> (\<exists>r \<in> set (refresh_tokens d). rt_token_hash r = h \<and> rt_revoked_at r \<noteq> None)"

lemma revoked_hash_history: "revoked_hash h d \<Longrightarrow> token_history d d' \<Longrightarrow> revoked_hash h d'"
  unfolding revoked_hash_def token_history_def token_successor_def by metis

lemma wf_core_hash_unique:
  assumes "wf_core d" "r \<in> set (refresh_tokens d)" "q \<in> set (refresh_tokens d)" "rt_token_hash q = rt_token_hash r"
  shows "q = r"
proof -
  have "list_all (\<lambda>x. rt_id x = rt_id r \<or> rt_token_hash x \<noteq> rt_token_hash r) (refresh_tokens d)"
    using assms(1,2) by (simp add: wf_core_def wf_tokens_def refresh_token_constraints_def)
  with assms(3,4) have "rt_id q = rt_id r" by (auto simp: list_all_iff)
  moreover have "inj_on rt_id (set (refresh_tokens d))"
    using assms(1) by (simp add: wf_core_def wf_tokens_def distinct_map)
  ultimately show ?thesis using assms(2,3) by (auto dest: inj_onD)
qed

lemma prepare_rotation_revoked:
  assumes "wf_core d" "revoked_hash (lib_sha256 L t) d"
  shows "\<exists>x. prepare_rotation L e new t d = Inl x \<and> x \<in> {InvalidRefreshTokenError, DatabaseError, ValueError}"
proof -
  have "rt_revoked_at r \<noteq> None" if "get_by_hash_for_update e 0 (lib_sha256 L t) d = Inr (Some r)" for r
  proof -
    from assms(2) obtain q where q: "q \<in> set (refresh_tokens d)" "rt_token_hash q = lib_sha256 L t"
      "rt_revoked_at q \<noteq> None"
      by (auto simp: revoked_hash_def)
    with get_by_hash_SomeD [OF that] wf_core_hash_unique [OF assms(1), of r q] show ?thesis by auto
  qed
  then show ?thesis
    by (auto simp: prepare_rotation_def hash_refresh_token_def bind_result_def aware_time_def
          get_by_hash_for_update_def db_statement_def guard_def split: option.splits)
qed

lemma refresh_revoked:
  assumes "wf_core d" "revoked_hash (lib_sha256 L t) d"
  shows "fst (exec_auth L iss (Auth_refresh e new t) d) \<in>
           {Answer_pair (Inl InvalidRefreshTokenError), Answer_pair (Inl AuthenticationUnavailableError)} \<and>
         snd (exec_auth L iss (Auth_refresh e new t) d) = d"
  using prepare_rotation_revoked [OF assms, of e new]
  by (auto simp: refresh_authentication_def transaction_def reraise_def)

text \<open>A successful rotation revokes the presented credential.\<close>

lemma rotation_revokes:
  assumes "prepare_rotation L e new t d = Inr (x, d')"
  shows "revoked_hash (lib_sha256 L t) d'"
proof -
  obtain r :: refresh_token and now d1 n where
    found: "get_by_hash_for_update e 0 (lib_sha256 L t) d = Inr (Some r)" and
    live: "rt_revoked_at r = None" "rt_created_at r \<le> now" "now < rt_expires_at r" and
    a: "revoke_if_active e 1 (rt_id r) (rt_user_id r) now d = Inr (True, d1)" and
    b: "token_repo_create e 2 (rt_user_id r) (lib_sha256 L new) now (now + refresh_token_ttl) d1 = Inr (n, d')"
    by (rule prepare_rotation_Inr [OF assms]) (rule that)
  have r: "r \<in> set (refresh_tokens d)" "rt_token_hash r = lib_sha256 L t"
    using get_by_hash_SomeD [OF found] by auto
  have "r\<lparr>rt_revoked_at := Some now\<rparr> \<in> set (refresh_tokens d1)"
    using a r(1) live by (force simp: revoke_if_active_def revoke_where_Inr)
  with token_repo_create_Inr [OF b] r(2) show ?thesis by (force simp: revoked_hash_def)
qed

text \<open>C2: refresh credentials are single-use. If presenting a credential had any durable effect
  (it answered with a new pair, or its commit happened and only the acknowledgement was lost),
  then after any further sequence of account, login, refresh, logout and password requests,
  presenting it again is refused and stores nothing.\<close>

theorem refresh_token_single_use:
  assumes "wf_core d" "snd (exec_auth L iss (Auth_refresh e new t) d) \<noteq> d"
  shows "let d' = snd (run_ops (exec_auth L iss) as (snd (exec_auth L iss (Auth_refresh e new t) d))) in
         fst (exec_auth L iss (Auth_refresh e' new' t) d') \<in>
           {Answer_pair (Inl InvalidRefreshTokenError), Answer_pair (Inl AuthenticationUnavailableError)} \<and>
         snd (exec_auth L iss (Auth_refresh e' new' t) d') = d'"
proof -
  let ?d1 = "snd (exec_auth L iss (Auth_refresh e new t) d)"
  let ?body = "\<lambda>d. bind_result (prepare_rotation L e new t d) (\<lambda>(refresh, d').
            bind_result (iss (rotated_user_id refresh)) (\<lambda>access.
              bind_result (token_pair_response access (rotated_token refresh)
                  (rotated_expires_at refresh)) (\<lambda>pair. Inr (pair, d'))))"
  have "?d1 = committed (snd (transaction (env_commit e) ?body (open_session d)))"
    by (simp add: refresh_authentication_def snd_map_prod)
  with transaction_committed [of "env_commit e" ?body "open_session d"] assms(2)
  obtain r where "?body d = Inr (r, ?d1)" by auto
  then obtain x where "prepare_rotation L e new t d = Inr (x, ?d1)"
    by (auto simp: result_Inr)
  then have "revoked_hash (lib_sha256 L t) ?d1" by (rule rotation_revokes)
  moreover have wf: "wf_core ?d1" by (rule auth_service.exec_inv [OF assms(1)])
  ultimately show ?thesis
    using refresh_revoked [OF auth_service.run_inv [OF wf] revoked_hash_history [OF _ run_auth_history [OF wf]]]
    by (simp add: Let_def)
qed

definition demo_token :: string where "demo_token = replicate 43 CHR ''A''"
definition demo_token2 :: string where "demo_token2 = replicate 42 CHR ''A'' @ ''B''"
definition demo_token3 :: string where "demo_token3 = replicate 42 CHR ''A'' @ ''C''"

definition demo_issuer :: "uuid \<Rightarrow> nat result" where "demo_issuer u = Inr (1000 + u)"

definition demo_auth_db :: db where
  "demo_auth_db = demo_account_db\<lparr>refresh_tokens :=
     [\<lparr>rt_id = 5, rt_user_id = 1, rt_token_hash = lib_sha256 demo_libs demo_token, rt_created_at = 0,
       rt_expires_at = 100, rt_revoked_at = None\<rparr>]\<rparr>"

lemma demo_auth_db_wf: "wf_core demo_auth_db"
  by code_simp

lemma demo_refresh_tokens:
  "map rt_revoked_at (refresh_tokens (snd (exec_auth demo_libs demo_issuer
     (Auth_refresh demo_register_env demo_token2 demo_token) demo_auth_db))) = [Some 7, None]"
  "map rt_revoked_at (refresh_tokens demo_auth_db) = [None]"
  by code_simp+

lemma demo_refresh_changes:
  "snd (exec_auth demo_libs demo_issuer (Auth_refresh demo_register_env demo_token2 demo_token) demo_auth_db)
     \<noteq> demo_auth_db"
proof
  assume "snd (exec_auth demo_libs demo_issuer (Auth_refresh demo_register_env demo_token2 demo_token)
    demo_auth_db) = demo_auth_db"
  with demo_refresh_tokens show False by simp
qed

theorem refresh_token_single_use_witness:
  "fst (exec_auth demo_libs demo_issuer (Auth_refresh demo_register_env demo_token3 demo_token)
     (snd (exec_auth demo_libs demo_issuer (Auth_logout demo_register_env demo_token2)
       (snd (exec_auth demo_libs demo_issuer (Auth_refresh demo_register_env demo_token2 demo_token) demo_auth_db)))))
   \<in> {Answer_pair (Inl InvalidRefreshTokenError), Answer_pair (Inl AuthenticationUnavailableError)}"
  using refresh_token_single_use [OF demo_auth_db_wf demo_refresh_changes,
    of "[Auth_logout demo_register_env demo_token2]" demo_register_env demo_token3]
  by (simp add: Let_def split_beta del: exec_auth.simps)

section \<open>Ending sessions\<close>

definition revoked_now :: "instant \<Rightarrow> uuid \<Rightarrow> refresh_token \<Rightarrow> refresh_token" where
  "revoked_now now u r =
     (if rt_user_id r = u \<and> rt_revoked_at r = None
      then r\<lparr>rt_revoked_at := Some (max now (rt_created_at r))\<rparr> else r)"

lemma change_password_Inr:
  assumes "change_password L e salt c u (open_session d) = (Inr (), s)" "wf_core d"
  obtains x now where "get_by_id u d = Some x" "verify_password L (pcr_current c) (u_password_hash x)"
    "utc_instant (env_clock e) = Some now"
    "users (committed s) = map (\<lambda>y. if u_id y = u
        then y\<lparr>u_password_hash := lib_argon_hash L salt (pcr_new c), u_updated_at := now\<rparr> else y) (users d)"
    "refresh_tokens (committed s) = map (revoked_now now u) (refresh_tokens d)"
proof -
  obtain r0 where "transaction (env_commit e) (\<lambda>d.
          bind_result (get_by_id_for_update e 0 u d) (\<lambda>found.
            case found of
              None \<Rightarrow> Inl InvalidCredentialsError
            | Some user \<Rightarrow>
                if \<not> verify_password L (pcr_current c) (u_password_hash user)
                then Inl InvalidCredentialsError
                else
                  bind_result (hash_password L salt (pcr_new c)) (\<lambda>replacement.
                    bind_result (aware_time (env_clock e)) (\<lambda>now.
                      bind_result (update_password e 1 user replacement now d) (\<lambda>(_, d1).
                        bind_result (revoke_all_for_owner e 2 (u_id user) now d1) (\<lambda>(_, d2).
                          Inr ((), d2))))))) (open_session d) = (Inr r0, s)"
    using assms(1) unfolding change_password_def
    by (auto simp: map_prod_def reraise_def split: prod.splits sum.splits)
  from transaction_success [OF this] obtain x h now u' d1 hit where
    x: "get_by_id u d = Some x" "verify_password L (pcr_current c) (u_password_hash x)"
    and h: "hash_password L salt (pcr_new c) = Inr h" and now: "aware_time (env_clock e) = Inr now"
    and up: "update_password e 1 x h now d = Inr (u', d1)"
    and rv: "revoke_all_for_owner e 2 (u_id x) now d1 = Inr (hit, committed s)"
    by (auto simp: result_Inr get_by_id_for_update_def)
  have "u_id x = u" using get_by_id_SomeD [OF x(1)] by simp
  moreover have "h = lib_argon_hash L salt (pcr_new c)"
    using h by (auto simp: hash_password_def validate_password_def result_Inr)
  ultimately show ?thesis
    using that [OF x, of now] now up rv
    by (auto simp: aware_time_def update_password_Inr revoke_all_for_owner_def revoke_where_Inr revoked_now_def
          cong: map_cong split: option.splits)
qed

text \<open>C16: a password change ends every session of its user and of nobody else. When it succeeds,
  every credential of the user is revoked (at a time not before its creation, also when the clock
  went back), the credentials of all other users are exactly as before, and no credential of the
  user issued before can be refreshed after any further sequence of requests.\<close>

theorem password_change_ends_sessions:
  assumes "wf_core d" "change_password L e salt c u (open_session d) = (Inr (), s)"
    and "r \<in> set (refresh_tokens d)" "rt_token_hash r = lib_sha256 L t" "rt_user_id r = u"
  shows "list_all (\<lambda>q. rt_user_id q = u \<longrightarrow> rt_revoked_at q \<noteq> None \<and> rt_created_at q \<le> the (rt_revoked_at q))
           (refresh_tokens (committed s)) \<and>
         filter (\<lambda>q. rt_user_id q \<noteq> u) (refresh_tokens (committed s)) =
           filter (\<lambda>q. rt_user_id q \<noteq> u) (refresh_tokens d) \<and>
         (let d' = snd (run_ops (exec_auth L iss) as (committed s)) in
          fst (exec_auth L iss (Auth_refresh e' new t) d') \<in>
            {Answer_pair (Inl InvalidRefreshTokenError), Answer_pair (Inl AuthenticationUnavailableError)})"
proof -
  obtain now where tokens: "refresh_tokens (committed s) = map (revoked_now now u) (refresh_tokens d)"
    by (rule change_password_Inr [OF assms(2,1)])
  have snd_eq: "snd (exec_auth L iss (Auth_password e salt c u) d) = committed s"
    using assms(2) by simp
  have wf: "wf_core (committed s)"
    using exec_auth_effect [OF assms(1), of L iss "Auth_password e salt c u"] snd_eq by simp
  have rev: "rt_revoked_at (revoked_now now u q) \<noteq> None" if "rt_user_id q = u" for q
    using that by (auto simp: revoked_now_def)
  have bound: "opt_all (\<lambda>t. rt_created_at q \<le> t) (rt_revoked_at q)" if "q \<in> set (refresh_tokens (committed s))" for q
    using wf that by (auto simp: wf_core_def wf_tokens_def refresh_token_constraints_def)
  have owner: "rt_user_id (revoked_now now u q) = rt_user_id q" for q
    by (simp add: revoked_now_def)
  have all: "rt_revoked_at q \<noteq> None \<and> rt_created_at q \<le> the (rt_revoked_at q)"
    if "q \<in> set (refresh_tokens (committed s))" "rt_user_id q = u" for q
  proof -
    from that(1) obtain x where x: "q = revoked_now now u x" by (auto simp: tokens)
    with that(2) owner have "rt_user_id x = u" by simp
    from rev [OF this] x have "rt_revoked_at q \<noteq> None" by simp
    with bound [OF that(1)] show ?thesis by auto
  qed
  have frame: "filter (\<lambda>q. rt_user_id q \<noteq> u) (refresh_tokens (committed s)) =
      filter (\<lambda>q. rt_user_id q \<noteq> u) (refresh_tokens d)"
    unfolding tokens filter_map comp_def owner by (rule map_idI) (auto simp: revoked_now_def)
  have "revoked_hash (lib_sha256 L t) (committed s)"
    unfolding revoked_hash_def tokens using assms(3,4) rev [OF assms(5)]
    by (intro bexI [of _ "revoked_now now u r"]) (auto simp: revoked_now_def)
  from revoked_hash_history [OF this run_auth_history [OF wf]] auth_service.run_inv [OF wf]
  have "fst (exec_auth L iss (Auth_refresh e' new t) (snd (run_ops (exec_auth L iss) as (committed s)))) \<in>
      {Answer_pair (Inl InvalidRefreshTokenError), Answer_pair (Inl AuthenticationUnavailableError)}"
    by (intro conjunct1 [OF refresh_revoked]) blast+
  with all frame show ?thesis by (simp add: Let_def list_all_iff del: exec_auth.simps)
qed

definition demo_password_change :: password_change_request where
  "demo_password_change = \<lparr>pcr_current = ''secret secret'', pcr_new = ''correct horse''\<rparr>"

definition demo_early_env :: env where
  "demo_early_env = demo_register_env\<lparr>env_clock := Aware (- 5) 0\<rparr>"

lemma demo_password_facts:
  "fst (change_password demo_libs demo_early_env 3 demo_password_change 1 (open_session demo_auth_db)) = Inr ()"
  by code_simp

lemma demo_token_row:
  "hd (refresh_tokens demo_auth_db) \<in> set (refresh_tokens demo_auth_db)"
  "rt_token_hash (hd (refresh_tokens demo_auth_db)) = lib_sha256 demo_libs demo_token"
  "rt_user_id (hd (refresh_tokens demo_auth_db)) = 1"
  by code_simp+

theorem password_change_ends_sessions_witness:
  "list_all (\<lambda>q. rt_user_id q = 1 \<longrightarrow> rt_revoked_at q \<noteq> None \<and> rt_created_at q \<le> the (rt_revoked_at q))
     (refresh_tokens (committed (snd (change_password demo_libs demo_early_env 3 demo_password_change 1
        (open_session demo_auth_db)))))"
proof -
  let ?a = "change_password demo_libs demo_early_env 3 demo_password_change 1 (open_session demo_auth_db)"
  have "?a = (Inr (), snd ?a)" by (simp only: prod_eq_iff demo_password_facts fst_conv snd_conv)
  from password_change_ends_sessions [OF demo_auth_db_wf this demo_token_row] show ?thesis by blast
qed

lemma get_by_hash_found:
  assumes "wf_core d" "r \<in> set (refresh_tokens d)"
  shows "get_by_hash_for_update e n (rt_token_hash r) d =
         bind_result (db_statement e n) (\<lambda>_. Inr (Some r))"
proof -
  have uniq: "q = r" if "q \<in> set (refresh_tokens d)" "rt_token_hash q = rt_token_hash r" for q
    using wf_core_hash_unique [OF assms that] .
  have f1: "List.find (\<lambda>q. rt_token_hash q = rt_token_hash r) (refresh_tokens d) = Some r"
    using assms(2) uniq by (metis (mono_tags, lifting) find_None_iff find_SomeD not_None_eq)
  have f2: "List.find (\<lambda>q. rt_token_hash q = rt_token_hash r \<and> rt_user_id q = rt_user_id r) (refresh_tokens d) = Some r"
    using assms(2) uniq by (metis (mono_tags, lifting) find_None_iff find_SomeD not_None_eq)
  have "rt_user_id r \<in> u_id ` set (users d)"
    using assms by (auto simp: wf_core_def wf_tokens_def refresh_token_constraints_def)
  then obtain x where "get_by_id (rt_user_id r) d = Some x"
    by (cases "get_by_id (rt_user_id r) d") (auto simp: get_by_id_def find_None_iff)
  with f1 f2 get_by_id_SomeD [OF this] show ?thesis
    by (simp add: get_by_hash_for_update_def)
qed

lemma get_by_hash_none:
  "\<forall>r \<in> set (refresh_tokens d). rt_token_hash r \<noteq> h \<Longrightarrow>
   get_by_hash_for_update e n h d = bind_result (db_statement e n) (\<lambda>_. Inr None)"
  by (auto simp: get_by_hash_for_update_def find_None_iff split: option.splits dest!: find_SomeD)

definition logged_out :: "string \<Rightarrow> instant \<Rightarrow> db \<Rightarrow> db" where
  "logged_out h now d = d\<lparr>refresh_tokens := map (\<lambda>r. if rt_token_hash r = h \<and> rt_revoked_at r = None
     then r\<lparr>rt_revoked_at := Some (max now (rt_created_at r))\<rparr> else r) (refresh_tokens d)\<rparr>"

lemma logged_out_same:
  "\<forall>r \<in> set (refresh_tokens d). rt_token_hash r = h \<longrightarrow> rt_revoked_at r \<noteq> None \<Longrightarrow> logged_out h now d = d"
  unfolding logged_out_def by (subst map_idI) auto

lemma logout_result:
  assumes "wf_core d" "refresh_token_pattern t" "utc_instant (env_clock e) = Some now"
    and "env_commit e = Commit_ok" "\<forall>n. \<not> env_flush_fails e n"
  shows "logout_refresh_token L e t (open_session d) = (Inr (), open_session (logged_out (lib_sha256 L t) now d))"
proof (cases "\<exists>r \<in> set (refresh_tokens d). rt_token_hash r = lib_sha256 L t")
  case False
  then have "get_by_hash_for_update e 0 (lib_sha256 L t) d = Inr None" "logged_out (lib_sha256 L t) now d = d"
    using get_by_hash_none [of d "lib_sha256 L t" e 0] assms(5) logged_out_same [of d "lib_sha256 L t" now]
    by (auto simp: db_statement_def)
  then show ?thesis
    using assms by (simp add: logout_refresh_token_def transaction_def hash_refresh_token_def session_commit_def
        reraise_def open_session_def)
next
  case True
  then obtain r where r: "r \<in> set (refresh_tokens d)" "rt_token_hash r = lib_sha256 L t" by blast
  have found: "get_by_hash_for_update e 0 (lib_sha256 L t) d = Inr (Some r)"
    using get_by_hash_found [OF assms(1) r(1), of e 0] assms(5) r(2) by (simp add: db_statement_def)
  have same_row: "q = r" if "q \<in> set (refresh_tokens d)" "rt_token_hash q = lib_sha256 L t \<or> rt_id q = rt_id r" for q
    using that wf_core_hash_unique [OF assms(1) r(1), of q] r assms(1)
    by (auto simp: wf_core_def wf_tokens_def distinct_map dest: inj_onD)
  show ?thesis
  proof (cases "rt_revoked_at r = None")
    case False
    then have "logged_out (lib_sha256 L t) now d = d"
      using same_row by (intro logged_out_same) blast
    with False found show ?thesis
      using assms by (simp add: logout_refresh_token_def transaction_def hash_refresh_token_def session_commit_def
          reraise_def open_session_def)
  next
    case True
    have "revoke_if_unrevoked e 1 (rt_id r) (rt_user_id r) (max now (rt_created_at r)) d =
        Inr (True, logged_out (lib_sha256 L t) now d)"
    proof -
      have "(if rt_token_hash q = lib_sha256 L t \<and> rt_revoked_at q = None
             then q\<lparr>rt_revoked_at := Some (max now (rt_created_at q))\<rparr> else q) =
          (if rt_id q = rt_id r \<and> rt_user_id q = rt_user_id r \<and> rt_revoked_at q = None
             then q\<lparr>rt_revoked_at := Some (max now (rt_created_at r))\<rparr> else q)"
        if "q \<in> set (refresh_tokens d)" for q
        using same_row [OF that] r(2) by (cases "q = r") auto
      then have "logged_out (lib_sha256 L t) now d =
          d\<lparr>refresh_tokens := map (\<lambda>q. if rt_id q = rt_id r \<and> rt_user_id q = rt_user_id r \<and> rt_revoked_at q = None
             then q\<lparr>rt_revoked_at := Some (max now (rt_created_at r))\<rparr> else q) (refresh_tokens d)\<rparr>"
        unfolding logged_out_def by (simp cong: map_cong)
      moreover have "rt_created_at q \<le> max now (rt_created_at r)"
        if "q \<in> set (refresh_tokens d)" "rt_id q = rt_id r" for q
        using same_row [OF that(1)] that(2) by simp
      ultimately show ?thesis
        unfolding revoke_if_unrevoked_def revoke_where_Inr using assms(5) r(1) True by auto
    qed
    with True found show ?thesis
      using assms by (simp add: logout_refresh_token_def transaction_def hash_refresh_token_def session_commit_def
          reraise_def open_session_def aware_time_def)
  qed
qed

text \<open>Logout. With an aware clock and a working database, presenting any well-formed credential
  (active, expired, already revoked or unknown) succeeds; afterwards the row of that credential, if
  there is one, is revoked at a time not before its creation even when the clock ran backwards,
  every other row is untouched, and logging out again changes nothing.\<close>

theorem logout_revokes_presented_credential:
  assumes "wf_core d" "refresh_token_pattern t" "utc_instant (env_clock e) = Some now"
    and "env_commit e = Commit_ok" "\<forall>n. \<not> env_flush_fails e n"
  shows "\<exists>d'. logout_refresh_token L e t (open_session d) = (Inr (), open_session d') \<and>
           list_all (\<lambda>r. rt_token_hash r = lib_sha256 L t \<longrightarrow>
              rt_revoked_at r \<noteq> None \<and> rt_created_at r \<le> the (rt_revoked_at r)) (refresh_tokens d') \<and>
           filter (\<lambda>r. rt_token_hash r \<noteq> lib_sha256 L t) (refresh_tokens d') =
             filter (\<lambda>r. rt_token_hash r \<noteq> lib_sha256 L t) (refresh_tokens d) \<and>
           logout_refresh_token L e t (open_session d') = (Inr (), open_session d')"
proof -
  let ?h = "lib_sha256 L t"
  let ?d = "logged_out ?h now d"
  have wf: "wf_core ?d"
    using exec_auth_effect [OF assms(1), of L "\<lambda>u. Inr ()" "Auth_logout e t"] logout_result [OF assms, of L] by simp
  have rev: "rt_revoked_at r \<noteq> None" if "r \<in> set (refresh_tokens ?d)" "rt_token_hash r = ?h" for r
    using that by (auto simp: logged_out_def split: if_splits)
  have "rt_created_at r \<le> the (rt_revoked_at r)" if "r \<in> set (refresh_tokens ?d)" "rt_token_hash r = ?h" for r
    using wf rev [OF that] that(1) by (auto simp: wf_core_def wf_tokens_def refresh_token_constraints_def)
  moreover have "filter (\<lambda>r. rt_token_hash r \<noteq> ?h) (refresh_tokens ?d) = filter (\<lambda>r. rt_token_hash r \<noteq> ?h) (refresh_tokens d)"
  proof -
    have "filter (\<lambda>r. rt_token_hash r \<noteq> ?h) (map (\<lambda>r. if rt_token_hash r = ?h \<and> rt_revoked_at r = None
        then r\<lparr>rt_revoked_at := Some (max now (rt_created_at r))\<rparr> else r) ts) =
      filter (\<lambda>r. rt_token_hash r \<noteq> ?h) ts" for ts
      by (induction ts) auto
    then show ?thesis by (simp add: logged_out_def)
  qed
  moreover have "logged_out ?h now ?d = ?d"
    using rev by (intro logged_out_same) blast
  ultimately show ?thesis
    using logout_result [OF assms] logout_result [OF wf assms(2-5)] rev
    by (intro exI [of _ ?d]) (simp add: list_all_iff)
qed

lemma demo_logout_facts:
  "refresh_token_pattern demo_token" "utc_instant (env_clock demo_early_env) = Some (- 5)"
  "env_commit demo_early_env = Commit_ok"
  by code_simp+

theorem logout_revokes_presented_credential_witness:
  "\<exists>d'. logout_refresh_token demo_libs demo_early_env demo_token (open_session demo_auth_db) =
     (Inr (), open_session d') \<and>
     list_all (\<lambda>r. rt_token_hash r = lib_sha256 demo_libs demo_token \<longrightarrow>
        rt_revoked_at r \<noteq> None \<and> rt_created_at r \<le> the (rt_revoked_at r)) (refresh_tokens d')"
proof -
  have "\<forall>n. \<not> env_flush_fails demo_early_env n"
    by (simp add: demo_early_env_def demo_register_env_def)
  from logout_revokes_presented_credential [OF demo_auth_db_wf demo_logout_facts this, of demo_libs]
  show ?thesis by blast
qed

section \<open>Failures\<close>

definition result_error :: "'a result \<Rightarrow> exn option" where
  "result_error r = (case r of Inl x \<Rightarrow> Some x | Inr _ \<Rightarrow> None)"

lemma result_error_iff: "result_error r = Some x \<longleftrightarrow> r = Inl x"
  by (auto simp: result_error_def split: sum.splits)

fun answer_error :: "'tok auth_response \<Rightarrow> exn option" where
  "answer_error (Answer_user r) = result_error r"
| "answer_error (Answer_issued r) = result_error r"
| "answer_error (Answer_rotated r) = result_error r"
| "answer_error (Answer_pair r) = result_error r"
| "answer_error (Answer_unit r) = result_error r"

fun auth_env :: "auth_request \<Rightarrow> env" where
  "auth_env (Auth_register e salt r) = e"
| "auth_env (Auth_email e u m) = e"
| "auth_env (Auth_issue e new u) = e"
| "auth_env (Auth_rotate e new t) = e"
| "auth_env (Auth_login e new c) = e"
| "auth_env (Auth_refresh e new t) = e"
| "auth_env (Auth_logout e t) = e"
| "auth_env (Auth_password e salt c u) = e"

text \<open>The exceptions that each use case may raise.\<close>

fun auth_errors :: "auth_request \<Rightarrow> exn set" where
  "auth_errors (Auth_register e salt r) = {DuplicateEmailError, EmailNormalizationError, PasswordPolicyError,
     ValidationError, DatabaseError, IntegrityError ''pk_users''}"
| "auth_errors (Auth_email e u m) = {DuplicateEmailError, ValidationError, DatabaseError}"
| "auth_errors (Auth_issue e new u) = {RefreshTokenIssuanceError}"
| "auth_errors (Auth_rotate e new t) = {InvalidRefreshTokenError, RefreshTokenRotationError}"
| "auth_errors (Auth_login e new c) = {InvalidCredentialsError, AuthenticationUnavailableError}"
| "auth_errors (Auth_refresh e new t) = {InvalidRefreshTokenError, AuthenticationUnavailableError}"
| "auth_errors (Auth_logout e t) = {AuthenticationUnavailableError}"
| "auth_errors (Auth_password e salt c u) = {InvalidCredentialsError, AuthenticationUnavailableError}"

lemma reraise_Inl: "reraise kept y r = Inl x \<Longrightarrow> x \<in> insert y kept \<and> (\<exists>z. r = Inl z)"
  by (auto simp: reraise_def split: sum.splits if_splits)

lemma transaction_error_unchanged:
  "fst (transaction outcome body s) = Inl x \<Longrightarrow> outcome \<noteq> Commit_lost \<Longrightarrow>
   committed (snd (transaction outcome body s)) = committed s"
  by (auto simp: transaction_def session_commit_def split: sum.splits prod.splits commit_outcome.splits)

lemma service_error:
  "reraise kept y (fst (transaction outcome body s)) = Inl x \<Longrightarrow> outcome \<noteq> Commit_lost \<Longrightarrow>
   x \<in> insert y kept \<and> committed (snd (transaction outcome body s)) = committed s"
  using transaction_error_unchanged [of outcome body s] by (auto dest!: reraise_Inl)

lemma normalize_email_Inl: "normalize_email L m = Inl x \<Longrightarrow> x = EmailNormalizationError"
  by (auto simp: normalize_email_def Let_def split: if_splits option.splits)

lemma validate_public_user_Inl: "validate_public_user L u = Inl x \<Longrightarrow> x = ValidationError"
  by (auto simp: validate_public_user_def split: sum.splits)

lemma user_write_error:
  assumes "report_duplicate (fst (transaction outcome (\<lambda>d.
        bind_result (w d) (\<lambda>(u, d'). bind_result (validate_public_user L u) (\<lambda>r. Inr (r, d')))) (open_session d))) = Inl x"
    and "outcome \<noteq> Commit_lost" "\<And>y. w d = Inl y \<Longrightarrow> y \<in> insert (IntegrityError ''uq_users_email'') E"
  shows "x \<in> E \<union> {DuplicateEmailError, ValidationError, DatabaseError} \<and>
    committed (snd (transaction outcome (\<lambda>d.
        bind_result (w d) (\<lambda>(u, d'). bind_result (validate_public_user L u) (\<lambda>r. Inr (r, d')))) (open_session d))) = d"
proof -
  let ?t = "transaction outcome (\<lambda>d.
        bind_result (w d) (\<lambda>(u, d'). bind_result (validate_public_user L u) (\<lambda>r. Inr (r, d')))) (open_session d)"
  from assms(1) obtain z where z: "fst ?t = Inl z"
    "x = (if is_user_email_unique_violation z then DuplicateEmailError else z)"
    by (auto simp: report_duplicate_def split: sum.splits if_splits)
  from transaction_fst_Inl [OF z(1)] assms(3) have "z \<in> insert (IntegrityError ''uq_users_email'') E \<union> {ValidationError, DatabaseError}"
    by (auto simp: bind_result_eq_Inl dest: validate_public_user_Inl)
  with z transaction_error_unchanged [OF z(1) assms(2)] show ?thesis
    by (auto simp: is_user_email_unique_violation_def)
qed

lemma register_error:
  assumes "fst (register_user L e salt id r (open_session d)) = Inl x" "env_commit e \<noteq> Commit_lost"
  shows "committed (snd (register_user L e salt id r (open_session d))) = d \<and> x \<in> auth_errors (Auth_register e salt r)"
proof -
  have "y \<in> insert (IntegrityError ''uq_users_email'') {DatabaseError, IntegrityError ''pk_users''}"
    if "user_repo_create e m h d = Inl y" for m h y
    using that by (auto simp: user_repo_create_def Let_def bind_result_eq_Inl flush_row_def violated_def
        split: if_splits)
  note w = user_write_error [where d = d, OF _ assms(2) this]
  show ?thesis
    using assms(1)
    by (auto simp: register_user_def interleave_def bind_result_eq_Inl hash_password_def validate_password_def
        dest: normalize_email_Inl w split: sum.splits if_splits)
qed

lemma email_error:
  assumes "fst (update_current_user_email L e id m u (open_session d)) = Inl x" "env_commit e \<noteq> Commit_lost"
  shows "committed (snd (update_current_user_email L e id m u (open_session d))) = d \<and> x \<in> auth_errors (Auth_email e u m)"
proof -
  have "y \<in> insert (IntegrityError ''uq_users_email'') {DatabaseError}"
    if "update_email e u m d = Inl y" for y
    using that by (auto simp: update_email_def Let_def bind_result_eq_Inl flush_row_def violated_def
        split: if_splits)
  note w = user_write_error [where d = d, OF _ assms(2) this]
  show ?thesis
    using assms(1)
    by (auto simp: update_current_user_email_def interleave_def dest: validate_public_user_Inl w split: if_splits)
qed

text \<open>Failures are closed and clean. Whenever an account or credential request fails and its
  commit was not lost, the database is exactly as before, and the exception is one of the few that
  the use case documents; no database diagnostic, signing or hashing error passes through the
  credential operations.\<close>

theorem auth_failure_stores_nothing:
  assumes "answer_error (fst (exec_auth L iss a d)) = Some x" "env_commit (auth_env a) \<noteq> Commit_lost"
  shows "snd (exec_auth L iss a d) = d \<and> x \<in> auth_errors a"
  using assms
  by (cases a)
     (auto simp: result_error_iff fst_map_prod snd_map_prod issue_refresh_token_def rotate_refresh_token_def
        logout_refresh_token_def authenticate_user_def refresh_authentication_def change_password_def
        dest!: service_error register_error email_error)

lemma demo_auth_failure:
  "answer_error (fst (exec_auth demo_libs demo_issuer
     (Auth_password demo_register_env 3 (demo_password_change\<lparr>pcr_current := ''wrong''\<rparr>) 1) demo_auth_db)) =
   Some InvalidCredentialsError"
  "env_commit (auth_env (Auth_password demo_register_env 3 (demo_password_change\<lparr>pcr_current := ''wrong''\<rparr>) 1))
     \<noteq> Commit_lost"
  by code_simp+

theorem auth_failure_stores_nothing_witness:
  "snd (exec_auth demo_libs demo_issuer
     (Auth_password demo_register_env 3 (demo_password_change\<lparr>pcr_current := ''wrong''\<rparr>) 1) demo_auth_db) = demo_auth_db"
  using auth_failure_stores_nothing [OF demo_auth_failure] by blast

end
