(* ===== verification/Agent_Tools.thy ===== *)
theory Agent_Tools
  imports Tasks Complex_Main
begin

text \<open>
  The allowlisted tools of the agent: \<open>app/agent/tools.py\<close>, \<open>app/agent/policy.py\<close>,
  \<open>app/agent/context.py\<close>, \<open>app/schemas/agent_tool.py\<close>, the contracts of
  \<open>app/schemas/knowledge_retrieval.py\<close> and the gateway of \<open>app/services/agent_domain.py\<close>.
  Arguments arrive as JSON. How Pydantic converts one JSON value to a field type is a parameter,
  \<open>pydantic_rules\<close>; which fields a tool has, which are required, which may be null, their defaults,
  bounds and validators are the source's. A gateway is a record of operations on the database;
  knowledge search, which calls an embedding service, is a parameter of it.
\<close>

section \<open>JSON arguments\<close>

datatype json = J_null | J_bool bool | J_int int | J_float rat | J_str string
  | J_list "json list" | J_obj "(string \<times> json) list"

type_synonym json_object = "(string \<times> json) list"

record pydantic_rules =
  to_uuid :: "json \<Rightarrow> uuid option"
  to_int :: "json \<Rightarrow> int option"
  to_bool :: "json \<Rightarrow> bool option"
  to_date :: "json \<Rightarrow> date option"
  to_datetime :: "json \<Rightarrow> datetime option"

text \<open>Strings are not converted, members of a \<open>StrEnum\<close> are given by their value.\<close>

fun to_str :: "json \<Rightarrow> string option" where
  "to_str (J_str s) = Some s"
| "to_str _ = None"

definition to_enum :: "(string \<times> 'a) list \<Rightarrow> json \<Rightarrow> 'a option" where
  "to_enum members v = (case v of J_str s \<Rightarrow> map_of members s | _ \<Rightarrow> None)"

definition priority_members :: "(string \<times> task_priority) list" where
  "priority_members = [(''LOW'', LOW), (''MEDIUM'', MEDIUM), (''HIGH'', HIGH), (''URGENT'', URGENT)]"

definition status_members :: "(string \<times> task_status) list" where
  "status_members = [(''TODO'', TODO), (''IN_PROGRESS'', IN_PROGRESS), (''COMPLETED'', COMPLETED),
     (''CANCELLED'', CANCELLED)]"

definition sort_members :: "(string \<times> task_sort_field) list" where
  "sort_members = [(''created_at'', SORT_CREATED_AT), (''updated_at'', SORT_UPDATED_AT),
     (''due_at'', SORT_DUE_AT), (''planned_date'', SORT_PLANNED_DATE), (''title'', SORT_TITLE)]"

definition direction_members :: "(string \<times> sort_direction) list" where
  "direction_members = [(''asc'', ASC), (''desc'', DESC)]"

text \<open>\<open>extra="forbid"\<close>\<close>

definition only_fields :: "string list \<Rightarrow> json_object \<Rightarrow> bool" where
  "only_fields names obj \<longleftrightarrow> list_all (\<lambda>(k, _). k \<in> set names) obj"

definition required :: "(json \<Rightarrow> 'a option) \<Rightarrow> string \<Rightarrow> json_object \<Rightarrow> 'a result" where
  "required dec k obj =
     (case map_of obj k of
        None \<Rightarrow> Inl ValidationError
      | Some v \<Rightarrow> (case dec v of None \<Rightarrow> Inl ValidationError | Some x \<Rightarrow> Inr x))"

definition with_default :: "'a \<Rightarrow> (json \<Rightarrow> 'a option) \<Rightarrow> string \<Rightarrow> json_object \<Rightarrow> 'a result" where
  "with_default x dec k obj = (case map_of obj k of None \<Rightarrow> Inr x | Some _ \<Rightarrow> required dec k obj)"

text \<open>A field of type \<open>T | None\<close>: not supplied, null, or a value.\<close>

definition supplied :: "(json \<Rightarrow> 'a option) \<Rightarrow> string \<Rightarrow> json_object \<Rightarrow> 'a option option result" where
  "supplied dec k obj =
     (case map_of obj k of
        None \<Rightarrow> Inr None
      | Some J_null \<Rightarrow> Inr (Some None)
      | Some v \<Rightarrow> (case dec v of None \<Rightarrow> Inl ValidationError | Some x \<Rightarrow> Inr (Some (Some x))))"

definition optional :: "(json \<Rightarrow> 'a option) \<Rightarrow> string \<Rightarrow> json_object \<Rightarrow> 'a option result" where
  "optional dec k obj =
     bind_result (supplied dec k obj) (\<lambda>v. Inr (case v of None \<Rightarrow> None | Some x \<Rightarrow> x))"

section \<open>Argument contracts\<close>

record runtime_context =
  ctx_user_id :: uuid
  write_tools_enabled :: bool

record list_projects_arguments =
  lp_page :: nat
  lp_page_size :: nat
  lp_include_archived :: bool

definition list_projects_arguments ::
  "pydantic_rules \<Rightarrow> json_object \<Rightarrow> list_projects_arguments result" where
  "list_projects_arguments P obj =
     bind_result (guard (only_fields [''page'', ''page_size'', ''include_archived''] obj) ValidationError) (\<lambda>_.
       bind_result (with_default 1 (to_int P) ''page'' obj) (\<lambda>page.
         bind_result (with_default 20 (to_int P) ''page_size'' obj) (\<lambda>n.
           bind_result (with_default False (to_bool P) ''include_archived'' obj) (\<lambda>archived.
             if 1 \<le> page \<and> 1 \<le> n \<and> n \<le> 100
             then Inr \<lparr>lp_page = nat page, lp_page_size = nat n, lp_include_archived = archived\<rparr>
             else Inl ValidationError))))"

definition list_query_fields :: "string list" where
  "list_query_fields = [''page'', ''page_size'', ''project_id'', ''status'', ''priority'', ''planned_from'',
     ''planned_to'', ''due_from'', ''due_to'', ''overdue'', ''title'', ''sort_by'', ''sort_direction'']"

definition list_tasks_arguments :: "pydantic_rules \<Rightarrow> json_object \<Rightarrow> task_list_query result" where
  "list_tasks_arguments P obj =
     bind_result (guard (only_fields list_query_fields obj) ValidationError) (\<lambda>_.
     bind_result (with_default 1 (to_int P) ''page'' obj) (\<lambda>page.
     bind_result (with_default 20 (to_int P) ''page_size'' obj) (\<lambda>n.
     bind_result (optional (to_uuid P) ''project_id'' obj) (\<lambda>project.
     bind_result (optional (to_enum status_members) ''status'' obj) (\<lambda>status.
     bind_result (optional (to_enum priority_members) ''priority'' obj) (\<lambda>priority.
     bind_result (optional (to_date P) ''planned_from'' obj) (\<lambda>planned_from.
     bind_result (optional (to_date P) ''planned_to'' obj) (\<lambda>planned_to.
     bind_result (optional (to_datetime P) ''due_from'' obj) (\<lambda>due_from.
     bind_result (optional (to_datetime P) ''due_to'' obj) (\<lambda>due_to.
     bind_result (optional (to_bool P) ''overdue'' obj) (\<lambda>overdue.
     bind_result (optional to_str ''title'' obj) (\<lambda>title.
     bind_result (with_default SORT_CREATED_AT (to_enum sort_members) ''sort_by'' obj) (\<lambda>sort_by.
     bind_result (with_default DESC (to_enum direction_members) ''sort_direction'' obj) (\<lambda>dir.
       validate_task_list_query
         \<lparr>rq_page = page, rq_page_size = n, rq_project_id = project, rq_status = status,
          rq_priority = priority, rq_planned_from = planned_from, rq_planned_to = planned_to,
          rq_due_from = due_from, rq_due_to = due_to, rq_overdue = overdue, rq_title = title,
          rq_sort_by = sort_by, rq_sort_direction = dir\<rparr>))))))))))))))"

record knowledge_search_query =
  ks_query :: string
  ks_top_k :: nat
  ks_document_ids :: "uuid list option"

fun to_uuids :: "pydantic_rules \<Rightarrow> json \<Rightarrow> uuid list option" where
  "to_uuids P (J_list vs) =
     (if list_all (\<lambda>v. to_uuid P v \<noteq> None) vs then Some (map (\<lambda>v. the (to_uuid P v)) vs) else None)"
| "to_uuids P _ = None"

definition search_knowledge_arguments ::
  "pydantic_rules \<Rightarrow> json_object \<Rightarrow> knowledge_search_query result" where
  "search_knowledge_arguments P obj =
     bind_result (guard (only_fields [''query'', ''top_k'', ''document_ids''] obj) ValidationError) (\<lambda>_.
       bind_result (required to_str ''query'' obj) (\<lambda>q.
         bind_result (with_default 10 (to_int P) ''top_k'' obj) (\<lambda>k.
           bind_result (optional (to_uuids P) ''document_ids'' obj) (\<lambda>ids.
             if len_between 1 2000 q \<and> 1 \<le> k \<and> k \<le> 20 \<and> opt_all (\<lambda>l. length l \<le> 20) ids \<and> strip q \<noteq> []
             then Inr \<lparr>ks_query = strip q, ks_top_k = nat k, ks_document_ids = ids\<rparr>
             else Inl ValidationError))))"

definition create_fields :: "string list" where
  "create_fields = [''project_id'', ''title'', ''description'', ''planned_date'', ''due_at'',
     ''estimated_minutes'', ''priority'']"

definition create_task_arguments :: "pydantic_rules \<Rightarrow> json_object \<Rightarrow> task_create result" where
  "create_task_arguments P obj =
     bind_result (guard (only_fields create_fields obj) ValidationError) (\<lambda>_.
     bind_result (required (to_uuid P) ''project_id'' obj) (\<lambda>project.
     bind_result (required to_str ''title'' obj) (\<lambda>title.
     bind_result (optional to_str ''description'' obj) (\<lambda>description.
     bind_result (optional (to_date P) ''planned_date'' obj) (\<lambda>planned_date.
     bind_result (optional (to_datetime P) ''due_at'' obj) (\<lambda>due_at.
     bind_result (optional (to_int P) ''estimated_minutes'' obj) (\<lambda>minutes.
     bind_result (with_default MEDIUM (to_enum priority_members) ''priority'' obj) (\<lambda>priority.
       validate_task_create
         \<lparr>rc_project_id = project, rc_title = title, rc_description = description,
          rc_planned_date = planned_date, rc_due_at = due_at, rc_estimated_minutes = minutes,
          rc_priority = priority\<rparr>))))))))"

definition update_fields :: "string list" where
  "update_fields = [''task_id'', ''title'', ''description'', ''planned_date'', ''due_at'',
     ''estimated_minutes'', ''priority'', ''status'']"

definition update_task_arguments :: "pydantic_rules \<Rightarrow> json_object \<Rightarrow> (uuid \<times> task_update) result" where
  "update_task_arguments P obj =
     bind_result (guard (only_fields update_fields obj) ValidationError) (\<lambda>_.
     bind_result (required (to_uuid P) ''task_id'' obj) (\<lambda>task_id.
     bind_result (supplied to_str ''title'' obj) (\<lambda>title.
     bind_result (supplied to_str ''description'' obj) (\<lambda>description.
     bind_result (supplied (to_date P) ''planned_date'' obj) (\<lambda>planned_date.
     bind_result (supplied (to_datetime P) ''due_at'' obj) (\<lambda>due_at.
     bind_result (supplied (to_int P) ''estimated_minutes'' obj) (\<lambda>minutes.
     bind_result (supplied (to_enum priority_members) ''priority'' obj) (\<lambda>priority.
     bind_result (supplied (to_enum status_members) ''status'' obj) (\<lambda>status.
     bind_result (validate_task_update
         \<lparr>ru_title = title, ru_description = description, ru_planned_date = planned_date,
          ru_due_at = due_at, ru_estimated_minutes = minutes, ru_priority = priority,
          ru_status = status\<rparr>) (\<lambda>u. Inr (task_id, u)))))))))))"

fun to_task_creates :: "pydantic_rules \<Rightarrow> json \<Rightarrow> task_create list result" where
  "to_task_creates P (J_list vs) =
     traverse (\<lambda>v. case v of J_obj obj \<Rightarrow> create_task_arguments P obj | _ \<Rightarrow> Inl ValidationError) vs"
| "to_task_creates P _ = Inl ValidationError"

definition batch_create_arguments :: "pydantic_rules \<Rightarrow> json_object \<Rightarrow> task_create list result" where
  "batch_create_arguments P obj =
     bind_result (guard (only_fields [''tasks''] obj) ValidationError) (\<lambda>_.
       bind_result (required Some ''tasks'' obj) (\<lambda>v.
         bind_result (to_task_creates P v) (\<lambda>cs.
           if 1 \<le> length cs \<and> length cs \<le> 10 \<and> card (tc_project_id ` set cs) = 1
           then Inr cs else Inl ValidationError)))"

definition delete_task_arguments :: "pydantic_rules \<Rightarrow> json_object \<Rightarrow> uuid result" where
  "delete_task_arguments P obj =
     bind_result (guard (only_fields [''task_id''] obj) ValidationError) (\<lambda>_.
       required (to_uuid P) ''task_id'' obj)"

section \<open>Capabilities\<close>

definition high_impact_tool_names :: "string list" where
  "high_impact_tool_names = [''batch_create_tasks'', ''delete_task'']"

definition is_high_impact_tool :: "string \<Rightarrow> bool" where
  "is_high_impact_tool name \<longleftrightarrow> name \<in> set high_impact_tool_names"

definition read_tool_names :: "string list" where
  "read_tool_names = [''list_projects'', ''list_tasks'', ''search_knowledge'']"

definition standard_write_tool_names :: "string list" where
  "standard_write_tool_names = [''create_task'', ''update_task'']"

definition write_tool_names :: "string list" where
  "write_tool_names = standard_write_tool_names @ high_impact_tool_names"

definition tool_names :: "string list" where
  "tool_names = read_tool_names @ write_tool_names"

definition available_tool_names :: "runtime_context \<Rightarrow> string list" where
  "available_tool_names ctx = (if write_tools_enabled ctx then tool_names else read_tool_names)"

datatype tool_arguments =
    Args_list_projects list_projects_arguments
  | Args_list_tasks task_list_query
  | Args_search knowledge_search_query
  | Args_create task_create
  | Args_update uuid task_update
  | Args_batch "task_create list"
  | Args_delete uuid

text \<open>\<open>except ValidationError: raise AgentToolInputError\<close>\<close>

definition input_error :: "'a result \<Rightarrow> 'a result" where
  "input_error r = (case r of Inl x \<Rightarrow> Inl (if x = ValidationError then AgentToolInputError else x) | Inr v \<Rightarrow> Inr v)"

definition validate_tool_arguments ::
  "pydantic_rules \<Rightarrow> string \<Rightarrow> json_object \<Rightarrow> runtime_context \<Rightarrow> tool_arguments result" where
  "validate_tool_arguments P name arguments ctx =
     (if name \<notin> set tool_names then Inl AgentToolNotAllowedError
      else if name \<in> set write_tool_names \<and> \<not> write_tools_enabled ctx then Inl AgentToolNotAllowedError
      else input_error
        (if name = ''list_projects'' then map_sum id Args_list_projects (list_projects_arguments P arguments)
         else if name = ''list_tasks'' then map_sum id Args_list_tasks (list_tasks_arguments P arguments)
         else if name = ''search_knowledge'' then map_sum id Args_search (search_knowledge_arguments P arguments)
         else if name = ''create_task'' then map_sum id Args_create (create_task_arguments P arguments)
         else if name = ''update_task'' then
           map_sum id (\<lambda>(i, u). Args_update i u) (update_task_arguments P arguments)
         else if name = ''batch_create_tasks'' then map_sum id Args_batch (batch_create_arguments P arguments)
         else map_sum id Args_delete (delete_task_arguments P arguments)))"

section \<open>Results and the gateway\<close>

record knowledge_citation =
  kc_citation_id :: string
  kc_document_id :: uuid
  kc_chunk_id :: uuid
  kc_source :: string
  kc_page_number :: "int option"
  kc_ordinal :: int
  kc_distance :: "rat option"
  kc_vector_rank :: "int option"
  kc_lexical_rank :: "int option"
  kc_fusion_score :: rat
  kc_excerpt :: string

type_synonym knowledge_search_result = "knowledge_citation list"

record tool_mutation_result =
  mut_operation :: string
  mut_reference_task_id :: uuid
  mut_affected_count :: int
  mut_summary :: string

definition tool_mutation_result :: "string \<Rightarrow> uuid \<Rightarrow> int \<Rightarrow> string \<Rightarrow> tool_mutation_result result" where
  "tool_mutation_result operation reference n summary =
     (if operation \<in> set high_impact_tool_names \<and> 1 \<le> n \<and> n \<le> 10 \<and> len_between 1 100 summary
      then Inr \<lparr>mut_operation = operation, mut_reference_task_id = reference, mut_affected_count = n,
                mut_summary = summary\<rparr>
      else Inl ValidationError)"

datatype tool_result =
    Res_projects project_list_response
  | Res_tasks task_list_response
  | Res_knowledge knowledge_search_result
  | Res_task public_task
  | Res_mutation tool_mutation_result

datatype write_tool_result = Wrote_task public_task | Wrote_mutation tool_mutation_result

record gateway =
  gw_list_projects :: "uuid \<Rightarrow> nat \<Rightarrow> nat \<Rightarrow> bool \<Rightarrow> db \<Rightarrow> project_list_response result \<times> db"
  gw_list_tasks :: "uuid \<Rightarrow> task_list_query \<Rightarrow> db \<Rightarrow> task_list_response result \<times> db"
  gw_search_knowledge :: "uuid \<Rightarrow> knowledge_search_query \<Rightarrow> db \<Rightarrow> knowledge_search_result result \<times> db"
  gw_create_task :: "uuid \<Rightarrow> task_create \<Rightarrow> db \<Rightarrow> public_task result \<times> db"
  gw_update_task :: "uuid \<Rightarrow> uuid \<Rightarrow> task_update \<Rightarrow> db \<Rightarrow> public_task result \<times> db"
  gw_batch_create_tasks :: "uuid \<Rightarrow> task_create list \<Rightarrow> db \<Rightarrow> tool_mutation_result result \<times> db"
  gw_delete_task :: "uuid \<Rightarrow> uuid \<Rightarrow> db \<Rightarrow> tool_mutation_result result \<times> db"

text \<open>Decimal text of a number, as \<open>f"{n}"\<close> prints it.\<close>

fun digits_of :: "nat \<Rightarrow> string" where
  "digits_of n = (if n < 10 then [char_of (48 + n)] else digits_of (n div 10) @ [char_of (48 + n mod 10)])"

declare digits_of.simps [simp del]

text \<open>
  \<open>AgentDomainGateway\<close>: each operation opens a Session, calls its service and closes it. The
  environment of the operation's Session and the database's text rules are parameters.
\<close>

definition domain_batch_create ::
  "env \<Rightarrow> uuid \<Rightarrow> task_create list \<Rightarrow> db \<Rightarrow> tool_mutation_result result \<times> db" where
  "domain_batch_create e user_id cs d =
     (case create_task_batch e cs user_id (open_session d) of
        (Inl x, s) \<Rightarrow> (Inl x, committed s)
      | (Inr created, s) \<Rightarrow>
          (tool_mutation_result ''batch_create_tasks'' (pt_id (hd created)) (int (length created))
             (''Created '' @ digits_of (length created) @ '' tasks''), committed s))"

definition domain_delete_task :: "env \<Rightarrow> uuid \<Rightarrow> uuid \<Rightarrow> db \<Rightarrow> tool_mutation_result result \<times> db" where
  "domain_delete_task e user_id task_id d =
     (case delete_owned_task e task_id user_id (open_session d) of
        (Inl x, s) \<Rightarrow> (Inl x, committed s)
      | (Inr _, s) \<Rightarrow> (tool_mutation_result ''delete_task'' task_id 1 ''Task deleted'', committed s))"

definition agent_domain_gateway ::
  "env \<Rightarrow> text_rules \<Rightarrow> (uuid \<Rightarrow> knowledge_search_query \<Rightarrow> db \<Rightarrow> knowledge_search_result result) \<Rightarrow> gateway" where
  "agent_domain_gateway e tr search =
     \<lparr>gw_list_projects = (\<lambda>u page n archived d.
        map_prod id committed (list_owned_projects u page n archived (open_session d))),
      gw_list_tasks = (\<lambda>u q d. (list_owned_tasks tr (env_clock e) q u d, d)),
      gw_search_knowledge = (\<lambda>u q d. (search u q d, d)),
      gw_create_task = (\<lambda>u c d. map_prod id committed (create_task e c u (open_session d))),
      gw_update_task = (\<lambda>u i c d. map_prod id committed (update_owned_task e i c u (open_session d))),
      gw_batch_create_tasks = domain_batch_create e,
      gw_delete_task = domain_delete_task e\<rparr>"

section \<open>Dispatch\<close>

text \<open>
  Validated arguments cross the service boundary through the schema once more
  (\<open>TaskCreate.model_validate(validated.model_dump())\<close>, \<open>to_task_update\<close>). A validated instant is
  an aware datetime in UTC.
\<close>

definition raw_of_create :: "task_create \<Rightarrow> raw_task_create" where
  "raw_of_create c = \<lparr>rc_project_id = tc_project_id c, rc_title = tc_title c, rc_description = tc_description c,
     rc_planned_date = tc_planned_date c, rc_due_at = map_option (\<lambda>t. Aware t 0) (tc_due_at c),
     rc_estimated_minutes = tc_estimated_minutes c, rc_priority = tc_priority c\<rparr>"

definition raw_of_update :: "task_update \<Rightarrow> raw_task_update" where
  "raw_of_update u = \<lparr>ru_title = map_option Some (tu_title u), ru_description = tu_description u,
     ru_planned_date = tu_planned_date u, ru_due_at = map_option (map_option (\<lambda>t. Aware t 0)) (tu_due_at u),
     ru_estimated_minutes = tu_estimated_minutes u, ru_priority = map_option Some (tu_priority u),
     ru_status = map_option Some (tu_status u)\<rparr>"

definition to_task_update :: "task_update \<Rightarrow> task_update result" where
  "to_task_update u = validate_task_update (raw_of_update u)"

definition run_tool ::
  "gateway \<Rightarrow> uuid \<Rightarrow> tool_arguments \<Rightarrow> db \<Rightarrow> tool_result result \<times> db" where
  "run_tool gw user_id args d =
     (case args of
        Args_list_projects a \<Rightarrow>
          map_prod (map_sum id Res_projects) id
            (gw_list_projects gw user_id (lp_page a) (lp_page_size a) (lp_include_archived a) d)
      | Args_list_tasks q \<Rightarrow> map_prod (map_sum id Res_tasks) id (gw_list_tasks gw user_id q d)
      | Args_search q \<Rightarrow> map_prod (map_sum id Res_knowledge) id (gw_search_knowledge gw user_id q d)
      | Args_create c \<Rightarrow>
          (case validate_task_create (raw_of_create c) of
             Inl x \<Rightarrow> (Inl x, d)
           | Inr c' \<Rightarrow> map_prod (map_sum id Res_task) id (gw_create_task gw user_id c' d))
      | Args_update i u \<Rightarrow>
          (case to_task_update u of
             Inl x \<Rightarrow> (Inl x, d)
           | Inr u' \<Rightarrow> map_prod (map_sum id Res_task) id (gw_update_task gw user_id i u' d))
      | Args_batch cs \<Rightarrow> map_prod (map_sum id Res_mutation) id (gw_batch_create_tasks gw user_id cs d)
      | Args_delete i \<Rightarrow> map_prod (map_sum id Res_mutation) id (gw_delete_task gw user_id i d))"

definition execute_tool ::
  "pydantic_rules \<Rightarrow> gateway \<Rightarrow> string \<Rightarrow> json_object \<Rightarrow> runtime_context \<Rightarrow> db \<Rightarrow> tool_result result \<times> db" where
  "execute_tool P gw name arguments ctx d =
     (case validate_tool_arguments P name arguments ctx of
        Inl x \<Rightarrow> (Inl x, d)
      | Inr validated \<Rightarrow> run_tool gw (ctx_user_id ctx) validated d)"

text \<open>An instance of the expected model passes \<open>model_validate\<close> as it is.\<close>

definition validate_write_tool_result :: "string \<Rightarrow> tool_result \<Rightarrow> write_tool_result result" where
  "validate_write_tool_result name result =
     (if name \<in> set standard_write_tool_names then
        (case result of
           Res_task t \<Rightarrow> Inr (Wrote_task t)
         | _ \<Rightarrow> Inl ValidationError)
      else if name \<in> set high_impact_tool_names then
        (case result of
           Res_mutation m \<Rightarrow> if mut_operation m \<noteq> name then Inl ValueError else Inr (Wrote_mutation m)
         | _ \<Rightarrow> Inl ValidationError)
      else Inl AgentToolNotAllowedError)"

section \<open>Revalidation changes nothing\<close>

lemma strip_fixed: "strip s = s" if "\<exists>t. s = strip t" for s
  using that by auto

lemma normalize_description_idem [simp]:
  "normalize_description (normalize_description v) = normalize_description v"
  by (auto simp: normalize_description_def split: option.splits)

lemma normalize_due_at_aware [simp]: "normalize_due_at (map_option (\<lambda>t. Aware t 0) v) = Inr v"
  by (cases v) (simp_all add: normalize_due_at_def task_utc_def)

lemma revalidate_create:
  assumes "validate_task_create raw = Inr c"
  shows "validate_task_create (raw_of_create c) = Inr c"
proof -
  obtain due where "normalize_due_at (rc_due_at raw) = Inr due"
    using assms by (cases "normalize_due_at (rc_due_at raw)") (auto simp: validate_task_create_def Let_def)
  with assms show ?thesis
    by (auto simp: validate_task_create_def raw_of_create_def Let_def split: if_splits)
qed

lemma normalize_aware [simp]:
  "supplied_due_at (map_option (map_option (\<lambda>t. Aware t 0)) v) = Inr v"
  by (auto simp: supplied_due_at_def normalize_due_at_def task_utc_def split: option.splits)

lemma non_null_Some [simp]: "non_null (map_option Some v) = Inr v"
  by (cases v) (simp_all add: non_null_def)

lemma revalidate_update:
  assumes "validate_task_update raw = Inr u"
  shows "to_task_update u = Inr u"
proof -
  obtain title due priority status where
    f: "non_null (ru_title raw) = Inr title" "supplied_due_at (ru_due_at raw) = Inr due"
       "non_null (ru_priority raw) = Inr priority" "non_null (ru_status raw) = Inr status"
       "reserve_completion_action status = Inr status" and
    u: "u = \<lparr>tu_title = map_option strip title,
                   tu_description = map_option normalize_description (ru_description raw),
                   tu_planned_date = ru_planned_date raw, tu_due_at = due,
                   tu_estimated_minutes = ru_estimated_minutes raw,
                   tu_priority = priority, tu_status = status\<rparr>" and
    ok: "opt_all (len_between 1 300) (tu_title u)" "opt_all (opt_all (len_between 0 5000)) (tu_description u)"
      "opt_all minutes_ok (tu_estimated_minutes u)" "validate_partial_update u = Inr ()"
    using assms
    by (auto simp: validate_task_update_def Let_def bind_result_eq_Inr reserve_completion_action_def
        split: sum.splits if_splits)
  have "map_option strip (tu_title u) = tu_title u"
    "map_option normalize_description (tu_description u) = tu_description u"
    by (simp_all add: u option.map_comp comp_def)
  then have "\<lparr>tu_title = map_option strip (tu_title u),
      tu_description = map_option normalize_description (tu_description u),
      tu_planned_date = tu_planned_date u, tu_due_at = tu_due_at u,
      tu_estimated_minutes = tu_estimated_minutes u, tu_priority = tu_priority u, tu_status = tu_status u\<rparr> = u"
    by simp
  moreover have "reserve_completion_action (tu_status u) = Inr (tu_status u)"
    using f(5) by (simp add: u)
  ultimately show ?thesis
    using ok by (simp add: to_task_update_def validate_task_update_def raw_of_update_def Let_def)
qed

section \<open>Confinement\<close>

lemma domain_batch_create_db:
  "snd (domain_batch_create e u cs d) = committed (snd (create_task_batch e cs u (open_session d)))"
  by (simp add: domain_batch_create_def split: prod.splits sum.splits)

lemma domain_delete_task_db:
  "snd (domain_delete_task e u i d) = committed (snd (delete_owned_task e i u (open_session d)))"
  by (simp add: domain_delete_task_def split: prod.splits sum.splits)

lemma run_tool_effect:
  assumes "distinct (map t_id (tasks d))"
  shows "task_effect False u d (snd (run_tool (agent_domain_gateway e tr search) u args d))"
  by (cases args)
     (simp_all add: run_tool_def agent_domain_gateway_def snd_map_prod list_owned_projects_def Let_def
        domain_batch_create_db domain_delete_task_db create_task_effect [OF assms]
        create_task_batch_effect [OF assms] update_owned_task_effect delete_owned_task_effect
        split: sum.splits)

lemma validate_tool_arguments_read_only:
  assumes "validate_tool_arguments P name obj ctx = Inr args" "\<not> write_tools_enabled ctx"
  shows "(\<exists>a. args = Args_list_projects a) \<or> (\<exists>q. args = Args_list_tasks q) \<or> (\<exists>q. args = Args_search q)"
proof -
  have "name \<in> set read_tool_names"
    using assms by (auto simp: validate_tool_arguments_def tool_names_def split: if_splits)
  then show ?thesis
    using assms(1)
    by (auto simp: read_tool_names_def validate_tool_arguments_def input_error_def map_sum_def
        split: if_splits sum.splits)
qed

lemma run_tool_read_only:
  "(\<exists>a. args = Args_list_projects a) \<or> (\<exists>q. args = Args_list_tasks q) \<or> (\<exists>q. args = Args_search q) \<Longrightarrow>
   snd (run_tool (agent_domain_gateway e tr search) u args d) = d"
  by (auto simp: run_tool_def agent_domain_gateway_def snd_map_prod list_owned_projects_def Let_def)

text \<open>An agent tool call, whatever name and JSON arguments the model produced, keeps the database
  well-formed and either leaves it alone or adds, edits or deletes Tasks of the trusted runtime user
  only, never completing one; when the host did not grant write tools it changes nothing.\<close>

theorem agent_tool_confined:
  assumes "wf_core d"
  shows "let d' = snd (execute_tool P (agent_domain_gateway e tr search) name arguments ctx d) in
         wf_core d' \<and> task_effect False (ctx_user_id ctx) d d' \<and> (write_tools_enabled ctx \<or> d' = d)"
proof -
  let ?r = "execute_tool P (agent_domain_gateway e tr search) name arguments ctx d"
  have effect: "task_effect False (ctx_user_id ctx) d (snd ?r)"
    using run_tool_effect [OF wf_core_distinct_tasks [OF assms]]
    by (auto simp: execute_tool_def split: sum.splits)
  moreover have "snd ?r = d" if "\<not> write_tools_enabled ctx"
    using validate_tool_arguments_read_only [OF _ that] run_tool_read_only
    by (auto simp: execute_tool_def split: sum.splits)
  ultimately show ?thesis
    using task_effect_wf_core [OF effect assms] by (auto simp: Let_def)
qed

definition demo_rules_json :: pydantic_rules where
  "demo_rules_json = \<lparr>to_uuid = (\<lambda>v. case v of J_int n \<Rightarrow> Some (nat n) | _ \<Rightarrow> None),
     to_int = (\<lambda>v. case v of J_int n \<Rightarrow> Some n | _ \<Rightarrow> None),
     to_bool = (\<lambda>v. case v of J_bool b \<Rightarrow> Some b | _ \<Rightarrow> None),
     to_date = (\<lambda>v. case v of J_int n \<Rightarrow> Some n | _ \<Rightarrow> None),
     to_datetime = (\<lambda>v. case v of J_int n \<Rightarrow> Some (Aware n 0) | _ \<Rightarrow> None)\<rparr>"

definition demo_ctx :: runtime_context where
  "demo_ctx = \<lparr>ctx_user_id = 1, write_tools_enabled = True\<rparr>"

definition demo_gateway :: gateway where
  "demo_gateway = agent_domain_gateway demo_env demo_rules (\<lambda>u q d. Inr [])"

theorem agent_tool_confined_witness:
  "wf_core (snd (execute_tool demo_rules_json (agent_domain_gateway demo_env demo_rules (\<lambda>u q d. Inr []))
     ''delete_task'' [(''task_id'', J_int 20)] demo_ctx demo_tasks_db))"
  using agent_tool_confined [OF demo_tasks_db_wf, of demo_rules_json demo_env demo_rules "\<lambda>u q d. Inr []"
    "''delete_task''" "[(''task_id'', J_int 20)]" demo_ctx]
  by (simp add: Let_def)

lemma only_fields_rejects: "(k, v) \<in> set obj \<Longrightarrow> k \<notin> set names \<Longrightarrow> \<not> only_fields names obj"
  by (auto simp: only_fields_def list_all_iff)

text \<open>Ownership cannot be supplied by the model. Arguments that carry any field outside of a tool's
  contract, in particular \<open>user_id\<close>, are refused by every tool before a gateway is called, and the
  database is untouched.\<close>

theorem agent_tool_rejects_identity:
  assumes "(''user_id'', v) \<in> set arguments"
  shows "execute_tool P gw name arguments ctx d \<in> {(Inl AgentToolInputError, d), (Inl AgentToolNotAllowedError, d)}"
proof -
  have no: "\<not> only_fields names arguments" if "''user_id'' \<notin> set names" for names
    using only_fields_rejects [OF assms that] .
  have "list_projects_arguments P arguments = Inl ValidationError" "list_tasks_arguments P arguments = Inl ValidationError"
    "search_knowledge_arguments P arguments = Inl ValidationError" "create_task_arguments P arguments = Inl ValidationError"
    "update_task_arguments P arguments = Inl ValidationError" "batch_create_arguments P arguments = Inl ValidationError"
    "delete_task_arguments P arguments = Inl ValidationError"
    by (simp_all add: list_projects_arguments_def list_tasks_arguments_def search_knowledge_arguments_def
        create_task_arguments_def update_task_arguments_def batch_create_arguments_def delete_task_arguments_def
        list_query_fields_def create_fields_def update_fields_def no)
  then show ?thesis
    by (simp add: execute_tool_def validate_tool_arguments_def input_error_def)
qed

theorem agent_tool_rejects_identity_witness:
  "execute_tool demo_rules_json demo_gateway ''delete_task'' [(''task_id'', J_int 20), (''user_id'', J_int 2)] demo_ctx
     demo_tasks_db \<in> {(Inl AgentToolInputError, demo_tasks_db), (Inl AgentToolNotAllowedError, demo_tasks_db)}"
  by (rule agent_tool_rejects_identity [of "J_int 2"]) simp

end
