(* ===== verification/Agent_State.thy ===== *)
theory Agent_State
  imports Agent_Tools
begin

text \<open>
  The serializable contracts of the agent workflow: \<open>app/agent/state.py\<close>,
  \<open>app/agent/schemas.py\<close>, \<open>app/agent/metrics.py\<close> and the evidence contracts of
  \<open>app/agent/grounding.py\<close>. A Pydantic model is a record of its fields together with a boolean
  test of its validators; text that a validator strips is stored stripped. The fingerprint of a
  proposal is a digest of its canonical JSON text; the digest and Python's \<open>repr\<close> of a float are
  parameters, \<open>digest_rules\<close>.
\<close>

section \<open>Planning contracts\<close>

definition bounded_text :: "nat \<Rightarrow> string \<Rightarrow> string result" where
  "bounded_text maximum v =
     (let s = strip v in
      if s = [] then Inl ValueError else if maximum < length s then Inl ValueError else Inr s)"

text \<open>Text that came out of \<open>bounded_text\<close>.\<close>

definition bounded :: "nat \<Rightarrow> string \<Rightarrow> bool" where
  "bounded maximum s \<longleftrightarrow> bounded_text maximum s = Inr s"

lemma bounded_text_bounded: "bounded_text m v = Inr s \<Longrightarrow> bounded m s"
  by (auto simp: bounded_def bounded_text_def Let_def split: if_splits)

lemma bounded_nonblank: "bounded m s \<Longrightarrow> btrim_nonblank s \<and> length s \<le> m \<and> s \<noteq> []"
  using strip_nonblank [of s] by (auto simp: bounded_def bounded_text_def Let_def split: if_splits)

record planning_goal =
  goal_objective :: string
  goal_constraints :: "string list"

definition planning_goal :: "string \<Rightarrow> string list \<Rightarrow> planning_goal result" where
  "planning_goal objective constraints =
     (case (bounded_text 2000 objective, traverse (bounded_text 500) constraints) of
        (Inr ob, Inr cs) \<Rightarrow>
          if length cs \<le> 20 then Inr \<lparr>goal_objective = ob, goal_constraints = cs\<rparr> else Inl ValidationError
      | _ \<Rightarrow> Inl ValidationError)"

definition planning_goal_ok :: "planning_goal \<Rightarrow> bool" where
  "planning_goal_ok g \<longleftrightarrow> bounded 2000 (goal_objective g) \<and> length (goal_constraints g) \<le> 20 \<and>
     list_all (bounded 500) (goal_constraints g)"

lemma planning_goal_ok: "planning_goal ob cs = Inr g \<Longrightarrow> planning_goal_ok g"
  by (auto simp: planning_goal_def planning_goal_ok_def traverse_Inr_iff list_all_length list_all2_conv_all_nth
        intro: bounded_text_bounded split: sum.splits if_splits)
     (blast intro: bounded_text_bounded)

text \<open>\<open>CITATION_ID_PATTERN\<close>: \<open>knowledge:\<close>, the text of two UUIDs in lower case, a colon between.\<close>

definition uuid_format :: "string \<Rightarrow> bool" where
  "uuid_format s \<longleftrightarrow> length s = 36 \<and>
     list_all (\<lambda>(i, c). if i \<in> {8, 13, 18, 23} then c = CHR ''-''
       else char_between CHR ''0'' CHR ''9'' c \<or> char_between CHR ''a'' CHR ''f'' c) (zip [0..<36] s)"

definition citation_format :: "string \<Rightarrow> bool" where
  "citation_format c \<longleftrightarrow> take 10 c = ''knowledge:'' \<and> uuid_format (take 36 (drop 10 c)) \<and>
     take 1 (drop 46 c) = '':'' \<and> uuid_format (drop 47 c)"

text \<open>\<open>citation_ids\<close> is \<open>None\<close> when the field was not supplied.\<close>

record study_plan_step =
  step_key :: string
  step_position :: int
  step_title :: string
  step_description :: string
  step_success_criteria :: string
  step_citation_ids :: "string list option"

definition citations :: "study_plan_step \<Rightarrow> string list" where
  "citations st = (case step_citation_ids st of None \<Rightarrow> [] | Some cs \<Rightarrow> cs)"

record study_plan =
  plan_summary :: string
  plan_steps :: "study_plan_step list"

record planning_result =
  result_prompt_version :: string
  result_plan :: study_plan

definition study_plan_prompt_version :: string where
  "study_plan_prompt_version = ''study-plan.v2''"

definition study_plan_step_ok :: "study_plan_step \<Rightarrow> bool" where
  "study_plan_step_ok st \<longleftrightarrow> action_key_format (step_key st) \<and> 1 \<le> step_position st \<and> step_position st \<le> 20 \<and>
     bounded 200 (step_title st) \<and> bounded 1000 (step_description st) \<and> bounded 500 (step_success_criteria st) \<and>
     length (citations st) \<le> 10 \<and> list_all citation_format (citations st) \<and> distinct (citations st) \<and> sorted (citations st)"

definition study_plan_ok :: "study_plan \<Rightarrow> bool" where
  "study_plan_ok p \<longleftrightarrow> bounded 1000 (plan_summary p) \<and> 1 \<le> length (plan_steps p) \<and> length (plan_steps p) \<le> 20 \<and>
     list_all study_plan_step_ok (plan_steps p) \<and> distinct (map step_key (plan_steps p)) \<and>
     map step_position (plan_steps p) = map int [1..<Suc (length (plan_steps p))]"

definition planning_result_ok :: "planning_result \<Rightarrow> bool" where
  "planning_result_ok r \<longleftrightarrow> result_prompt_version r = study_plan_prompt_version \<and> study_plan_ok (result_plan r)"

section \<open>Closed sets\<close>

datatype context_kind = PROJECTS | TASKS | KNOWLEDGE

datatype write_tool = CREATE_TASK | UPDATE_TASK | BATCH_CREATE_TASKS | DELETE_TASK

fun tool_value :: "write_tool \<Rightarrow> string" where
  "tool_value CREATE_TASK = ''create_task''"
| "tool_value UPDATE_TASK = ''update_task''"
| "tool_value BATCH_CREATE_TASKS = ''batch_create_tasks''"
| "tool_value DELETE_TASK = ''delete_task''"

datatype approval_decision = APPROVED | REJECTED | REQUEST_CHANGES

datatype validation_status = VALID | INVALID

datatype execution_outcome = OUTCOME_SUCCEEDED | OUTCOME_FAILED

datatype verification_status = VERIFIED | VERIFICATION_FAILED | VERIFICATION_REJECTED | NO_ACTION

datatype terminal_status = TERMINAL_SUCCEEDED | TERMINAL_REJECTED | TERMINAL_PARTIAL_FAILURE | TERMINAL_FAILED

definition max_plan_actions :: nat where "max_plan_actions = 3"
definition max_plan_revisions :: nat where "max_plan_revisions = 2"

section \<open>Evidence and context\<close>

record grounding_evidence =
  ev_citation_id :: string
  ev_document_id :: uuid
  ev_chunk_id :: uuid
  ev_source :: string
  ev_page_number :: "int option"
  ev_ordinal :: int
  ev_excerpt :: string
  ev_vector_rank :: "int option"
  ev_lexical_rank :: "int option"
  ev_fusion_score :: rat

type_synonym grounded_knowledge = "grounding_evidence list"

text \<open>\<open>f"knowledge:{document_id}:{chunk_id}"\<close>; the text of a UUID is a parameter.\<close>

definition grounding_evidence_ok :: "(uuid \<Rightarrow> string) \<Rightarrow> grounding_evidence \<Rightarrow> bool" where
  "grounding_evidence_ok uuid_text ev \<longleftrightarrow>
     ev_citation_id ev = ''knowledge:'' @ uuid_text (ev_document_id ev) @ '':'' @ uuid_text (ev_chunk_id ev) \<and>
     citation_format (ev_citation_id ev) \<and> len_between 1 255 (ev_source ev) \<and>
     opt_all (\<lambda>p. 1 \<le> p \<and> p \<le> 100) (ev_page_number ev) \<and> 0 \<le> ev_ordinal ev \<and> ev_ordinal ev \<le> 199 \<and>
     len_between 1 500 (ev_excerpt ev) \<and> opt_all (\<lambda>r. 1 \<le> r \<and> r \<le> 40) (ev_vector_rank ev) \<and>
     opt_all (\<lambda>r. 1 \<le> r \<and> r \<le> 40) (ev_lexical_rank ev) \<and> 0 < ev_fusion_score ev \<and> ev_fusion_score ev \<le> 1 \<and>
     (ev_vector_rank ev \<noteq> None \<or> ev_lexical_rank ev \<noteq> None)"

definition evidence_of :: "knowledge_citation \<Rightarrow> grounding_evidence" where
  "evidence_of c = \<lparr>ev_citation_id = kc_citation_id c, ev_document_id = kc_document_id c,
     ev_chunk_id = kc_chunk_id c, ev_source = kc_source c, ev_page_number = kc_page_number c,
     ev_ordinal = kc_ordinal c, ev_excerpt = kc_excerpt c, ev_vector_rank = kc_vector_rank c,
     ev_lexical_rank = kc_lexical_rank c, ev_fusion_score = kc_fusion_score c\<rparr>"

definition max_grounding_evidence :: nat where "max_grounding_evidence = 10"

definition build_grounded_knowledge ::
  "(uuid \<Rightarrow> string) \<Rightarrow> knowledge_search_result \<Rightarrow> grounded_knowledge result" where
  "build_grounded_knowledge uuid_text items =
     (let evidence = map evidence_of (take max_grounding_evidence items) in
      if list_all (grounding_evidence_ok uuid_text) evidence \<and> distinct (map ev_citation_id evidence)
      then Inr evidence else Inl ValidationError)"

text \<open>Model-selected references must be known, unique and present exactly when evidence is.\<close>

definition citation_group_ok :: "string set \<Rightarrow> string list \<Rightarrow> bool" where
  "citation_group_ok available refs \<longleftrightarrow>
     length refs \<le> 10 \<and> distinct refs \<and> (available \<noteq> {} \<longrightarrow> refs \<noteq> []) \<and> (available = {} \<longrightarrow> refs = []) \<and>
     list_all (\<lambda>r. r \<in> available) refs"

definition validate_citation_references :: "string list list \<Rightarrow> grounded_knowledge \<Rightarrow> bool" where
  "validate_citation_references groups evidence \<longleftrightarrow>
     list_all (citation_group_ok (ev_citation_id ` set evidence)) groups"

record goal_analysis =
  an_objective :: string
  an_constraints :: "string list"
  an_required_context :: "context_kind list"

definition goal_analysis :: "string \<Rightarrow> string list \<Rightarrow> context_kind list \<Rightarrow> goal_analysis result" where
  "goal_analysis objective constraints kinds =
     (case (bounded_text 2000 objective, traverse (bounded_text 500) constraints) of
        (Inr ob, Inr cs) \<Rightarrow>
          if length cs \<le> 20 \<and> 1 \<le> length kinds \<and> length kinds \<le> 3 \<and> distinct kinds
          then Inr \<lparr>an_objective = ob, an_constraints = cs, an_required_context = kinds\<rparr>
          else Inl ValidationError
      | _ \<Rightarrow> Inl ValidationError)"

record context_snapshot =
  cs_projects :: project_list_response
  cs_tasks :: task_list_response
  cs_knowledge :: grounded_knowledge

section \<open>Proposals and their fingerprint\<close>

record proposed_action =
  action_key :: string
  action_tool :: write_tool
  action_arguments :: json_object

definition server_owned_fields :: "string list" where
  "server_owned_fields = [''user_id'', ''created_at'', ''updated_at'', ''completed_at'', ''session'',
     ''transaction'', ''commit'', ''rollback'']"

definition proposed_action_ok :: "proposed_action \<Rightarrow> bool" where
  "proposed_action_ok a \<longleftrightarrow> action_key_format (action_key a) \<and> length (action_arguments a) \<le> 20 \<and>
     list_all (\<lambda>(k, _). k \<notin> set server_owned_fields) (action_arguments a)"

record plan_proposal =
  proposal_result :: planning_result
  proposal_actions :: "proposed_action list"

definition plan_proposal_ok :: "plan_proposal \<Rightarrow> bool" where
  "plan_proposal_ok p \<longleftrightarrow> planning_result_ok (proposal_result p) \<and>
     length (proposal_actions p) \<le> max_plan_actions \<and> list_all proposed_action_ok (proposal_actions p) \<and>
     distinct (map action_key (proposal_actions p))"

record digest_rules =
  dg_sha256 :: "string \<Rightarrow> string"
  dg_float_repr :: "rat \<Rightarrow> string"

text \<open>\<open>json.dumps(..., ensure_ascii=False, separators=(",", ":"), sort_keys=True)\<close>\<close>

definition json_char :: "char \<Rightarrow> string" where
  "json_char c =
     (if c = CHR 0x22 then [CHR 0x5C, CHR 0x22] else if c = CHR 0x5C then [CHR 0x5C, CHR 0x5C]
      else if 32 \<le> (of_char c :: nat) then [c]
      else if c = CHR 0x0A then [CHR 0x5C, CHR ''n''] else if c = CHR 0x0D then [CHR 0x5C, CHR ''r'']
      else if c = CHR 0x09 then [CHR 0x5C, CHR ''t''] else if c = CHR 0x08 then [CHR 0x5C, CHR ''b'']
      else if c = CHR 0x0C then [CHR 0x5C, CHR ''f'']
      else [CHR 0x5C, CHR ''u'', CHR ''0'', CHR ''0'', ''0123456789abcdef'' ! (of_char c div 16),
            ''0123456789abcdef'' ! (of_char c mod 16)])"

definition json_string :: "string \<Rightarrow> string" where
  "json_string s = [CHR 0x22] @ concat (map json_char s) @ [CHR 0x22]"

definition json_int :: "int \<Rightarrow> string" where
  "json_int i = (if i < 0 then ''-'' @ digits_of (nat (- i)) else digits_of (nat i))"

fun join_with :: "string \<Rightarrow> string list \<Rightarrow> string" where
  "join_with sep [] = []"
| "join_with sep [x] = x"
| "join_with sep (x # y # xs) = x @ sep @ join_with sep (y # xs)"

fun json_dumps :: "digest_rules \<Rightarrow> json \<Rightarrow> string" where
  "json_dumps D J_null = ''null''"
| "json_dumps D (J_bool b) = (if b then ''true'' else ''false'')"
| "json_dumps D (J_int i) = json_int i"
| "json_dumps D (J_float q) = dg_float_repr D q"
| "json_dumps D (J_str s) = json_string s"
| "json_dumps D (J_list vs) = ''['' @ join_with '','' (map (json_dumps D) vs) @ '']''"
| "json_dumps D (J_obj obj) =
     ''{'' @ join_with '',''
       (map (\<lambda>(k, t). json_string k @ '':'' @ t) (sort_key fst (map (\<lambda>(k, v). (k, json_dumps D v)) obj))) @ ''}''"

definition step_json :: "study_plan_step \<Rightarrow> json" where
  "step_json st = J_obj [(''step_key'', J_str (step_key st)), (''position'', J_int (step_position st)),
     (''title'', J_str (step_title st)), (''description'', J_str (step_description st)),
     (''success_criteria'', J_str (step_success_criteria st)),
     (''citation_ids'', J_list (map J_str (citations st)))]"

definition planning_result_json :: "planning_result \<Rightarrow> json" where
  "planning_result_json r = J_obj [(''prompt_version'', J_str (result_prompt_version r)),
     (''status'', J_str ''completed''),
     (''plan'', J_obj [(''summary'', J_str (plan_summary (result_plan r))),
                       (''steps'', J_list (map step_json (plan_steps (result_plan r))))])]"

definition action_json :: "proposed_action \<Rightarrow> json" where
  "action_json a = J_obj [(''action_key'', J_str (action_key a)), (''tool_name'', J_str (tool_value (action_tool a))),
     (''arguments'', J_obj (action_arguments a))]"

definition plan_proposal_json :: "plan_proposal \<Rightarrow> json" where
  "plan_proposal_json p = J_obj [(''planning_result'', planning_result_json (proposal_result p)),
     (''actions'', J_list (map action_json (proposal_actions p)))]"

definition fingerprint_plan_proposal :: "digest_rules \<Rightarrow> plan_proposal \<Rightarrow> string" where
  "fingerprint_plan_proposal D p = dg_sha256 D (json_dumps D (plan_proposal_json p))"

section \<open>Workflow records\<close>

record plan_validation =
  val_status :: validation_status
  val_revision :: nat
  val_fingerprint :: "string option"
  val_error_code :: "string option"

definition plan_validation_ok :: "plan_validation \<Rightarrow> bool" where
  "plan_validation_ok v \<longleftrightarrow> val_revision v \<le> max_plan_revisions \<and> opt_all digest_format (val_fingerprint v) \<and>
     opt_all error_code_format (val_error_code v) \<and>
     (case val_status v of
        VALID \<Rightarrow> val_error_code v = None \<and> val_fingerprint v \<noteq> None
      | INVALID \<Rightarrow> val_error_code v \<noteq> None \<and> val_fingerprint v = None)"

record execution_record =
  rec_action_key :: string
  rec_tool :: write_tool
  rec_outcome :: execution_outcome
  rec_result :: "write_tool_result option"
  rec_error_code :: "string option"

definition execution_record_ok :: "execution_record \<Rightarrow> bool" where
  "execution_record_ok r \<longleftrightarrow> action_key_format (rec_action_key r) \<and> opt_all error_code_format (rec_error_code r) \<and>
     (case rec_outcome r of
        OUTCOME_SUCCEEDED \<Rightarrow> rec_result r \<noteq> None \<and> rec_error_code r = None
      | OUTCOME_FAILED \<Rightarrow> rec_result r = None \<and> rec_error_code r \<noteq> None)"

record verification =
  ver_status :: verification_status
  ver_checked :: nat
  ver_error_code :: "string option"

definition verification_ok :: "verification \<Rightarrow> bool" where
  "verification_ok v \<longleftrightarrow> ver_checked v \<le> max_plan_actions \<and> opt_all error_code_format (ver_error_code v) \<and>
     ((ver_status v = VERIFICATION_FAILED) = (ver_error_code v \<noteq> None))"

record run_metrics =
  met_prompt_version :: string
  met_model_round_count :: int
  met_provider_attempt_count :: int
  met_tool_call_count :: int
  met_input_tokens :: "int option"
  met_output_tokens :: "int option"
  met_total_tokens :: "int option"
  met_latency_ms :: rat

record graph_state =
  gs_goal :: planning_goal
  gs_analysis :: "goal_analysis option"
  gs_context :: "context_snapshot option"
  gs_proposal :: "plan_proposal option"
  gs_validation :: "plan_validation option"
  gs_approval_decision :: "approval_decision option"
  gs_approval_feedback :: "string option"
  gs_approval_revision :: "nat option"
  gs_approval_fingerprint :: "string option"
  gs_revision_count :: nat
  gs_execution_records :: "execution_record list"
  gs_verification :: "verification option"
  gs_terminal_status :: "terminal_status option"
  gs_workflow_error :: "string option"
  gs_summary :: "string option"
  gs_metrics :: "run_metrics option"

definition initial_state :: "planning_goal \<Rightarrow> graph_state" where
  "initial_state g = \<lparr>gs_goal = g, gs_analysis = None, gs_context = None, gs_proposal = None,
     gs_validation = None, gs_approval_decision = None, gs_approval_feedback = None,
     gs_approval_revision = None, gs_approval_fingerprint = None, gs_revision_count = 0,
     gs_execution_records = [], gs_verification = None, gs_terminal_status = None,
     gs_workflow_error = None, gs_summary = None, gs_metrics = None\<rparr>"

record graph_output =
  out_status :: terminal_status
  out_plan :: "planning_result option"
  out_summary :: string
  out_execution_records :: "execution_record list"
  out_metrics :: "run_metrics option"

definition graph_output :: "graph_output \<Rightarrow> graph_output result" where
  "graph_output r =
     (case bounded_text 2000 (out_summary r) of
        Inl _ \<Rightarrow> Inl ValidationError
      | Inr s \<Rightarrow> if length (out_execution_records r) \<le> max_plan_actions then Inr (r\<lparr>out_summary := s\<rparr>)
                 else Inl ValidationError)"

section \<open>Metrics\<close>

record provider_usage =
  usage_input :: "int option"
  usage_output :: "int option"
  usage_total :: "int option"

definition sum_known :: "int option list \<Rightarrow> int option" where
  "sum_known vs = (let known = concat (map (\<lambda>v. case v of None \<Rightarrow> [] | Some x \<Rightarrow> [x]) vs) in
     if known = [] then None else Some (sum_list known))"

definition aggregate_usage :: "provider_usage list \<Rightarrow> provider_usage" where
  "aggregate_usage us = \<lparr>usage_input = sum_known (map usage_input us), usage_output = sum_known (map usage_output us),
     usage_total = sum_known (map usage_total us)\<rparr>"

definition build_run_metrics ::
  "string \<Rightarrow> int \<Rightarrow> int \<Rightarrow> int \<Rightarrow> provider_usage list \<Rightarrow> rat \<Rightarrow> rat \<Rightarrow> run_metrics result" where
  "build_run_metrics version rounds attempts calls usages started finished =
     (if finished < started then Inl ValueError
      else let u = aggregate_usage usages in
        Inr \<lparr>met_prompt_version = version, met_model_round_count = rounds, met_provider_attempt_count = attempts,
             met_tool_call_count = calls, met_input_tokens = usage_input u, met_output_tokens = usage_output u,
             met_total_tokens = usage_total u, met_latency_ms = (finished - started) * 1000\<rparr>)"

end
