(* ===== verification/Agent_Nodes.thy ===== *)
theory Agent_Nodes
  imports Agent_State
begin

text \<open>
  The nodes of the workflow, \<open>app/agent/nodes\<close>: goal analysis and context loading
  (\<open>context.py\<close>), proposal generation and validation (\<open>planning.py\<close>), the approval boundary
  (\<open>approval.py\<close>), execution (\<open>execution.py\<close>) and verification and output
  (\<open>finalization.py\<close>). The model provider, the prompt builder, the parser of the provider's JSON
  answer and the monotonic clock are the record \<open>planner\<close>; how Pydantic writes a UUID, a date and a
  UTC datetime to JSON is \<open>dump_rules\<close>. Trace spans are not modelled.
\<close>

section \<open>Context\<close>

definition analyze_goal :: "graph_state \<Rightarrow> goal_analysis result" where
  "analyze_goal s = goal_analysis (goal_objective (gs_goal s)) (goal_constraints (gs_goal s))
     [PROJECTS, TASKS, KNOWLEDGE]"

text \<open>The three read tools run with write capabilities withheld.\<close>

definition load_context ::
  "pydantic_rules \<Rightarrow> gateway \<Rightarrow> (uuid \<Rightarrow> string) \<Rightarrow> runtime_context \<Rightarrow> graph_state \<Rightarrow> db \<Rightarrow>
   context_snapshot result \<times> db" where
  "load_context P gw uuid_text ctx s d =
     (case gs_analysis s of
        None \<Rightarrow> (Inl AgentContextUnavailableError, d)
      | Some an \<Rightarrow>
          if an_required_context an \<noteq> [PROJECTS, TASKS, KNOWLEDGE] then (Inl AgentContextUnavailableError, d)
          else
            let ro = \<lparr>ctx_user_id = ctx_user_id ctx, write_tools_enabled = False\<rparr> in
            (case execute_tool P gw ''list_projects''
                [(''page'', J_int 1), (''page_size'', J_int 20), (''include_archived'', J_bool False)] ro d of
               (Inr (Res_projects ps), d1) \<Rightarrow>
                 (case execute_tool P gw ''list_tasks'' [(''page'', J_int 1), (''page_size'', J_int 20)] ro d1 of
                    (Inr (Res_tasks ts), d2) \<Rightarrow>
                      (case execute_tool P gw ''search_knowledge''
                          [(''query'', J_str (an_objective an)), (''top_k'', J_int 10)] ro d2 of
                         (Inr (Res_knowledge ks), d3) \<Rightarrow>
                           (case build_grounded_knowledge uuid_text ks of
                              Inr ev \<Rightarrow> (Inr \<lparr>cs_projects = ps, cs_tasks = ts, cs_knowledge = ev\<rparr>, d3)
                            | Inl _ \<Rightarrow> (Inl AgentContextUnavailableError, d3))
                       | (_, d3) \<Rightarrow> (Inl AgentContextUnavailableError, d3))
                  | (_, d2) \<Rightarrow> (Inl AgentContextUnavailableError, d2))
             | (_, d1) \<Rightarrow> (Inl AgentContextUnavailableError, d1)))"

section \<open>Planning\<close>

datatype provider_outcome =
    Provider_response "string option" nat provider_usage
  | Provider_timeout | Provider_transient | Provider_invalid_response
  | Provider_configuration | Provider_authentication | Provider_permission
  | Provider_other

record planner =
  pl_prompt :: "planning_goal \<Rightarrow> goal_analysis \<Rightarrow> context_snapshot \<Rightarrow> string option \<Rightarrow> string result"
  pl_generate :: "string \<Rightarrow> nat \<Rightarrow> provider_outcome"
  pl_parse :: "string \<Rightarrow> plan_proposal option"
  pl_clock :: "nat \<Rightarrow> rat"

definition planning_max_attempts :: nat where "planning_max_attempts = 2"

text \<open>
  The loop over attempts; \<open>k\<close> attempts are left. A timeout, a transient failure and an answer that
  does not parse are retried, everything else ends the loop.
\<close>

fun generate_attempts ::
  "planner \<Rightarrow> string \<Rightarrow> nat \<Rightarrow> nat \<Rightarrow> provider_usage list \<Rightarrow> (plan_proposal \<times> run_metrics) result" where
  "generate_attempts pl inp 0 attempt usages = Inl AssertionError"
| "generate_attempts pl inp (Suc k) attempt usages =
     (let retry = (\<lambda>us. if attempt = planning_max_attempts then Inl AgentPlanningUnavailableError
                        else generate_attempts pl inp k (Suc attempt) us)
      in case pl_generate pl inp attempt of
           Provider_response text calls usage \<Rightarrow>
             (case text of
                None \<Rightarrow> retry (usages @ [usage])
              | Some t \<Rightarrow>
                  if 0 < calls then retry (usages @ [usage])
                  else (case pl_parse pl t of
                          None \<Rightarrow> retry (usages @ [usage])
                        | Some proposal \<Rightarrow>
                            (case build_run_metrics study_plan_prompt_version 1 (int attempt) 0
                                    (usages @ [usage]) (pl_clock pl 0) (pl_clock pl 1) of
                               Inl _ \<Rightarrow> Inl AgentPlanningUnavailableError
                             | Inr metrics \<Rightarrow> Inr (proposal, metrics))))
         | Provider_timeout \<Rightarrow> retry usages
         | Provider_transient \<Rightarrow> retry usages
         | Provider_invalid_response \<Rightarrow> retry usages
         | Provider_configuration \<Rightarrow> Inl AgentPlanningConfigurationError
         | Provider_authentication \<Rightarrow> Inl AgentPlanningConfigurationError
         | Provider_permission \<Rightarrow> Inl AgentPlanningConfigurationError
         | Provider_other \<Rightarrow> Inl AgentPlanningUnavailableError)"

text \<open>\<open>PromptBudgetError\<close> is a \<open>ValueError\<close>, so the handler catches it too.\<close>

definition generate_plan :: "planner \<Rightarrow> graph_state \<Rightarrow> (plan_proposal \<times> run_metrics) result" where
  "generate_plan pl s =
     (case (gs_analysis s, gs_context s) of
        (Some an, Some cs) \<Rightarrow>
          (case pl_prompt pl (gs_goal s) an cs (gs_approval_feedback s) of
             Inl x \<Rightarrow> Inl (if x \<in> {TypeError, ValueError, ValidationError, PromptBudgetError} then AgentPlanningUnavailableError else x)
           | Inr inp \<Rightarrow> generate_attempts pl inp planning_max_attempts 1 [])
      | _ \<Rightarrow> Inl AgentPlanningUnavailableError)"

definition invalid_plan :: "string \<Rightarrow> nat \<Rightarrow> plan_validation" where
  "invalid_plan code revision =
     \<lparr>val_status = INVALID, val_revision = revision, val_fingerprint = None, val_error_code = Some code\<rparr>"

definition actions_valid :: "pydantic_rules \<Rightarrow> runtime_context \<Rightarrow> proposed_action list \<Rightarrow> bool" where
  "actions_valid P ctx acts \<longleftrightarrow> list_all (\<lambda>a.
     case validate_tool_arguments P (tool_value (action_tool a)) (action_arguments a) ctx of
       Inl _ \<Rightarrow> False | Inr _ \<Rightarrow> True) acts"

definition validate_plan ::
  "pydantic_rules \<Rightarrow> digest_rules \<Rightarrow> runtime_context \<Rightarrow> graph_state \<Rightarrow> plan_validation" where
  "validate_plan P D ctx s =
     (case (gs_analysis s, gs_context s) of
        (Some _, Some cs) \<Rightarrow>
          (case gs_proposal s of
             None \<Rightarrow> invalid_plan ''PLAN_PROPOSAL_MISSING'' (gs_revision_count s)
           | Some proposal \<Rightarrow>
               if \<not> plan_proposal_ok proposal then invalid_plan ''PLAN_PROPOSAL_INVALID'' (gs_revision_count s)
               else if \<not> validate_citation_references
                         (map citations (plan_steps (result_plan (proposal_result proposal)))) (cs_knowledge cs)
               then invalid_plan ''PLAN_CITATION_INVALID'' (gs_revision_count s)
               else if \<not> actions_valid P ctx (proposal_actions proposal)
               then invalid_plan ''PLAN_ACTION_INVALID'' (gs_revision_count s)
               else \<lparr>val_status = VALID, val_revision = gs_revision_count s,
                     val_fingerprint = Some (fingerprint_plan_proposal D proposal), val_error_code = None\<rparr>)
      | _ \<Rightarrow> invalid_plan ''PLAN_CONTEXT_MISSING'' (gs_revision_count s))"

section \<open>Approval\<close>

record dump_rules =
  from_uuid :: "uuid \<Rightarrow> json"
  from_date :: "date \<Rightarrow> json"
  from_instant :: "instant \<Rightarrow> json"

definition null_or :: "('a \<Rightarrow> json) \<Rightarrow> 'a option \<Rightarrow> json" where
  "null_or f v = (case v of None \<Rightarrow> J_null | Some x \<Rightarrow> f x)"

definition enum_value :: "(string \<times> 'a) list \<Rightarrow> 'a \<Rightarrow> json" where
  "enum_value members v = (case List.find (\<lambda>(k, x). x = v) members of Some (k, _) \<Rightarrow> J_str k | None \<Rightarrow> J_null)"

text \<open>\<open>task.model_dump(mode="json", exclude_unset=True)\<close>\<close>

definition create_dump :: "dump_rules \<Rightarrow> string list \<Rightarrow> task_create \<Rightarrow> json_object" where
  "create_dump R keys c = filter (\<lambda>(k, _). k \<in> set keys)
     [(''project_id'', from_uuid R (tc_project_id c)), (''title'', J_str (tc_title c)),
      (''description'', null_or J_str (tc_description c)),
      (''planned_date'', null_or (from_date R) (tc_planned_date c)),
      (''due_at'', null_or (from_instant R) (tc_due_at c)),
      (''estimated_minutes'', null_or J_int (tc_estimated_minutes c)),
      (''priority'', enum_value priority_members (tc_priority c))]"

definition when_set :: "string \<Rightarrow> ('a \<Rightarrow> json) \<Rightarrow> 'a option \<Rightarrow> json_object" where
  "when_set k f v = (case v of None \<Rightarrow> [] | Some x \<Rightarrow> [(k, f x)])"

definition update_dump :: "dump_rules \<Rightarrow> task_update \<Rightarrow> json_object" where
  "update_dump R u =
     when_set ''title'' J_str (tu_title u) @ when_set ''description'' (null_or J_str) (tu_description u) @
     when_set ''planned_date'' (null_or (from_date R)) (tu_planned_date u) @
     when_set ''due_at'' (null_or (from_instant R)) (tu_due_at u) @
     when_set ''estimated_minutes'' (null_or J_int) (tu_estimated_minutes u) @
     when_set ''priority'' (enum_value priority_members) (tu_priority u) @
     when_set ''status'' (enum_value status_members) (tu_status u)"

text \<open>A preview keeps which fields of a creation were supplied, as Pydantic does.\<close>

datatype approval_preview =
    Preview_create string "string list" task_create
  | Preview_update string uuid task_update
  | Preview_batch string "(string list \<times> task_create) list"
  | Preview_delete string uuid

fun preview_tool :: "approval_preview \<Rightarrow> write_tool" where
  "preview_tool (Preview_create k ks c) = CREATE_TASK"
| "preview_tool (Preview_update k i u) = UPDATE_TASK"
| "preview_tool (Preview_batch k cs) = BATCH_CREATE_TASKS"
| "preview_tool (Preview_delete k i) = DELETE_TASK"

fun preview_key :: "approval_preview \<Rightarrow> string" where
  "preview_key (Preview_create k ks c) = k"
| "preview_key (Preview_update k i u) = k"
| "preview_key (Preview_batch k cs) = k"
| "preview_key (Preview_delete k i) = k"

fun preview_arguments :: "dump_rules \<Rightarrow> approval_preview \<Rightarrow> json_object" where
  "preview_arguments R (Preview_create k ks c) = create_dump R ks c"
| "preview_arguments R (Preview_update k i u) = (''task_id'', from_uuid R i) # update_dump R u"
| "preview_arguments R (Preview_batch k cs) =
     [(''tasks'', J_list (map (\<lambda>(ks, c). J_obj (create_dump R ks c)) cs))]"
| "preview_arguments R (Preview_delete k i) = [(''task_id'', from_uuid R i)]"

definition preview_json :: "dump_rules \<Rightarrow> approval_preview \<Rightarrow> json" where
  "preview_json R pv = J_obj ([(''action_key'', J_str (preview_key pv)),
     (''tool_name'', J_str (tool_value (preview_tool pv)))] @
     (case pv of
        Preview_create k ks c \<Rightarrow> [(''task'', J_obj (create_dump R ks c))]
      | Preview_update k i u \<Rightarrow> [(''task_id'', from_uuid R i), (''changes'', J_obj (update_dump R u))]
      | _ \<Rightarrow> preview_arguments R pv))"

text \<open>The object of a task in a batch, for the fields it supplied.\<close>

fun batch_objects :: "json_object \<Rightarrow> json_object list" where
  "batch_objects obj =
     (case map_of obj ''tasks'' of
        Some (J_list vs) \<Rightarrow> map (\<lambda>v. case v of J_obj x \<Rightarrow> x | _ \<Rightarrow> []) vs
      | _ \<Rightarrow> [])"

definition preview_action ::
  "pydantic_rules \<Rightarrow> runtime_context \<Rightarrow> proposed_action \<Rightarrow> approval_preview result" where
  "preview_action P ctx a =
     bind_result (validate_tool_arguments P (tool_value (action_tool a)) (action_arguments a) ctx) (\<lambda>v.
       case v of
         Args_create c \<Rightarrow> Inr (Preview_create (action_key a) (map fst (action_arguments a)) c)
       | Args_update i u \<Rightarrow> bind_result (to_task_update u) (\<lambda>u'. Inr (Preview_update (action_key a) i u'))
       | Args_batch cs \<Rightarrow> Inr (Preview_batch (action_key a)
           (zip (map (map fst) (batch_objects (action_arguments a))) cs))
       | Args_delete i \<Rightarrow> Inr (Preview_delete (action_key a) i)
       | _ \<Rightarrow> Inl ValueError)"

record approval_request =
  req_summary :: string
  req_actions :: "write_tool list"
  req_revision :: nat
  req_fingerprint :: string
  req_result :: planning_result
  req_previews :: "approval_preview list"

definition to_plan_proposal :: "dump_rules \<Rightarrow> approval_request \<Rightarrow> plan_proposal" where
  "to_plan_proposal R r = \<lparr>proposal_result = req_result r,
     proposal_actions = map (\<lambda>pv. \<lparr>action_key = preview_key pv, action_tool = preview_tool pv,
       action_arguments = preview_arguments R pv\<rparr>) (req_previews r)\<rparr>"

definition set_step_json :: "study_plan_step \<Rightarrow> json" where
  "set_step_json st = J_obj ([(''step_key'', J_str (step_key st)), (''position'', J_int (step_position st)),
     (''title'', J_str (step_title st)), (''description'', J_str (step_description st)),
     (''success_criteria'', J_str (step_success_criteria st))] @
     when_set ''citation_ids'' (\<lambda>cs. J_list (map J_str cs)) (step_citation_ids st))"

definition canonical_preview_json :: "dump_rules \<Rightarrow> approval_request \<Rightarrow> json" where
  "canonical_preview_json R r = J_obj [(''revision'', J_int (int (req_revision r))),
     (''proposal_fingerprint'', J_str (req_fingerprint r)),
     (''planning_result'', J_obj [(''prompt_version'', J_str (result_prompt_version (req_result r))),
        (''status'', J_str ''completed''),
        (''plan'', J_obj [(''summary'', J_str (plan_summary (result_plan (req_result r)))),
           (''steps'', J_list (map set_step_json (plan_steps (result_plan (req_result r)))))])]),
     (''actions'', J_list (map (preview_json R) (req_previews r)))]"

definition utf8_length :: "string \<Rightarrow> nat" where
  "utf8_length s = sum_list (map (\<lambda>c. if (of_char c :: nat) < 128 then 1 else 2) s)"

text \<open>\<open>MAX_APPROVAL_PREVIEW_BYTES\<close> less the 48 bytes of the run identifier that the API adds.\<close>

definition preview_byte_limit :: nat where "preview_byte_limit = 65536 - 48"

definition approval_request_ok :: "digest_rules \<Rightarrow> dump_rules \<Rightarrow> approval_request \<Rightarrow> bool" where
  "approval_request_ok D R r \<longleftrightarrow>
     bounded 1000 (req_summary r) \<and> length (req_actions r) \<le> max_plan_actions \<and>
     req_revision r \<le> max_plan_revisions \<and> digest_format (req_fingerprint r) \<and>
     plan_proposal_ok (to_plan_proposal R r) \<and>
     fingerprint_plan_proposal D (to_plan_proposal R r) = req_fingerprint r \<and>
     utf8_length (json_dumps D (canonical_preview_json R r)) \<le> preview_byte_limit \<and>
     req_summary r = plan_summary (result_plan (req_result r)) \<and>
     req_actions r = map preview_tool (req_previews r)"

definition current_validated_fingerprint :: "digest_rules \<Rightarrow> graph_state \<Rightarrow> string result" where
  "current_validated_fingerprint D s =
     (case (gs_proposal s, gs_validation s) of
        (Some proposal, Some v) \<Rightarrow>
          let fp = fingerprint_plan_proposal D proposal in
          if val_status v \<noteq> VALID \<or> val_revision v \<noteq> gs_revision_count s \<or> val_fingerprint v \<noteq> Some fp
          then Inl AgentApprovalRequiredError else Inr fp
      | _ \<Rightarrow> Inl AgentApprovalRequiredError)"

definition build_approval_request ::
  "pydantic_rules \<Rightarrow> digest_rules \<Rightarrow> dump_rules \<Rightarrow> runtime_context \<Rightarrow> graph_state \<Rightarrow> approval_request result" where
  "build_approval_request P D R ctx s =
     bind_result (current_validated_fingerprint D s) (\<lambda>fp.
       case gs_proposal s of
         None \<Rightarrow> Inl AssertionError
       | Some proposal \<Rightarrow>
           (case traverse (preview_action P ctx) (proposal_actions proposal) of
              Inl _ \<Rightarrow> Inl AgentApprovalRequiredError
            | Inr previews \<Rightarrow>
                let r = \<lparr>req_summary = plan_summary (result_plan (proposal_result proposal)),
                         req_actions = map action_tool (proposal_actions proposal),
                         req_revision = gs_revision_count s, req_fingerprint = fp,
                         req_result = proposal_result proposal, req_previews = previews\<rparr>
                in if approval_request_ok D R r then Inr r else Inl AgentApprovalRequiredError))"

record approval_response =
  resp_decision :: approval_decision
  resp_feedback :: "string option"

definition approval_response :: "approval_decision \<Rightarrow> string option \<Rightarrow> approval_response result" where
  "approval_response decision feedback =
     (case feedback of
        None \<Rightarrow> if decision = REQUEST_CHANGES then Inl ValidationError
                else Inr \<lparr>resp_decision = decision, resp_feedback = None\<rparr>
      | Some f \<Rightarrow>
          (case bounded_text 1000 f of
             Inl _ \<Rightarrow> Inl ValidationError
           | Inr g \<Rightarrow> if decision = REQUEST_CHANGES
                      then Inr \<lparr>resp_decision = decision, resp_feedback = Some g\<rparr>
                      else Inl ValidationError))"

definition apply_approval_response :: "graph_state \<Rightarrow> approval_response \<Rightarrow> string \<Rightarrow> graph_state" where
  "apply_approval_response s r fp =
     (if resp_decision r = REQUEST_CHANGES then
        if max_plan_revisions \<le> gs_revision_count s
        then s\<lparr>gs_approval_decision := Some REJECTED, gs_approval_feedback := None,
               gs_approval_revision := Some (gs_revision_count s), gs_approval_fingerprint := Some fp,
               gs_terminal_status := Some TERMINAL_REJECTED, gs_summary := Some ''Plan revision limit reached''\<rparr>
        else s\<lparr>gs_approval_decision := Some REQUEST_CHANGES, gs_approval_feedback := resp_feedback r,
               gs_approval_revision := None, gs_approval_fingerprint := None,
               gs_revision_count := gs_revision_count s + 1, gs_proposal := None, gs_validation := None\<rparr>
      else let s' = s\<lparr>gs_approval_decision := Some (resp_decision r), gs_approval_feedback := None,
                      gs_approval_revision := Some (gs_revision_count s), gs_approval_fingerprint := Some fp\<rparr>
           in if resp_decision r = REJECTED then s'\<lparr>gs_terminal_status := Some TERMINAL_REJECTED\<rparr> else s')"

text \<open>
  \<open>request_approval\<close> with a synchronous decider; the decider may fail, and what it answers is
  validated. \<open>interrupt_for_approval\<close> pauses on the same request and applies the resumed answer.
\<close>

definition request_approval ::
  "pydantic_rules \<Rightarrow> digest_rules \<Rightarrow> dump_rules \<Rightarrow> runtime_context \<Rightarrow>
   (approval_request \<Rightarrow> approval_response result) \<Rightarrow> graph_state \<Rightarrow> graph_state result" where
  "request_approval P D R ctx decide s =
     bind_result (build_approval_request P D R ctx s) (\<lambda>req.
       case decide req of
         Inl x \<Rightarrow> Inl (if x = AgentApprovalRequiredError then x else AgentApprovalUnavailableError)
       | Inr a \<Rightarrow>
           (case approval_response (resp_decision a) (resp_feedback a) of
              Inl _ \<Rightarrow> Inl AgentApprovalUnavailableError
            | Inr r \<Rightarrow> Inr (apply_approval_response s r (req_fingerprint req))))"

section \<open>Execution\<close>

definition require_current_authorization :: "digest_rules \<Rightarrow> graph_state \<Rightarrow> plan_proposal result" where
  "require_current_authorization D s =
     (case (gs_proposal s, gs_validation s) of
        (Some proposal, Some v) \<Rightarrow>
          let fp = fingerprint_plan_proposal D proposal in
          if val_status v \<noteq> VALID \<or> val_revision v \<noteq> gs_revision_count s \<or> val_fingerprint v \<noteq> Some fp \<or>
             gs_approval_decision s \<noteq> Some APPROVED \<or> gs_approval_revision s \<noteq> Some (gs_revision_count s) \<or>
             gs_approval_fingerprint s \<noteq> Some fp
          then Inl AgentExecutionNotAuthorizedError else Inr proposal
      | _ \<Rightarrow> Inl AgentExecutionNotAuthorizedError)"

definition safe_error_code :: "exn \<Rightarrow> string" where
  "safe_error_code x =
     (case x of
        TaskNotFoundError \<Rightarrow> ''TASK_NOT_FOUND''
      | ProjectNotFoundError \<Rightarrow> ''PROJECT_NOT_FOUND''
      | TaskDateOrderError \<Rightarrow> ''TASK_DATE_ORDER_INVALID''
      | TaskTransitionError \<Rightarrow> ''TASK_TRANSITION_INVALID''
      | ArchivedProjectError \<Rightarrow> ''PROJECT_ARCHIVED''
      | _ \<Rightarrow> ''AGENT_ACTION_FAILED'')"

type_synonym action_runner = "proposed_action \<Rightarrow> nat \<Rightarrow> string \<Rightarrow> db \<Rightarrow> write_tool_result result \<times> db"

text \<open>What an idempotent executor returns is also a tool result.\<close>

fun as_tool_result :: "write_tool_result \<Rightarrow> tool_result" where
  "as_tool_result (Wrote_task t) = Res_task t"
| "as_tool_result (Wrote_mutation m) = Res_mutation m"

definition run_action ::
  "pydantic_rules \<Rightarrow> gateway \<Rightarrow> action_runner option \<Rightarrow> runtime_context \<Rightarrow> nat \<Rightarrow> string \<Rightarrow>
   proposed_action \<Rightarrow> db \<Rightarrow> execution_record \<times> db" where
  "run_action P gw runner ctx revision fp a d =
     (let failed = (\<lambda>x. \<lparr>rec_action_key = action_key a, rec_tool = action_tool a, rec_outcome = OUTCOME_FAILED,
                          rec_result = None, rec_error_code = Some (safe_error_code x)\<rparr>)
      in case validate_tool_arguments P (tool_value (action_tool a)) (action_arguments a) ctx of
           Inl x \<Rightarrow> (failed x, d)
         | Inr _ \<Rightarrow>
             (case (case runner of
                      None \<Rightarrow> execute_tool P gw (tool_value (action_tool a)) (action_arguments a) ctx d
                    | Some run \<Rightarrow> map_prod (map_sum id as_tool_result) id (run a revision fp d)) of
                (Inl x, d') \<Rightarrow> (failed x, d')
              | (Inr res, d') \<Rightarrow>
                  (case validate_write_tool_result (tool_value (action_tool a)) res of
                     Inl x \<Rightarrow> (failed x, d')
                   | Inr r \<Rightarrow> (\<lparr>rec_action_key = action_key a, rec_tool = action_tool a,
                               rec_outcome = OUTCOME_SUCCEEDED, rec_result = Some r, rec_error_code = None\<rparr>, d'))))"

fun run_actions ::
  "(proposed_action \<Rightarrow> db \<Rightarrow> execution_record \<times> db) \<Rightarrow> proposed_action list \<Rightarrow> db \<Rightarrow> execution_record list \<times> db" where
  "run_actions f [] d = ([], d)"
| "run_actions f (a # as) d =
     (case f a d of (r, d') \<Rightarrow>
        if rec_outcome r = OUTCOME_FAILED then ([r], d')
        else (case run_actions f as d' of (rs, d'') \<Rightarrow> (r # rs, d'')))"

definition execute_tasks ::
  "pydantic_rules \<Rightarrow> digest_rules \<Rightarrow> gateway \<Rightarrow> action_runner option \<Rightarrow> runtime_context \<Rightarrow> graph_state \<Rightarrow> db \<Rightarrow>
   execution_record list result \<times> db" where
  "execute_tasks P D gw runner ctx s d =
     (case require_current_authorization D s of
        Inl x \<Rightarrow> (Inl x, d)
      | Inr proposal \<Rightarrow>
          if \<not> write_tools_enabled ctx then (Inl AgentExecutionNotAuthorizedError, d)
          else if \<not> actions_valid P ctx (proposal_actions proposal) \<or>
                  (runner = None \<and>
                   list_ex (\<lambda>a. is_high_impact_tool (tool_value (action_tool a))) (proposal_actions proposal))
          then (Inl AgentExecutionNotAuthorizedError, d)
          else map_prod Inr id
                 (run_actions (run_action P gw runner ctx (gs_revision_count s)
                    (fingerprint_plan_proposal D proposal)) (proposal_actions proposal) d))"

section \<open>Verification and output\<close>

definition agent_result_invalid :: string where "agent_result_invalid = ''AGENT_RESULT_INVALID''"
definition agent_execution_failed :: string where "agent_execution_failed = ''AGENT_EXECUTION_FAILED''"
definition agent_workflow_failed :: string where "agent_workflow_failed = ''AGENT_WORKFLOW_FAILED''"

definition failed_verification :: "nat \<Rightarrow> string \<Rightarrow> verification" where
  "failed_verification n code = \<lparr>ver_status = VERIFICATION_FAILED, ver_checked = n, ver_error_code = Some code\<rparr>"

definition invalid_result :: "nat \<Rightarrow> verification \<times> terminal_status" where
  "invalid_result n = (failed_verification n agent_result_invalid, TERMINAL_FAILED)"

definition has_current_plan_binding :: "digest_rules \<Rightarrow> graph_state \<Rightarrow> bool" where
  "has_current_plan_binding D s \<longleftrightarrow>
     (case (gs_proposal s, gs_validation s) of
        (Some proposal, Some v) \<Rightarrow>
          let fp = fingerprint_plan_proposal D proposal in
          val_status v = VALID \<and> val_revision v = gs_revision_count s \<and> val_fingerprint v = Some fp \<and>
          gs_approval_revision s = Some (gs_revision_count s) \<and> gs_approval_fingerprint s = Some fp
      | _ \<Rightarrow> False)"

definition classify_records :: "proposed_action list \<Rightarrow> execution_record list \<Rightarrow> verification \<times> terminal_status" where
  "classify_records acts records =
     (let n = length records;
          failures = filter (\<lambda>i. rec_outcome (records ! i) = OUTCOME_FAILED) [0..<n]
      in if length acts < n then invalid_result n
         else if \<not> distinct (map rec_action_key records) then invalid_result n
         else if list_ex (\<lambda>(a, r). rec_action_key r \<noteq> action_key a \<or> rec_tool r \<noteq> action_tool a) (zip acts records)
         then invalid_result n
         else if 1 < length failures then invalid_result n
         else case failures of
                i # _ \<Rightarrow>
                  if i \<noteq> n - 1 then invalid_result n
                  else (failed_verification n agent_execution_failed,
                        if 0 < i then TERMINAL_PARTIAL_FAILURE else TERMINAL_FAILED)
              | [] \<Rightarrow>
                  if n \<noteq> length acts then invalid_result n
                  else if acts = [] then
                    (\<lparr>ver_status = NO_ACTION, ver_checked = 0, ver_error_code = None\<rparr>, TERMINAL_SUCCEEDED)
                  else (\<lparr>ver_status = VERIFIED, ver_checked = n, ver_error_code = None\<rparr>, TERMINAL_SUCCEEDED))"

definition verify_result :: "digest_rules \<Rightarrow> graph_state \<Rightarrow> verification \<times> terminal_status" where
  "verify_result D s =
     (if gs_workflow_error s \<noteq> None
      then (failed_verification (length (gs_execution_records s)) agent_workflow_failed, TERMINAL_FAILED)
      else if \<not> has_current_plan_binding D s then invalid_result 0
      else if gs_approval_decision s = Some REJECTED then
        if gs_execution_records s \<noteq> [] then invalid_result (length (gs_execution_records s))
        else (\<lparr>ver_status = VERIFICATION_REJECTED, ver_checked = 0, ver_error_code = None\<rparr>, TERMINAL_REJECTED)
      else if gs_approval_decision s \<noteq> Some APPROVED then invalid_result 0
      else (case gs_proposal s of
              None \<Rightarrow> invalid_result 0
            | Some proposal \<Rightarrow> classify_records (proposal_actions proposal) (gs_execution_records s)))"

definition summary_text :: "graph_state \<Rightarrow> verification \<Rightarrow> terminal_status \<Rightarrow> string result" where
  "summary_text s v t =
     (if ver_error_code v = Some agent_result_invalid then Inr ''Agent result verification failed.''
      else case t of
             TERMINAL_REJECTED \<Rightarrow> Inr ''Plan was rejected; no task actions were executed.''
           | TERMINAL_SUCCEEDED \<Rightarrow>
               if ver_status v = NO_ACTION then Inr ''Plan verified; no task changes were required.''
               else Inr (''Plan verified; '' @ digits_of (ver_checked v) @ '' task action(s) completed.'')
           | TERMINAL_PARTIAL_FAILURE \<Rightarrow>
               (case gs_proposal s of
                  None \<Rightarrow> Inl AssertionError
                | Some proposal \<Rightarrow> Inr (''Plan partially completed; '' @ digits_of (ver_checked v - 1) @ '' of '' @
                    digits_of (length (proposal_actions proposal)) @ '' task actions succeeded.''))
           | TERMINAL_FAILED \<Rightarrow> Inr ''Plan execution failed safely.'')"

definition summarize :: "digest_rules \<Rightarrow> graph_state \<Rightarrow> graph_output result" where
  "summarize D s =
     (let (v, t) = verify_result D s in
      if gs_verification s \<noteq> Some v \<or> gs_terminal_status s \<noteq> Some t then Inl AgentFinalizationError
      else
        let include_records = ver_error_code v \<notin> {Some agent_result_invalid, Some agent_workflow_failed}
        in bind_result (summary_text s v t) (\<lambda>text.
             graph_output \<lparr>out_status = t,
               out_plan = (case gs_proposal s of
                  Some proposal \<Rightarrow> if include_records then Some (proposal_result proposal) else None
                | None \<Rightarrow> None),
               out_summary = text,
               out_execution_records = (if include_records then gs_execution_records s else []),
               out_metrics = gs_metrics s\<rparr>))"

section \<open>Records of an execution\<close>

lemma run_action_record:
  "rec_action_key (fst (run_action P gw runner ctx n fp a d)) = action_key a"
  "rec_tool (fst (run_action P gw runner ctx n fp a d)) = action_tool a"
  by (auto simp: run_action_def Let_def split: sum.splits prod.splits)

text \<open>
  Executing a list of actions yields one record per action up to and including the first failure.
\<close>

definition records_for :: "proposed_action list \<Rightarrow> execution_record list \<Rightarrow> bool" where
  "records_for acts rs \<longleftrightarrow>
     length rs \<le> length acts \<and>
     (\<forall>i < length rs. rec_action_key (rs ! i) = action_key (acts ! i) \<and> rec_tool (rs ! i) = action_tool (acts ! i)) \<and>
     (\<forall>i < length rs - 1. rec_outcome (rs ! i) = OUTCOME_SUCCEEDED) \<and>
     (length rs < length acts \<longrightarrow> rs \<noteq> [] \<and> rec_outcome (last rs) = OUTCOME_FAILED)"

lemma records_for_Cons:
  assumes "rec_action_key r = action_key a" "rec_tool r = action_tool a"
    and "rec_outcome r = OUTCOME_SUCCEEDED" "records_for acts rs"
  shows "records_for (a # acts) (r # rs)"
  using assms unfolding records_for_def by (auto simp: nth_Cons split: nat.splits)

lemma run_actions_records:
  assumes "\<And>a d. rec_action_key (fst (f a d)) = action_key a \<and> rec_tool (fst (f a d)) = action_tool a"
  shows "records_for acts (fst (run_actions f acts d))"
proof (induction acts arbitrary: d)
  case Nil
  then show ?case by (simp add: records_for_def)
next
  case (Cons a acts)
  obtain r d' where f: "f a d = (r, d')" by force
  have key: "rec_action_key r = action_key a" "rec_tool r = action_tool a"
    using assms [of a d] f by simp_all
  show ?case
  proof (cases "rec_outcome r")
    case OUTCOME_FAILED
    then show ?thesis using key by (auto simp: f records_for_def)
  next
    case OUTCOME_SUCCEEDED
    then show ?thesis
      using records_for_Cons [OF key OUTCOME_SUCCEEDED Cons.IH [of d']]
      by (simp add: f split_beta)
  qed
qed

lemma failures_of_records:
  assumes "records_for acts rs"
  shows "filter (\<lambda>i. rec_outcome (rs ! i) = OUTCOME_FAILED) [0..<length rs] =
         (if rs \<noteq> [] \<and> rec_outcome (last rs) = OUTCOME_FAILED then [length rs - 1] else [])"
proof (cases rs rule: rev_cases)
  case (snoc ys y)
  have "rec_outcome (rs ! i) \<noteq> OUTCOME_FAILED" if "i < length ys" for i
    using assms that by (auto simp: records_for_def snoc)
  then have "filter (\<lambda>i. rec_outcome (rs ! i) = OUTCOME_FAILED) [0..<length ys] = []"
    by (simp add: filter_empty_conv)
  then show ?thesis by (simp add: snoc)
qed simp

lemma records_for_match:
  assumes "records_for acts rs"
  shows "\<not> list_ex (\<lambda>(a, r). rec_action_key r \<noteq> action_key a \<or> rec_tool r \<noteq> action_tool a) (zip acts rs)"
  using assms by (auto simp: records_for_def list_ex_iff in_set_zip)

lemma records_for_keys:
  assumes "records_for acts rs"
  shows "map rec_action_key rs = take (length rs) (map action_key acts)"
  using assms by (intro nth_equalityI) (auto simp: records_for_def)

text \<open>The classification of the records of an execution: success, partial failure or failure.\<close>

definition expected_classification :: "proposed_action list \<Rightarrow> execution_record list \<Rightarrow> verification \<times> terminal_status" where
  "expected_classification acts rs =
     (if rs \<noteq> [] \<and> rec_outcome (last rs) = OUTCOME_FAILED
      then (failed_verification (length rs) agent_execution_failed,
            if 1 < length rs then TERMINAL_PARTIAL_FAILURE else TERMINAL_FAILED)
      else (\<lparr>ver_status = (if acts = [] then NO_ACTION else VERIFIED), ver_checked = length rs, ver_error_code = None\<rparr>,
            TERMINAL_SUCCEEDED))"

lemma classify_records_for:
  assumes "records_for acts rs" "distinct (map action_key acts)"
  shows "classify_records acts rs = expected_classification acts rs"
proof -
  have "distinct (map rec_action_key rs)"
    using assms by (simp add: records_for_keys distinct_take)
  moreover have "length rs \<le> length acts" "rs = [] \<longrightarrow> acts = []"
    using assms(1) by (auto simp: records_for_def)
  moreover have "length rs = length acts" if "\<not> (rs \<noteq> [] \<and> rec_outcome (last rs) = OUTCOME_FAILED)"
    using assms(1) that by (cases "length rs < length acts") (auto simp: records_for_def)
  ultimately show ?thesis
    using records_for_match [OF assms(1)]
    unfolding classify_records_def expected_classification_def Let_def failures_of_records [OF assms(1)]
    by (cases "rs \<noteq> [] \<and> rec_outcome (last rs) = OUTCOME_FAILED") (auto simp: less_diff_conv)
qed

lemma execute_tasks_Inr:
  assumes "execute_tasks P D gw runner ctx s d = (Inr rs, d')"
  obtains proposal where "require_current_authorization D s = Inr proposal" "gs_proposal s = Some proposal"
    "records_for (proposal_actions proposal) rs" "has_current_plan_binding D s" "gs_approval_decision s = Some APPROVED"
proof -
  obtain proposal where p: "require_current_authorization D s = Inr proposal"
    using assms by (cases "require_current_authorization D s") (auto simp: execute_tasks_def)
  moreover have "rs = fst (run_actions (run_action P gw runner ctx (gs_revision_count s)
        (fingerprint_plan_proposal D proposal)) (proposal_actions proposal) d)"
    using assms p by (auto simp: execute_tasks_def map_prod_def split: if_splits prod.splits)
  moreover have "gs_proposal s = Some proposal" "has_current_plan_binding D s" "gs_approval_decision s = Some APPROVED"
    using p by (auto simp: require_current_authorization_def has_current_plan_binding_def Let_def
        split: option.splits if_splits)
  ultimately show ?thesis
    using that run_actions_records [of "run_action P gw runner ctx (gs_revision_count s)
        (fingerprint_plan_proposal D proposal)" "proposal_actions proposal" d]
    by (simp add: run_action_record)
qed

lemma verify_result_cong:
  "verify_result D (s\<lparr>gs_verification := v, gs_terminal_status := t\<rparr>) = verify_result D s"
  by (simp add: verify_result_def has_current_plan_binding_def cong: option.case_cong if_cong)

lemma digits_of_length: "length (digits_of n) \<le> Suc n"
proof (induction n rule: digits_of.induct)
  case (1 n)
  then show ?case by (subst digits_of.simps) auto
qed


lemma bounded_text_Inr:
  assumes "length s \<le> m" "s \<noteq> []" "\<not> py_space (hd s)"
  shows "\<exists>t. bounded_text m s = Inr t"
proof -
  have "strip s \<noteq> []"
    using assms(2,3) by (cases s) (auto simp: strip_eq_Nil_iff)
  moreover have "length (strip s) \<le> m"
    using length_strip_le [of s] assms(1) by linarith
  ultimately show ?thesis
    by (simp add: bounded_text_def Let_def)
qed

text \<open>
  The text of a summary is short and starts with a letter, so that the output contract accepts it.
\<close>

lemma summary_text_bounded:
  assumes "summary_text s v t = Inr msg" "ver_checked v \<le> max_plan_actions"
    and "\<And>p. gs_proposal s = Some p \<Longrightarrow> length (proposal_actions p) \<le> max_plan_actions"
  shows "\<exists>u. bounded_text 2000 msg = Inr u"
proof -
  have d: "length (digits_of n) \<le> 4" if "n \<le> max_plan_actions" for n
    using digits_of_length [of n] that by (simp add: max_plan_actions_def)
  have "length (digits_of (ver_checked v)) \<le> 4" "length (digits_of (ver_checked v - 1)) \<le> 4"
    using assms(2) by (auto intro!: d)
  moreover have "length (digits_of (length (proposal_actions p))) \<le> 4" if "gs_proposal s = Some p" for p
    using assms(3) [OF that] by (rule d)
  ultimately have "length msg \<le> 2000 \<and> msg \<noteq> [] \<and> \<not> py_space (hd msg)"
    using assms(1)
    by (fastforce simp: summary_text_def py_space_def Let_def
        split: if_splits option.splits terminal_status.splits)
  then show ?thesis by (intro bounded_text_Inr) auto
qed

lemma summarize_Inr:
  assumes "verify_result D s = (v, t)" "ver_checked v \<le> max_plan_actions"
    and "\<And>p. gs_proposal s = Some p \<Longrightarrow> length (proposal_actions p) \<le> max_plan_actions"
    and "t = TERMINAL_PARTIAL_FAILURE \<Longrightarrow> gs_proposal s \<noteq> None"
    and "length (gs_execution_records s) \<le> max_plan_actions"
  shows "\<exists>out. summarize D (s\<lparr>gs_verification := Some v, gs_terminal_status := Some t\<rparr>) = Inr out \<and>
           out_status out = t \<and>
           out_execution_records out =
             (if ver_error_code v \<in> {Some agent_result_invalid, Some agent_workflow_failed} then []
              else gs_execution_records s)"
proof -
  let ?s = "s\<lparr>gs_verification := Some v, gs_terminal_status := Some t\<rparr>"
  have v: "verify_result D ?s = (v, t)"
    using assms(1) by (simp add: verify_result_cong)
  obtain msg where msg: "summary_text ?s v t = Inr msg"
    using assms(4) by (fastforce simp: summary_text_def split: terminal_status.splits option.splits)
  then obtain u where "bounded_text 2000 msg = Inr u"
    using summary_text_bounded [OF msg assms(2)] assms(3) by auto
  then show ?thesis
    using assms(5) msg by (simp add: summarize_def v graph_output_def)
qed

section \<open>Claims\<close>

text \<open>The verdict on an execution is exact. When the execution node has run an approved proposal,
  verification never finds the records it left inconsistent: the run succeeds exactly when every
  proposed action has a record and none failed, it fails partially exactly when some actions
  succeeded before one failed, and it fails exactly when the first action failed; and the final
  output is always produced, with that verdict and with those records.\<close>

theorem executed_records_verified:
  assumes "execute_tasks P D gw runner ctx s d = (Inr rs, d')" "gs_workflow_error s = None"
    and "gs_proposal s = Some proposal" "plan_proposal_ok proposal"
  shows "let s' = s\<lparr>gs_execution_records := rs\<rparr>; (v, t) = verify_result D s' in
         (t = TERMINAL_SUCCEEDED \<longleftrightarrow>
            length rs = length (proposal_actions proposal) \<and> list_all (\<lambda>r. rec_outcome r = OUTCOME_SUCCEEDED) rs) \<and>
         (t = TERMINAL_PARTIAL_FAILURE \<longleftrightarrow> 1 < length rs \<and> rec_outcome (last rs) = OUTCOME_FAILED) \<and>
         (t = TERMINAL_FAILED \<longleftrightarrow> length rs = 1 \<and> rec_outcome (last rs) = OUTCOME_FAILED) \<and>
         map rec_action_key rs = take (length rs) (map action_key (proposal_actions proposal)) \<and>
         (\<exists>out. summarize D (s'\<lparr>gs_verification := Some v, gs_terminal_status := Some t\<rparr>) = Inr out \<and>
                out_status out = t \<and> out_execution_records out = rs)"
proof -
  let ?acts = "proposal_actions proposal"
  let ?s = "s\<lparr>gs_execution_records := rs\<rparr>"
  have rf: "records_for ?acts rs" and b: "has_current_plan_binding D s" "gs_approval_decision s = Some APPROVED"
    by (rule execute_tasks_Inr [OF assms(1)], use assms(3) in simp)+
  have dist: "distinct (map action_key ?acts)" and len: "length ?acts \<le> max_plan_actions"
    using assms(4) by (simp_all add: plan_proposal_ok_def)
  obtain v t where vt: "expected_classification ?acts rs = (v, t)" by force
  have "has_current_plan_binding D ?s"
    using b(1) by (simp add: has_current_plan_binding_def cong: option.case_cong)
  then have ver: "verify_result D ?s = (v, t)"
    using assms(2,3) b(2) classify_records_for [OF rf dist] vt by (simp add: verify_result_def)
  have all: "list_all (\<lambda>r. rec_outcome r = OUTCOME_SUCCEEDED) rs \<longleftrightarrow>
      \<not> (rs \<noteq> [] \<and> rec_outcome (last rs) = OUTCOME_FAILED)"
    using rf by (cases rs rule: rev_cases)
      (auto simp: records_for_def list_all_length nth_append less_Suc_eq intro: execution_outcome.exhaust)
  have n: "length rs \<le> length ?acts" "length rs < length ?acts \<Longrightarrow> rs \<noteq> [] \<and> rec_outcome (last rs) = OUTCOME_FAILED"
    using rf by (auto simp: records_for_def)
  have "ver_checked v \<le> max_plan_actions" "ver_error_code v \<notin> {Some agent_result_invalid, Some agent_workflow_failed}"
    using vt n(1) len
    by (auto simp: expected_classification_def failed_verification_def agent_execution_failed_def
        agent_result_invalid_def agent_workflow_failed_def split: if_splits)
  then have "\<exists>out. summarize D (?s\<lparr>gs_verification := Some v, gs_terminal_status := Some t\<rparr>) = Inr out \<and>
                out_status out = t \<and> out_execution_records out = rs"
    using summarize_Inr [OF ver] assms(3) len n(1) by simp
  moreover have "(t = TERMINAL_SUCCEEDED \<longleftrightarrow> length rs = length ?acts \<and> list_all (\<lambda>r. rec_outcome r = OUTCOME_SUCCEEDED) rs)"
    "(t = TERMINAL_PARTIAL_FAILURE \<longleftrightarrow> 1 < length rs \<and> rec_outcome (last rs) = OUTCOME_FAILED)"
    using vt n unfolding all by (fastforce simp: expected_classification_def split: if_splits)+
  moreover have "(t = TERMINAL_FAILED \<longleftrightarrow> length rs = 1 \<and> rec_outcome (last rs) = OUTCOME_FAILED)"
    using vt by (cases rs; cases "tl rs") (auto simp: expected_classification_def split: if_splits)
  ultimately show ?thesis
    by (simp add: Let_def ver records_for_keys [OF rf])
qed

text \<open>The arguments that a preview displays.\<close>

fun shown_arguments :: "approval_preview \<Rightarrow> tool_arguments" where
  "shown_arguments (Preview_create k ks c) = Args_create c"
| "shown_arguments (Preview_update k i u) = Args_update i u"
| "shown_arguments (Preview_batch k cs) = Args_batch (map snd cs)"
| "shown_arguments (Preview_delete k i) = Args_delete i"

lemma batch_objects_length:
  assumes "batch_create_arguments P obj = Inr cs"
  shows "length (batch_objects obj) = length cs"
proof -
  obtain v where v: "map_of obj ''tasks'' = Some v" "to_task_creates P v = Inr cs"
    using assms by (auto simp: batch_create_arguments_def required_def result_Inr)
  then show ?thesis
    by (cases v) (auto simp: traverse_Inr_iff dest: list_all2_lengthD)
qed

lemma input_error_Inr [simp]: "input_error r = Inr v \<longleftrightarrow> r = Inr v"
  by (auto simp: input_error_def split: sum.splits)

lemma map_sum_eq_Inr [simp]: "map_sum f g r = Inr v \<longleftrightarrow> (\<exists>x. r = Inr x \<and> v = g x)"
  by (cases r) auto

lemma preview_action_faithful:
  assumes "preview_action P ctx a = Inr pv"
  shows "preview_key pv = action_key a \<and> preview_tool pv = action_tool a \<and>
    validate_tool_arguments P (tool_value (action_tool a)) (action_arguments a) ctx = Inr (shown_arguments pv)"
proof -
  obtain v where v: "validate_tool_arguments P (tool_value (action_tool a)) (action_arguments a) ctx = Inr v"
    using assms by (auto simp: preview_action_def result_Inr)
  show ?thesis
  proof (cases "action_tool a")
    case CREATE_TASK
    then show ?thesis using v assms
      by (auto simp: preview_action_def result_Inr validate_tool_arguments_def split: if_splits)
  next
    case UPDATE_TASK
    then obtain i u where u: "v = Args_update i u" "update_task_arguments P (action_arguments a) = Inr (i, u)"
      using v by (auto simp: validate_tool_arguments_def split: if_splits)
    then have "to_task_update u = Inr u"
      by (auto simp: update_task_arguments_def result_Inr intro: revalidate_update)
    then show ?thesis using UPDATE_TASK v u assms by (auto simp: preview_action_def)
  next
    case BATCH_CREATE_TASKS
    then obtain cs where cs: "v = Args_batch cs" "batch_create_arguments P (action_arguments a) = Inr cs"
      using v by (auto simp: validate_tool_arguments_def split: if_splits)
    then show ?thesis using BATCH_CREATE_TASKS v assms batch_objects_length [OF cs(2)]
      by (auto simp: preview_action_def)
  next
    case DELETE_TASK
    then show ?thesis using v assms
      by (auto simp: preview_action_def result_Inr validate_tool_arguments_def split: if_splits)
  qed
qed

lemma case_sum_eq_Inr:
  "(case r of Inl x \<Rightarrow> f x | Inr v \<Rightarrow> g v) = Inr y \<longleftrightarrow>
   (\<exists>x. r = Inl x \<and> f x = Inr y) \<or> (\<exists>v. r = Inr v \<and> g v = Inr y)"
  by (cases r) auto

lemma build_approval_request_Inr:
  assumes "build_approval_request P D R ctx s = Inr req"
  obtains proposal v where "gs_proposal s = Some proposal" "gs_validation s = Some v"
    "val_status v = VALID" "val_revision v = gs_revision_count s"
    "val_fingerprint v = Some (req_fingerprint req)" "req_fingerprint req = fingerprint_plan_proposal D proposal"
    "list_all2 (\<lambda>a pv. preview_action P ctx a = Inr pv) (proposal_actions proposal) (req_previews req)"
    "approval_request_ok D R req" "req_result req = proposal_result proposal" "req_revision req = gs_revision_count s"
  using assms that
  by (auto simp: build_approval_request_def current_validated_fingerprint_def Let_def result_Inr
      case_sum_eq_Inr traverse_Inr_iff)

text \<open>C8: what the approver sees is what is executed. An approval request shows every proposed
  action, in order, with its key, its tool and exactly the arguments that running that action passes to
  the domain gateway; approving it authorizes this proposal, no other decision authorizes anything,
  and the approval does not carry over to a proposal with another fingerprint.\<close>

theorem approval_shows_what_runs:
  assumes "build_approval_request P D R ctx s = Inr req" "gs_proposal s = Some proposal"
  shows "list_all2 (\<lambda>a pv. preview_key pv = action_key a \<and> preview_tool pv = action_tool a \<and>
            execute_tool P gw (tool_value (action_tool a)) (action_arguments a) ctx =
              run_tool gw (ctx_user_id ctx) (shown_arguments pv)) (proposal_actions proposal) (req_previews req) \<and>
         (let s' = apply_approval_response s \<lparr>resp_decision = APPROVED, resp_feedback = None\<rparr> (req_fingerprint req) in
            require_current_authorization D s' = Inr proposal \<and>
            (\<forall>p. fingerprint_plan_proposal D p \<noteq> req_fingerprint req \<longrightarrow>
                 require_current_authorization D (s'\<lparr>gs_proposal := Some p\<rparr>) = Inl AgentExecutionNotAuthorizedError)) \<and>
         (\<forall>r. resp_decision r \<noteq> APPROVED \<longrightarrow>
              require_current_authorization D (apply_approval_response s r (req_fingerprint req)) =
                Inl AgentExecutionNotAuthorizedError)"
proof -
  obtain v where f: "gs_validation s = Some v" "val_status v = VALID" "val_revision v = gs_revision_count s"
    "val_fingerprint v = Some (req_fingerprint req)" "req_fingerprint req = fingerprint_plan_proposal D proposal"
    "list_all2 (\<lambda>a pv. preview_action P ctx a = Inr pv) (proposal_actions proposal) (req_previews req)"
    by (rule build_approval_request_Inr [OF assms(1)], use assms(2) in auto)
  have "list_all2 (\<lambda>a pv. preview_key pv = action_key a \<and> preview_tool pv = action_tool a \<and>
            execute_tool P gw (tool_value (action_tool a)) (action_arguments a) ctx =
              run_tool gw (ctx_user_id ctx) (shown_arguments pv)) (proposal_actions proposal) (req_previews req)"
    using f(6) by (rule list_all2_mono) (simp add: preview_action_faithful execute_tool_def fun_eq_iff)
  then show ?thesis
    using assms(2) f(1-5)
    by (auto simp: Let_def apply_approval_response_def require_current_authorization_def
        split: approval_decision.splits)
qed

section \<open>A concrete run\<close>

definition demo_digest :: digest_rules where
  "demo_digest = \<lparr>dg_sha256 = (\<lambda>s. replicate 64 (if fold (\<lambda>_ b. \<not> b) s True then CHR ''0'' else CHR ''1'')),
     dg_float_repr = (\<lambda>q. ''0.5'')\<rparr>"

definition demo_dump :: dump_rules where
  "demo_dump = \<lparr>from_uuid = (\<lambda>i. J_int (int i)), from_date = J_int, from_instant = J_int\<rparr>"

definition demo_step :: study_plan_step where
  "demo_step = \<lparr>step_key = ''read'', step_position = 1, step_title = ''Read'', step_description = ''Read a book'',
     step_success_criteria = ''Done'', step_citation_ids = None\<rparr>"

definition demo_proposal :: plan_proposal where
  "demo_proposal = \<lparr>proposal_result = \<lparr>result_prompt_version = ''study-plan.v2'',
       result_plan = \<lparr>plan_summary = ''Plan'', plan_steps = [demo_step]\<rparr>\<rparr>,
     proposal_actions = [
       \<lparr>action_key = ''create'', action_tool = CREATE_TASK,
        action_arguments = [(''project_id'', J_int 10), (''title'', J_str ''Read'')]\<rparr>,
       \<lparr>action_key = ''update'', action_tool = UPDATE_TASK,
        action_arguments = [(''task_id'', J_int 99), (''title'', J_str ''Write'')]\<rparr>]\<rparr>"

definition demo_goal :: planning_goal where
  "demo_goal = \<lparr>goal_objective = ''Learn'', goal_constraints = []\<rparr>"

definition demo_validated :: graph_state where
  "demo_validated = (initial_state demo_goal)\<lparr>gs_proposal := Some demo_proposal,
     gs_validation := Some \<lparr>val_status = VALID, val_revision = 0,
       val_fingerprint = Some (fingerprint_plan_proposal demo_digest demo_proposal), val_error_code = None\<rparr>\<rparr>"

definition demo_approved :: graph_state where
  "demo_approved = apply_approval_response demo_validated \<lparr>resp_decision = APPROVED, resp_feedback = None\<rparr>
     (fingerprint_plan_proposal demo_digest demo_proposal)"

lemma demo_proposal_ok: "plan_proposal_ok demo_proposal"
  by code_simp

definition demo_request :: approval_request where
  "demo_request = \<lparr>req_summary = ''Plan'', req_actions = [CREATE_TASK, UPDATE_TASK], req_revision = 0,
     req_fingerprint = fingerprint_plan_proposal demo_digest demo_proposal,
     req_result = proposal_result demo_proposal,
     req_previews =
       [Preview_create ''create'' [''project_id'', ''title'']
          \<lparr>tc_project_id = 10, tc_title = ''Read'', tc_description = None, tc_planned_date = None,
           tc_due_at = None, tc_estimated_minutes = None, tc_priority = MEDIUM\<rparr>,
        Preview_update ''update'' 99
          \<lparr>tu_title = Some ''Write'', tu_description = None, tu_planned_date = None, tu_due_at = None,
           tu_estimated_minutes = None, tu_priority = None, tu_status = None\<rparr>]\<rparr>"

lemma demo_fingerprint:
  "fingerprint_plan_proposal demo_digest demo_proposal = replicate 64 CHR ''1''"
  by code_simp

lemma demo_request_proposal: "to_plan_proposal demo_dump demo_request = demo_proposal"
  unfolding demo_request_def demo_fingerprint by code_simp

lemma demo_request_size:
  "utf8_length (json_dumps demo_digest (canonical_preview_json demo_dump demo_request)) \<le> preview_byte_limit"
proof -
  have "utf8_length (json_dumps demo_digest (canonical_preview_json demo_dump demo_request)) \<le> 1000"
    unfolding demo_request_def demo_fingerprint by code_simp
  then show ?thesis by (simp add: preview_byte_limit_def)
qed

lemma demo_request_ok: "approval_request_ok demo_digest demo_dump demo_request"
proof -
  have "digest_format (req_fingerprint demo_request)"
    unfolding demo_request_def demo_fingerprint by code_simp
  moreover have "bounded 1000 ''Plan''"
    by (simp add: bounded_def bounded_text_def strip_def py_space_def Let_def)
  then have "bounded 1000 (req_summary demo_request)"
    by (simp add: demo_request_def)
  ultimately show ?thesis
    using demo_request_size demo_request_proposal demo_proposal_ok
    by (simp add: approval_request_ok_def demo_request_def max_plan_actions_def) (simp add: demo_proposal_def)
qed

lemma demo_previews:
  "traverse (preview_action demo_rules_json demo_ctx) (proposal_actions demo_proposal) = Inr (req_previews demo_request)"
  unfolding demo_request_def demo_fingerprint by code_simp

lemma demo_request_built:
  "build_approval_request demo_rules_json demo_digest demo_dump demo_ctx demo_validated = Inr demo_request"
proof -
  have "current_validated_fingerprint demo_digest demo_validated = Inr (req_fingerprint demo_request)"
    by (simp add: current_validated_fingerprint_def demo_validated_def initial_state_def demo_request_def Let_def)
  moreover have "gs_proposal demo_validated = Some demo_proposal" "gs_revision_count demo_validated = 0"
    by (simp_all add: demo_validated_def initial_state_def)
  moreover have "\<lparr>req_summary = plan_summary (result_plan (proposal_result demo_proposal)),
      req_actions = map action_tool (proposal_actions demo_proposal), req_revision = 0,
      req_fingerprint = req_fingerprint demo_request, req_result = proposal_result demo_proposal,
      req_previews = req_previews demo_request\<rparr> = demo_request"
    by (simp add: demo_request_def demo_proposal_def)
  ultimately show ?thesis
    by (simp add: build_approval_request_def demo_previews demo_request_ok Let_def)
qed

lemma demo_execution:
  "\<exists>rs. fst (execute_tasks demo_rules_json demo_digest demo_gateway None demo_ctx demo_approved demo_tasks_db) = Inr rs \<and>
     map rec_outcome rs = [OUTCOME_SUCCEEDED, OUTCOME_FAILED]"
proof -
  have "(case fst (execute_tasks demo_rules_json demo_digest demo_gateway None demo_ctx demo_approved demo_tasks_db) of
     Inl _ \<Rightarrow> False | Inr rs \<Rightarrow> map rec_outcome rs = [OUTCOME_SUCCEEDED, OUTCOME_FAILED])"
    by code_simp
  then show ?thesis by (auto split: sum.splits)
qed

theorem executed_records_verified_witness:
  "\<exists>rs d'. execute_tasks demo_rules_json demo_digest demo_gateway None demo_ctx demo_approved demo_tasks_db = (Inr rs, d') \<and>
     snd (verify_result demo_digest (demo_approved\<lparr>gs_execution_records := rs\<rparr>)) = TERMINAL_PARTIAL_FAILURE"
proof -
  obtain rs d' where x: "execute_tasks demo_rules_json demo_digest demo_gateway None demo_ctx demo_approved demo_tasks_db = (Inr rs, d')"
    and o: "map rec_outcome rs = [OUTCOME_SUCCEEDED, OUTCOME_FAILED]"
    using demo_execution by (metis prod.collapse)
  have "gs_workflow_error demo_approved = None" "gs_proposal demo_approved = Some demo_proposal"
    by (simp_all add: demo_approved_def demo_validated_def initial_state_def apply_approval_response_def Let_def)
  note t = executed_records_verified [OF x this demo_proposal_ok]
  have "1 < length rs \<and> rec_outcome (last rs) = OUTCOME_FAILED"
    using o by auto
  then show ?thesis using t x by (auto simp: Let_def split: prod.splits)
qed

theorem approval_shows_what_runs_witness:
  "require_current_authorization demo_digest (apply_approval_response demo_validated
     \<lparr>resp_decision = APPROVED, resp_feedback = None\<rparr> (req_fingerprint demo_request)) = Inr demo_proposal \<and>
   length (req_previews demo_request) = 2"
proof -
  have "gs_proposal demo_validated = Some demo_proposal"
    by (simp add: demo_validated_def initial_state_def)
  from approval_shows_what_runs [OF demo_request_built this, of demo_gateway] show ?thesis
    by (auto simp: Let_def demo_proposal_def dest: list_all2_lengthD)
qed

lemma build_run_metrics_Inr:
  "build_run_metrics version rounds attempts calls usages started finished = Inr m \<longleftrightarrow>
   started \<le> finished \<and> m = \<lparr>met_prompt_version = version, met_model_round_count = rounds,
     met_provider_attempt_count = attempts, met_tool_call_count = calls,
     met_input_tokens = sum_known (map usage_input usages), met_output_tokens = sum_known (map usage_output usages),
     met_total_tokens = sum_known (map usage_total usages), met_latency_ms = (finished - started) * 1000\<rparr>"
  by (auto simp: build_run_metrics_def aggregate_usage_def Let_def)

definition accounted :: "planner \<Rightarrow> string \<Rightarrow> nat \<Rightarrow> (plan_proposal \<times> run_metrics) result \<Rightarrow> bool" where
  "accounted pl inp first r \<longleftrightarrow> r \<noteq> Inl AssertionError \<and>
     (\<forall>p m. r = Inr (p, m) \<longrightarrow>
       (\<exists>t n usage. first \<le> n \<and> n \<le> planning_max_attempts \<and> met_provider_attempt_count m = int n \<and>
          pl_generate pl inp n = Provider_response (Some t) 0 usage \<and> pl_parse pl t = Some p \<and>
          0 \<le> met_latency_ms m \<and> met_model_round_count m = 1 \<and> met_tool_call_count m = 0 \<and>
          met_prompt_version m = study_plan_prompt_version))"

lemma generate_attempts_accounted:
  "attempt + k = planning_max_attempts + 1 \<Longrightarrow> 0 < k \<Longrightarrow>
   accounted pl inp attempt (generate_attempts pl inp k attempt us)"
proof (induction k arbitrary: attempt us)
  case (Suc k)
  have retry: "accounted pl inp attempt (if attempt = planning_max_attempts then Inl AgentPlanningUnavailableError
      else generate_attempts pl inp k (Suc attempt) us')" for us'
  proof (cases "attempt = planning_max_attempts")
    case False
    then have "accounted pl inp (Suc attempt) (generate_attempts pl inp k (Suc attempt) us')"
      using Suc.prems by (intro Suc.IH) auto
    then show ?thesis using False by (fastforce simp: accounted_def)
  qed (simp add: accounted_def)
  have answer: "accounted pl inp attempt
      (case build_run_metrics study_plan_prompt_version 1 (int attempt) 0 us' (pl_clock pl 0) (pl_clock pl 1) of
         Inl _ \<Rightarrow> Inl AgentPlanningUnavailableError | Inr metrics \<Rightarrow> Inr (proposal, metrics))"
    if "pl_generate pl inp attempt = Provider_response (Some t) 0 usage" "pl_parse pl t = Some proposal" for us' t usage proposal
    using that Suc.prems by (auto simp: accounted_def build_run_metrics_Inr split: sum.splits)
  show ?case
    using retry answer
    by (auto simp: Let_def accounted_def [of _ _ _ "Inl _"] split: provider_outcome.splits option.splits)
qed simp

text \<open>Planning is bounded and accounted for. The planning node asks the provider at most twice and
  never falls off its retry loop; a proposal it returns is one that the answer parsed to, at the
  attempt that the metrics record, with a latency that is never negative, one model round and no
  tool call.\<close>

theorem generate_plan_bounded:
  assumes "gs_analysis s = Some an" "gs_context s = Some cs"
    and "pl_prompt pl (gs_goal s) an cs (gs_approval_feedback s) = Inr inp"
  shows "generate_plan pl s \<noteq> Inl AssertionError \<and>
    (\<forall>p m. generate_plan pl s = Inr (p, m) \<longrightarrow>
       (\<exists>t n usage. 1 \<le> n \<and> n \<le> planning_max_attempts \<and> met_provider_attempt_count m = int n \<and>
          pl_generate pl inp n = Provider_response (Some t) 0 usage \<and> pl_parse pl t = Some p \<and>
          0 \<le> met_latency_ms m \<and> met_model_round_count m = 1 \<and> met_tool_call_count m = 0 \<and>
          met_prompt_version m = study_plan_prompt_version))"
proof -
  have "generate_plan pl s = generate_attempts pl inp planning_max_attempts 1 []"
    using assms by (simp add: generate_plan_def)
  moreover have "accounted pl inp 1 (generate_attempts pl inp planning_max_attempts 1 [])"
    by (rule generate_attempts_accounted) (simp_all add: planning_max_attempts_def)
  ultimately show ?thesis
    by (simp add: accounted_def)
qed

definition demo_context :: context_snapshot where
  "demo_context = \<lparr>cs_projects = \<lparr>pl_items = [], pl_page = 1, pl_page_size = 20, pl_total = 0, pl_pages = 0\<rparr>,
     cs_tasks = \<lparr>tl_items = [], tl_page = 1, tl_page_size = 20, tl_total = 0, tl_pages = 0\<rparr>, cs_knowledge = []\<rparr>"

definition demo_analysis :: goal_analysis where
  "demo_analysis = \<lparr>an_objective = ''Learn'', an_constraints = [], an_required_context = [PROJECTS, TASKS, KNOWLEDGE]\<rparr>"

text \<open>A provider that times out once and then answers.\<close>

definition demo_planner :: planner where
  "demo_planner = \<lparr>pl_prompt = (\<lambda>g an cs fb. Inr ''Prompt''),
     pl_generate = (\<lambda>inp n. if n = 1 then Provider_timeout
        else Provider_response (Some ''answer'') 0 \<lparr>usage_input = Some 5, usage_output = Some 7, usage_total = None\<rparr>),
     pl_parse = (\<lambda>t. if t = ''answer'' then Some demo_proposal else None), pl_clock = rat_of_nat\<rparr>"

theorem generate_plan_bounded_witness:
  "\<exists>m. generate_plan demo_planner ((initial_state demo_goal)\<lparr>gs_analysis := Some demo_analysis,
     gs_context := Some demo_context\<rparr>) = Inr (demo_proposal, m) \<and> met_provider_attempt_count m = 2"
proof -
  let ?s = "(initial_state demo_goal)\<lparr>gs_analysis := Some demo_analysis, gs_context := Some demo_context\<rparr>"
  obtain m where m: "generate_plan demo_planner ?s = Inr (demo_proposal, m)"
    by (simp add: generate_plan_def initial_state_def demo_planner_def planning_max_attempts_def numeral_2_eq_2
        build_run_metrics_def Let_def)
  have "pl_prompt demo_planner (gs_goal ?s) demo_analysis demo_context (gs_approval_feedback ?s) = Inr ''Prompt''"
    by (simp add: demo_planner_def)
  from generate_plan_bounded [OF _ _ this] m
  obtain t n usage where "1 \<le> n" "n \<le> planning_max_attempts" "met_provider_attempt_count m = int n"
    "pl_generate demo_planner ''Prompt'' n = Provider_response (Some t) 0 usage"
    by auto
  then show ?thesis using m
    by (cases "n = 1") (auto simp: demo_planner_def planning_max_attempts_def)
qed

end
