(* ===== verification/Agent_Graph.thy ===== *)
theory Agent_Graph
  imports Agent_Nodes
begin

text \<open>
  The composition of the nodes, \<open>app/agent/graph.py\<close> and \<open>app/agent/routing.py\<close>: the eight node
  wrappers that turn exceptions into workflow errors, the routes between them, the bounded run of
  the compiled graph, the facade \<open>AgentWorkflow\<close> and the classification of a durable checkpoint.
  LangGraph runs one node per superstep, applies its partial update, validates the state and
  follows the route; the saver keeps, per thread, the state after the last superstep, the node to
  run next and a pending interrupt. Trace spans are not modelled.
\<close>

section \<open>Dependencies\<close>

text \<open>
  What \<open>build_agent_graph\<close> receives. The provider may answer differently each time the planning
  node runs; the node runs once per revision, so the planner is indexed by the revision.
\<close>

record graph_deps =
  gd_rules :: pydantic_rules
  gd_digest :: digest_rules
  gd_dump :: dump_rules
  gd_uuid_text :: "uuid \<Rightarrow> string"
  gd_gateway :: gateway
  gd_context :: runtime_context
  gd_planner :: "nat \<Rightarrow> planner"
  gd_runner :: "action_runner option"

text \<open>
  Where decisions come from: a synchronous decider, or the value a durable run was resumed with
  (\<open>None\<close> when there is none, and the node interrupts).
\<close>

datatype approver = Decider "approval_request \<Rightarrow> approval_response result" | Durable "approval_response option"

definition agent_graph_recursion_limit :: nat where "agent_graph_recursion_limit = 16"

section \<open>Nodes\<close>

definition failed :: "string \<Rightarrow> graph_state \<Rightarrow> graph_state" where
  "failed code s = s\<lparr>gs_workflow_error := Some code\<rparr>"

definition sum_optional :: "int option \<Rightarrow> int option \<Rightarrow> int option" where
  "sum_optional a b =
     (case (a, b) of
        (None, None) \<Rightarrow> None
      | _ \<Rightarrow> Some ((case a of None \<Rightarrow> 0 | Some x \<Rightarrow> x) + (case b of None \<Rightarrow> 0 | Some y \<Rightarrow> y)))"

definition merge_metrics :: "run_metrics option \<Rightarrow> run_metrics \<Rightarrow> run_metrics" where
  "merge_metrics previous current =
     (case previous of
        None \<Rightarrow> current
      | Some p \<Rightarrow> current\<lparr>
          met_model_round_count := met_model_round_count p + met_model_round_count current,
          met_provider_attempt_count := met_provider_attempt_count p + met_provider_attempt_count current,
          met_tool_call_count := met_tool_call_count p + met_tool_call_count current,
          met_input_tokens := sum_optional (met_input_tokens p) (met_input_tokens current),
          met_output_tokens := sum_optional (met_output_tokens p) (met_output_tokens current),
          met_total_tokens := sum_optional (met_total_tokens p) (met_total_tokens current),
          met_latency_ms := met_latency_ms p + met_latency_ms current\<rparr>)"

datatype node_outcome = Updated graph_state | Interrupted approval_request | Raised exn

definition analysis_node :: "graph_state \<Rightarrow> graph_state" where
  "analysis_node s =
     (case analyze_goal s of
        Inl _ \<Rightarrow> failed ''AGENT_ANALYSIS_FAILED'' s
      | Inr an \<Rightarrow> s\<lparr>gs_analysis := Some an\<rparr>)"

definition context_node :: "graph_deps \<Rightarrow> graph_state \<Rightarrow> db \<Rightarrow> graph_state \<times> db" where
  "context_node g s d =
     (case load_context (gd_rules g) (gd_gateway g) (gd_uuid_text g) (gd_context g) s d of
        (Inl _, d') \<Rightarrow> (failed ''AGENT_CONTEXT_FAILED'' s, d')
      | (Inr cs, d') \<Rightarrow> (s\<lparr>gs_context := Some cs\<rparr>, d'))"

definition planning_node :: "graph_deps \<Rightarrow> graph_state \<Rightarrow> graph_state" where
  "planning_node g s =
     (case generate_plan (gd_planner g (gs_revision_count s)) s of
        Inl _ \<Rightarrow> failed ''AGENT_PLANNING_FAILED'' s
      | Inr (proposal, metrics) \<Rightarrow>
          s\<lparr>gs_proposal := Some proposal, gs_metrics := Some (merge_metrics (gs_metrics s) metrics)\<rparr>)"

text \<open>The result is an \<open>AgentPlanValidation\<close>, whose own contract may refuse it.\<close>

definition validation_node :: "graph_deps \<Rightarrow> graph_state \<Rightarrow> graph_state" where
  "validation_node g s =
     (let v = validate_plan (gd_rules g) (gd_digest g) (gd_context g) s in
      if plan_validation_ok v then s\<lparr>gs_validation := Some v\<rparr> else failed ''AGENT_PLANNING_FAILED'' s)"

definition interrupt_for_approval ::
  "graph_deps \<Rightarrow> approval_response option \<Rightarrow> graph_state \<Rightarrow> (approval_request + graph_state) result" where
  "interrupt_for_approval g resume s =
     bind_result (build_approval_request (gd_rules g) (gd_digest g) (gd_dump g) (gd_context g) s) (\<lambda>req.
       case resume of
         None \<Rightarrow> Inr (Inl req)
       | Some a \<Rightarrow>
           bind_result (approval_response (resp_decision a) (resp_feedback a)) (\<lambda>r.
             Inr (Inr (apply_approval_response s r (req_fingerprint req)))))"

definition approval_node :: "graph_deps \<Rightarrow> approver \<Rightarrow> graph_state \<Rightarrow> node_outcome" where
  "approval_node g ap s =
     (case ap of
        Decider decide \<Rightarrow>
          (case request_approval (gd_rules g) (gd_digest g) (gd_dump g) (gd_context g) decide s of
             Inl _ \<Rightarrow> Updated (failed ''AGENT_APPROVAL_FAILED'' s)
           | Inr s' \<Rightarrow> Updated s')
      | Durable resume \<Rightarrow>
          (case interrupt_for_approval g resume s of
             Inl _ \<Rightarrow> Updated (failed ''AGENT_APPROVAL_FAILED'' s)
           | Inr (Inl req) \<Rightarrow> Interrupted req
           | Inr (Inr s') \<Rightarrow> Updated s'))"

definition execution_node :: "graph_deps \<Rightarrow> graph_state \<Rightarrow> db \<Rightarrow> graph_state \<times> db" where
  "execution_node g s d =
     (case execute_tasks (gd_rules g) (gd_digest g) (gd_gateway g) (gd_runner g) (gd_context g) s d of
        (Inl _, d') \<Rightarrow> (failed ''AGENT_EXECUTION_NODE_FAILED'' s, d')
      | (Inr rs, d') \<Rightarrow>
          (s\<lparr>gs_execution_records := rs,
             gs_metrics := map_option (\<lambda>m. m\<lparr>met_tool_call_count := met_tool_call_count m + int (length rs)\<rparr>)
               (gs_metrics s)\<rparr>, d'))"

definition verification_node :: "graph_deps \<Rightarrow> graph_state \<Rightarrow> graph_state" where
  "verification_node g s =
     (case verify_result (gd_digest g) s of (v, t) \<Rightarrow>
        s\<lparr>gs_verification := Some v, gs_terminal_status := Some t\<rparr>)"

definition summary_node :: "graph_deps \<Rightarrow> graph_state \<Rightarrow> node_outcome" where
  "summary_node g s =
     (case summarize (gd_digest g) s of
        Inl x \<Rightarrow> Raised x
      | Inr out \<Rightarrow> Updated (s\<lparr>gs_terminal_status := Some (out_status out), gs_summary := Some (out_summary out)\<rparr>))"

definition run_graph_node :: "graph_deps \<Rightarrow> approver \<Rightarrow> run_node \<Rightarrow> graph_state \<Rightarrow> db \<Rightarrow> node_outcome \<times> db" where
  "run_graph_node g ap n s d =
     (case n of
        ANALYZE_GOAL \<Rightarrow> (Updated (analysis_node s), d)
      | LOAD_CONTEXT \<Rightarrow> map_prod Updated id (context_node g s d)
      | GENERATE_PLAN \<Rightarrow> (Updated (planning_node g s), d)
      | VALIDATE_PLAN \<Rightarrow> (Updated (validation_node g s), d)
      | REQUEST_APPROVAL \<Rightarrow> (approval_node g ap s, d)
      | EXECUTE_TASKS \<Rightarrow> map_prod Updated id (execution_node g s d)
      | VERIFY_RESULT \<Rightarrow> (Updated (verification_node g s), d)
      | SUMMARIZE \<Rightarrow> (summary_node g s, d))"

section \<open>Routes\<close>

datatype agent_route = ROUTE_EXECUTE_TASKS | ROUTE_GENERATE_PLAN | ROUTE_SUMMARIZE

definition route_after_approval :: "graph_state \<Rightarrow> agent_route result" where
  "route_after_approval s =
     (case gs_approval_decision s of
        Some APPROVED \<Rightarrow> Inr ROUTE_EXECUTE_TASKS
      | Some REQUEST_CHANGES \<Rightarrow> Inr ROUTE_GENERATE_PLAN
      | Some REJECTED \<Rightarrow> Inr ROUTE_SUMMARIZE
      | None \<Rightarrow> Inl AgentRoutingError)"

definition continue_or_verify :: "run_node \<Rightarrow> graph_state \<Rightarrow> run_node" where
  "continue_or_verify next s = (if gs_workflow_error s \<noteq> None then VERIFY_RESULT else next)"

definition route_validation :: "graph_state \<Rightarrow> run_node" where
  "route_validation s =
     (if gs_workflow_error s \<noteq> None then VERIFY_RESULT
      else case gs_validation s of
             None \<Rightarrow> VERIFY_RESULT
           | Some v \<Rightarrow> if val_status v \<noteq> VALID then VERIFY_RESULT else REQUEST_APPROVAL)"

definition route_approval :: "graph_state \<Rightarrow> run_node result" where
  "route_approval s =
     (if gs_workflow_error s \<noteq> None then Inr VERIFY_RESULT
      else bind_result (route_after_approval s) (\<lambda>r.
        Inr (case r of
               ROUTE_EXECUTE_TASKS \<Rightarrow> EXECUTE_TASKS
             | ROUTE_GENERATE_PLAN \<Rightarrow> GENERATE_PLAN
             | ROUTE_SUMMARIZE \<Rightarrow> VERIFY_RESULT)))"

text \<open>\<open>None\<close> is \<open>END\<close>.\<close>

definition graph_route :: "run_node \<Rightarrow> graph_state \<Rightarrow> run_node option result" where
  "graph_route n s =
     (case n of
        ANALYZE_GOAL \<Rightarrow> Inr (Some (continue_or_verify LOAD_CONTEXT s))
      | LOAD_CONTEXT \<Rightarrow> Inr (Some (continue_or_verify GENERATE_PLAN s))
      | GENERATE_PLAN \<Rightarrow> Inr (Some (continue_or_verify VALIDATE_PLAN s))
      | VALIDATE_PLAN \<Rightarrow> Inr (Some (route_validation s))
      | REQUEST_APPROVAL \<Rightarrow> bind_result (route_approval s) (\<lambda>n'. Inr (Some n'))
      | EXECUTE_TASKS \<Rightarrow> Inr (Some VERIFY_RESULT)
      | VERIFY_RESULT \<Rightarrow> Inr (Some SUMMARIZE)
      | SUMMARIZE \<Rightarrow> Inr None)"

section \<open>Running the graph\<close>

text \<open>
  The field constraints of \<open>AgentGraphState\<close>; nested values are instances of frozen contracts and
  are not validated again.
\<close>

definition graph_state_ok :: "graph_state \<Rightarrow> bool" where
  "graph_state_ok s \<longleftrightarrow>
     opt_all (bounded 1000) (gs_approval_feedback s) \<and>
     opt_all (\<lambda>r. r \<le> max_plan_revisions) (gs_approval_revision s) \<and>
     opt_all digest_format (gs_approval_fingerprint s) \<and>
     gs_revision_count s \<le> max_plan_revisions \<and>
     length (gs_execution_records s) \<le> max_plan_actions \<and>
     opt_all error_code_format (gs_workflow_error s) \<and>
     opt_all (bounded 2000) (gs_summary s)"

text \<open>
  How a run of the compiled graph ends: at \<open>END\<close>, at an interrupt, or with an exception, in which
  case the last checkpoint is the one before the failing superstep.
\<close>

datatype graph_outcome =
    Completed graph_state
  | Paused run_node graph_state approval_request
  | Stopped run_node graph_state exn

text \<open>A resume value answers the interrupt it was given for, and no later one.\<close>

fun consume :: "run_node \<Rightarrow> approver \<Rightarrow> approver" where
  "consume REQUEST_APPROVAL (Durable r) = Durable None"
| "consume n ap = ap"

text \<open>\<open>GraphRecursionError\<close>, a \<open>RuntimeError\<close>, is raised when the supersteps are used up.\<close>

fun run_graph ::
  "graph_deps \<Rightarrow> approver \<Rightarrow> nat \<Rightarrow> run_node \<Rightarrow> graph_state \<Rightarrow> db \<Rightarrow> graph_outcome \<times> db" where
  "run_graph g ap 0 n s d = (Stopped n s RuntimeError, d)"
| "run_graph g ap (Suc k) n s d =
     (if \<not> graph_state_ok s then (Stopped n s ValidationError, d)
      else case run_graph_node g ap n s d of
             (Raised x, d') \<Rightarrow> (Stopped n s x, d')
           | (Interrupted req, d') \<Rightarrow> (Paused n s req, d')
           | (Updated s', d') \<Rightarrow>
               (case graph_route n s' of
                  Inl x \<Rightarrow> (Stopped n s x, d')
                | Inr None \<Rightarrow> (Completed s', d')
                | Inr (Some n') \<Rightarrow> run_graph g (consume n ap) k n' s' d'))"

section \<open>The facade\<close>

definition failure_output :: graph_output where
  "failure_output = \<lparr>out_status = TERMINAL_FAILED, out_plan = None,
     out_summary = ''Agent workflow failed safely.'', out_execution_records = [], out_metrics = None\<rparr>"

text \<open>\<open>AgentWorkflow.invoke\<close>; the flag says whether a checkpointer is configured.\<close>

definition invoke ::
  "graph_deps \<Rightarrow> approver \<Rightarrow> bool \<Rightarrow> uuid option \<Rightarrow> planning_goal \<Rightarrow> db \<Rightarrow> graph_output result \<times> db" where
  "invoke g ap checkpointing thread goal d =
     (if checkpointing \<and> thread = None then (Inl AgentCheckpointThreadError, d)
      else case run_graph g ap agent_graph_recursion_limit ANALYZE_GOAL (initial_state goal) d of
             (Completed s, d') \<Rightarrow>
               (case summarize (gd_digest g) s of
                  Inl _ \<Rightarrow> (Inr failure_output, d')
                | Inr out \<Rightarrow> (Inr out, d'))
           | (_, d') \<Rightarrow> (Inr failure_output, d'))"

text \<open>The durable state of one thread: \<open>StateSnapshot\<close>.\<close>

record checkpoint =
  cp_next :: "run_node option"
  cp_state :: graph_state
  cp_interrupt :: "approval_request option"

fun checkpoint_of :: "graph_outcome \<Rightarrow> checkpoint" where
  "checkpoint_of (Completed s) = \<lparr>cp_next = None, cp_state = s, cp_interrupt = None\<rparr>"
| "checkpoint_of (Paused n s req) = \<lparr>cp_next = Some n, cp_state = s, cp_interrupt = Some req\<rparr>"
| "checkpoint_of (Stopped n s x) = \<lparr>cp_next = Some n, cp_state = s, cp_interrupt = None\<rparr>"

datatype inspection =
    PENDING_INTERRUPT approval_request
  | CONTINUABLE
  | TERMINAL graph_output
  | INCONSISTENT

definition inspect_snapshot :: "digest_rules \<Rightarrow> checkpoint \<Rightarrow> inspection" where
  "inspect_snapshot D cp =
     (case cp_interrupt cp of
        Some req \<Rightarrow> if cp_next cp \<noteq> Some REQUEST_APPROVAL then INCONSISTENT else PENDING_INTERRUPT req
      | None \<Rightarrow>
          if \<not> graph_state_ok (cp_state cp) then INCONSISTENT
          else if cp_next cp = None then
            if gs_terminal_status (cp_state cp) = None then INCONSISTENT
            else (case summarize D (cp_state cp) of Inl _ \<Rightarrow> INCONSISTENT | Inr out \<Rightarrow> TERMINAL out)
          else if gs_terminal_status (cp_state cp) \<noteq> None then INCONSISTENT
          else CONTINUABLE)"

datatype workflow_progress = Approval_needed approval_request | Finished graph_output

text \<open>
  \<open>_advance\<close>: run from a node, keep the checkpoint, classify it. An exception of the run is
  raised again.
\<close>

definition advance ::
  "graph_deps \<Rightarrow> approver \<Rightarrow> run_node \<Rightarrow> graph_state \<Rightarrow> db \<Rightarrow> workflow_progress result \<times> checkpoint \<times> db" where
  "advance g ap n s d =
     (case run_graph g ap agent_graph_recursion_limit n s d of (oc, d') \<Rightarrow>
        let cp = checkpoint_of oc in
        (case oc of
           Stopped _ _ x \<Rightarrow> Inl x
         | _ \<Rightarrow> (case inspect_snapshot (gd_digest g) cp of
                   PENDING_INTERRUPT req \<Rightarrow> Inr (Approval_needed req)
                 | TERMINAL out \<Rightarrow> Inr (Finished out)
                 | _ \<Rightarrow> Inl AgentCheckpointStateError), cp, d'))"

definition start_durable ::
  "graph_deps \<Rightarrow> planning_goal \<Rightarrow> db \<Rightarrow> workflow_progress result \<times> checkpoint \<times> db" where
  "start_durable g goal d = advance g (Durable None) ANALYZE_GOAL (initial_state goal) d"

text \<open>
  Resuming and continuing start from the stored checkpoint; with no node left to run, the graph
  does nothing and the checkpoint is classified as it is.
\<close>

definition resume_checkpoint ::
  "graph_deps \<Rightarrow> approval_response option \<Rightarrow> checkpoint \<Rightarrow> db \<Rightarrow> workflow_progress result \<times> checkpoint \<times> db" where
  "resume_checkpoint g resume cp d =
     (case cp_next cp of
        Some n \<Rightarrow> advance g (Durable resume) n (cp_state cp) d
      | None \<Rightarrow>
          ((case inspect_snapshot (gd_digest g) cp of
              PENDING_INTERRUPT req \<Rightarrow> Inr (Approval_needed req)
            | TERMINAL out \<Rightarrow> Inr (Finished out)
            | _ \<Rightarrow> Inl AgentCheckpointStateError), cp, d))"

definition resume_durable ::
  "graph_deps \<Rightarrow> approval_response \<Rightarrow> checkpoint \<Rightarrow> db \<Rightarrow> workflow_progress result \<times> checkpoint \<times> db" where
  "resume_durable g r cp d = resume_checkpoint g (Some r) cp d"

definition continue_durable ::
  "graph_deps \<Rightarrow> checkpoint \<Rightarrow> db \<Rightarrow> workflow_progress result \<times> checkpoint \<times> db" where
  "continue_durable g cp d = resume_checkpoint g None cp d"

section \<open>The invariant of a run\<close>

text \<open>
  What the graph relies on: SHA-256 in hexadecimal has 64 lower-case digits, and the parser of the
  provider's answer returns only values that pass the validators of \<open>AgentPlanProposal\<close>.
\<close>

definition graph_deps_ok :: "graph_deps \<Rightarrow> bool" where
  "graph_deps_ok g \<longleftrightarrow>
     (\<forall>t. digest_format (dg_sha256 (gd_digest g) t)) \<and>
     (\<forall>r t p. pl_parse (gd_planner g r) t = Some p \<longrightarrow> plan_proposal_ok p)"

definition run_inv :: "graph_deps \<Rightarrow> run_node \<Rightarrow> graph_state \<Rightarrow> bool" where
  "run_inv g n s \<longleftrightarrow> graph_state_ok s \<and> opt_all plan_proposal_ok (gs_proposal s) \<and>
     (n = SUMMARIZE \<longrightarrow> (\<exists>v t. verify_result (gd_digest g) s = (v, t) \<and>
        gs_verification s = Some v \<and> gs_terminal_status s = Some t))"

text \<open>The supersteps left, at most: each revision costs planning, validation and approval.\<close>

definition steps_left :: "run_node \<Rightarrow> graph_state \<Rightarrow> nat" where
  "steps_left n s =
     (let approvals = 4 + 3 * (max_plan_revisions - gs_revision_count s) in
      case n of
        ANALYZE_GOAL \<Rightarrow> approvals + 4
      | LOAD_CONTEXT \<Rightarrow> approvals + 3
      | GENERATE_PLAN \<Rightarrow> approvals + 2
      | VALIDATE_PLAN \<Rightarrow> approvals + 1
      | REQUEST_APPROVAL \<Rightarrow> approvals
      | EXECUTE_TASKS \<Rightarrow> 3
      | VERIFY_RESULT \<Rightarrow> 2
      | SUMMARIZE \<Rightarrow> 1)"

text \<open>
  A superstep from a state with the invariant is good when it follows a route to a state with the
  invariant and fewer supersteps left, or ends with a state that can be summarized.
\<close>

definition good_step :: "graph_deps \<Rightarrow> run_node \<Rightarrow> graph_state \<Rightarrow> graph_state \<Rightarrow> bool" where
  "good_step g n s s' \<longleftrightarrow>
     (case graph_route n s' of
        Inl _ \<Rightarrow> False
      | Inr None \<Rightarrow> graph_state_ok s' \<and> gs_terminal_status s' \<noteq> None \<and> (\<exists>out. summarize (gd_digest g) s' = Inr out)
      | Inr (Some n') \<Rightarrow> run_inv g n' s' \<and> steps_left n' s' < steps_left n s)"

lemma failed_ok:
  assumes "run_inv g n s" "error_code_format code"
  shows "graph_state_ok (failed code s)" "gs_proposal (failed code s) = gs_proposal s"
    "gs_revision_count (failed code s) = gs_revision_count s" "gs_workflow_error (failed code s) \<noteq> None"
  using assms by (auto simp: run_inv_def graph_state_ok_def failed_def)

lemma workflow_codes [simp]:
  "error_code_format ''AGENT_ANALYSIS_FAILED''" "error_code_format ''AGENT_CONTEXT_FAILED''"
  "error_code_format ''AGENT_PLANNING_FAILED''" "error_code_format ''AGENT_APPROVAL_FAILED''"
  "error_code_format ''AGENT_EXECUTION_NODE_FAILED''"
  by code_simp+

lemma good_step_failed:
  assumes "run_inv g n s" "error_code_format code" "n \<notin> {EXECUTE_TASKS, VERIFY_RESULT, SUMMARIZE}"
  shows "good_step g n s (failed code s)"
  using assms failed_ok [OF assms(1,2)]
  by (cases n)
     (auto simp: good_step_def graph_route_def continue_or_verify_def route_validation_def route_approval_def
        run_inv_def steps_left_def Let_def)

lemma generate_plan_parsed:
  assumes "generate_plan pl s = Inr (p, m)"
  shows "\<exists>t. pl_parse pl t = Some p"
proof -
  obtain inp where "generate_attempts pl inp planning_max_attempts 1 [] = Inr (p, m)"
    using assms by (auto simp: generate_plan_def case_sum_eq_Inr split: option.splits)
  moreover have "accounted pl inp 1 (generate_attempts pl inp planning_max_attempts 1 [])"
    by (rule generate_attempts_accounted) (simp_all add: planning_max_attempts_def)
  ultimately show ?thesis unfolding accounted_def by blast
qed

lemmas good_step_unfold = good_step_def graph_route_def continue_or_verify_def route_validation_def
  route_approval_def run_inv_def graph_state_ok_def steps_left_def Let_def

lemma good_step_analysis:
  assumes "run_inv g ANALYZE_GOAL s"
  shows "good_step g ANALYZE_GOAL s (analysis_node s)"
proof (cases "analyze_goal s")
  case (Inl x)
  then show ?thesis using good_step_failed [OF assms] by (simp add: analysis_node_def)
next
  case (Inr an)
  then show ?thesis using assms by (simp add: analysis_node_def good_step_unfold)
qed

lemma good_step_context:
  assumes "run_inv g LOAD_CONTEXT s"
  shows "good_step g LOAD_CONTEXT s (fst (context_node g s d))"
proof -
  obtain r d' where r: "load_context (gd_rules g) (gd_gateway g) (gd_uuid_text g) (gd_context g) s d = (r, d')"
    by force
  show ?thesis
  proof (cases r)
    case (Inl x)
    then show ?thesis using good_step_failed [OF assms] r by (simp add: context_node_def)
  next
    case (Inr cs)
    then show ?thesis using assms r by (simp add: context_node_def good_step_unfold)
  qed
qed

lemma good_step_planning:
  assumes "run_inv g GENERATE_PLAN s" "graph_deps_ok g"
  shows "good_step g GENERATE_PLAN s (planning_node g s)"
proof (cases "generate_plan (gd_planner g (gs_revision_count s)) s")
  case (Inl x)
  then show ?thesis using good_step_failed [OF assms(1)] by (simp add: planning_node_def)
next
  case (Inr pm)
  then have "plan_proposal_ok (fst pm)"
    using generate_plan_parsed [of _ s "fst pm" "snd pm"] assms(2) by (fastforce simp: graph_deps_ok_def)
  then show ?thesis using assms(1) Inr
    by (simp add: planning_node_def good_step_unfold split_beta)
qed

lemma good_step_validation:
  assumes "run_inv g VALIDATE_PLAN s"
  shows "good_step g VALIDATE_PLAN s (validation_node g s)"
proof (cases "plan_validation_ok (validate_plan (gd_rules g) (gd_digest g) (gd_context g) s)")
  case True
  then show ?thesis using assms by (simp add: validation_node_def good_step_unfold)
next
  case False
  then show ?thesis using good_step_failed [OF assms] by (simp add: validation_node_def)
qed

lemma apply_approval_ok:
  assumes "run_inv g REQUEST_APPROVAL s" "build_approval_request P D R ctx s = Inr req"
    and "approval_response dec fb = Inr r"
  shows "good_step g REQUEST_APPROVAL s (apply_approval_response s r (req_fingerprint req))"
proof -
  have fp: "digest_format (req_fingerprint req)"
    by (rule build_approval_request_Inr [OF assms(2)]) (simp add: approval_request_ok_def)
  have fb: "opt_all (bounded 1000) (resp_feedback r)"
    using assms(3) by (auto simp: approval_response_def intro: bounded_text_bounded
        split: option.splits sum.splits if_splits)
  have "bounded 2000 ''Plan revision limit reached''"
    by code_simp
  then show ?thesis
    using assms(1) fp fb
    by (cases "resp_decision r")
       (auto simp: apply_approval_response_def route_after_approval_def good_step_unfold)
qed

lemma request_approval_Inr:
  assumes "request_approval P D R ctx decide s = Inr s'"
  obtains req a r where "build_approval_request P D R ctx s = Inr req" "decide req = Inr a"
    "approval_response (resp_decision a) (resp_feedback a) = Inr r"
    "s' = apply_approval_response s r (req_fingerprint req)"
  using assms by (auto simp: request_approval_def result_Inr case_sum_eq_Inr)

lemma interrupt_for_approval_Inr:
  assumes "interrupt_for_approval g resume s = Inr (Inr s')"
  obtains req a r where "resume = Some a"
    "build_approval_request (gd_rules g) (gd_digest g) (gd_dump g) (gd_context g) s = Inr req"
    "approval_response (resp_decision a) (resp_feedback a) = Inr r"
    "s' = apply_approval_response s r (req_fingerprint req)"
  using assms by (auto simp: interrupt_for_approval_def result_Inr)

lemma good_step_approval:
  assumes "run_inv g REQUEST_APPROVAL s" "approval_node g ap s = Updated s'"
  shows "good_step g REQUEST_APPROVAL s s'"
proof (cases ap)
  case (Decider decide)
  let ?r = "request_approval (gd_rules g) (gd_digest g) (gd_dump g) (gd_context g) decide s"
  show ?thesis
  proof (cases ?r)
    case (Inl x)
    then show ?thesis using assms Decider good_step_failed [OF assms(1)] by (auto simp: approval_node_def)
  next
    case (Inr s'')
    then have "good_step g REQUEST_APPROVAL s s''"
      by (rule request_approval_Inr) (simp add: apply_approval_ok [OF assms(1)])
    then show ?thesis using assms(2) Decider Inr by (simp add: approval_node_def)
  qed
next
  case (Durable resume)
  show ?thesis
  proof (cases "interrupt_for_approval g resume s")
    case (Inl x)
    then show ?thesis using assms Durable good_step_failed [OF assms(1)] by (auto simp: approval_node_def)
  next
    case (Inr q)
    then have q: "interrupt_for_approval g resume s = Inr (Inr s')"
      using assms(2) Durable by (auto simp: approval_node_def split: sum.splits)
    then show ?thesis
      by (rule interrupt_for_approval_Inr) (simp add: apply_approval_ok [OF assms(1)])
  qed
qed

lemma good_step_execution:
  assumes "run_inv g EXECUTE_TASKS s"
  shows "good_step g EXECUTE_TASKS s (fst (execution_node g s d))"
proof -
  obtain r d' where r: "execute_tasks (gd_rules g) (gd_digest g) (gd_gateway g) (gd_runner g) (gd_context g) s d = (r, d')"
    by force
  show ?thesis
  proof (cases r)
    case (Inl x)
    then show ?thesis using assms r failed_ok [OF assms]
      by (simp add: execution_node_def good_step_def graph_route_def run_inv_def steps_left_def)
  next
    case (Inr rs)
    have "length rs \<le> max_plan_actions"
      using assms by (rule_tac execute_tasks_Inr [OF r [unfolded Inr]])
        (auto simp: run_inv_def records_for_def plan_proposal_ok_def)
    then show ?thesis using assms r Inr by (simp add: execution_node_def good_step_unfold)
  qed
qed

lemma good_step_verification:
  assumes "run_inv g VERIFY_RESULT s"
  shows "good_step g VERIFY_RESULT s (verification_node g s)"
proof -
  obtain v t where "verify_result (gd_digest g) s = (v, t)" by force
  then show ?thesis using assms
    by (simp add: verification_node_def good_step_unfold verify_result_cong)
qed

lemma classify_records_checked: "ver_checked (fst (classify_records acts rs)) \<le> length rs"
  by (auto simp: classify_records_def invalid_result_def failed_verification_def Let_def split: list.splits)

lemma verify_result_bounds:
  assumes "verify_result D s = (v, t)"
  shows "ver_checked v \<le> length (gs_execution_records s)"
    and "t = TERMINAL_PARTIAL_FAILURE \<Longrightarrow> gs_proposal s \<noteq> None"
  using assms classify_records_checked [of _ "gs_execution_records s"]
  by (fastforce simp: verify_result_def invalid_result_def failed_verification_def
      split: if_splits option.splits dest: arg_cong [where f = fst])+

lemma summarize_cong:
  assumes "verify_result D s' = verify_result D s" "gs_verification s' = gs_verification s"
    "gs_terminal_status s' = gs_terminal_status s" "gs_proposal s' = gs_proposal s"
    "gs_execution_records s' = gs_execution_records s" "gs_metrics s' = gs_metrics s"
  shows "summarize D s' = summarize D s"
proof -
  have "summary_text s' = summary_text s"
    by (intro ext) (unfold summary_text_def assms(4), rule refl)
  then show ?thesis unfolding summarize_def assms by (simp only:)
qed

lemma verify_result_summary:
  "verify_result D (s\<lparr>gs_terminal_status := t, gs_summary := m\<rparr>) = verify_result D s"
  by (simp add: verify_result_def has_current_plan_binding_def cong: option.case_cong if_cong)

lemma graph_output_Inr: "graph_output r = Inr out \<Longrightarrow> bounded 2000 (out_summary out)"
  by (auto simp: graph_output_def intro: bounded_text_bounded split: sum.splits if_splits)

lemma summarize_Inr_bounded: "summarize D s = Inr out \<Longrightarrow> bounded 2000 (out_summary out)"
  by (auto simp: summarize_def Let_def result_Inr intro: graph_output_Inr split: prod.splits if_splits)

lemma run_inv_summarize:
  assumes "run_inv g SUMMARIZE s"
  obtains out where "summarize (gd_digest g) s = Inr out" "gs_terminal_status s = Some (out_status out)"
proof -
  obtain v t where v: "verify_result (gd_digest g) s = (v, t)" "gs_verification s = Some v" "gs_terminal_status s = Some t"
    using assms by (auto simp: run_inv_def)
  have "ver_checked v \<le> max_plan_actions" "length (gs_execution_records s) \<le> max_plan_actions"
    using verify_result_bounds(1) [OF v(1)] assms by (auto simp: run_inv_def graph_state_ok_def)
  moreover have "length (proposal_actions p) \<le> max_plan_actions" if "gs_proposal s = Some p" for p
    using assms that by (simp add: run_inv_def plan_proposal_ok_def)
  moreover have "s\<lparr>gs_verification := Some v, gs_terminal_status := Some t\<rparr> = s"
    using v by simp
  ultimately show ?thesis
    using that summarize_Inr [OF v(1)] verify_result_bounds(2) [OF v(1)] v(3) by fastforce
qed

lemma good_step_summary:
  assumes "run_inv g SUMMARIZE s"
  obtains s' where "summary_node g s = Updated s'" "good_step g SUMMARIZE s s'"
proof -
  obtain out where out: "summarize (gd_digest g) s = Inr out" "gs_terminal_status s = Some (out_status out)"
    using assms by (rule run_inv_summarize)
  let ?s = "s\<lparr>gs_terminal_status := Some (out_status out), gs_summary := Some (out_summary out)\<rparr>"
  have "summarize (gd_digest g) ?s = Inr out"
    using out by (subst summarize_cong [where s = s]) (simp_all add: verify_result_summary)
  then show ?thesis
    using that [of ?s] out assms summarize_Inr_bounded [OF out(1)]
    by (simp add: summary_node_def good_step_def graph_route_def run_inv_def graph_state_ok_def)
qed

text \<open>Every superstep from the invariant is good or is an interrupt for approval.\<close>

lemma run_graph_node_good:
  assumes "run_inv g n s" "graph_deps_ok g"
  obtains (updated) s' d' where "run_graph_node g ap n s d = (Updated s', d')" "good_step g n s s'"
  | (interrupted) req where "run_graph_node g ap n s d = (Interrupted req, d)" "n = REQUEST_APPROVAL" "ap = Durable None"
      "build_approval_request (gd_rules g) (gd_digest g) (gd_dump g) (gd_context g) s = Inr req"
proof (cases n)
  case ANALYZE_GOAL
  then show thesis using updated good_step_analysis assms by (simp add: run_graph_node_def)
next
  case LOAD_CONTEXT
  then show thesis using updated good_step_context [of g s d] assms
    by (cases "context_node g s d") (simp add: run_graph_node_def)
next
  case GENERATE_PLAN
  then show thesis using updated good_step_planning assms by (simp add: run_graph_node_def)
next
  case VALIDATE_PLAN
  then show thesis using updated good_step_validation assms by (simp add: run_graph_node_def)
next
  case REQUEST_APPROVAL
  show thesis
  proof (cases "approval_node g ap s")
    case (Updated s')
    then show thesis using updated good_step_approval REQUEST_APPROVAL assms by (simp add: run_graph_node_def)
  next
    case (Interrupted req)
    then have "ap = Durable None" "build_approval_request (gd_rules g) (gd_digest g) (gd_dump g) (gd_context g) s = Inr req"
      by (auto simp: approval_node_def interrupt_for_approval_def result_Inr split: approver.splits sum.splits option.splits)
    then show thesis using interrupted REQUEST_APPROVAL Interrupted by (simp add: run_graph_node_def)
  next
    case (Raised x)
    then show thesis by (auto simp: approval_node_def split: approver.splits sum.splits)
  qed
next
  case EXECUTE_TASKS
  then show thesis using updated good_step_execution [of g s d] assms
    by (cases "execution_node g s d") (simp add: run_graph_node_def)
next
  case VERIFY_RESULT
  then show thesis using updated good_step_verification assms by (simp add: run_graph_node_def)
next
  case SUMMARIZE
  then obtain s' where "summary_node g s = Updated s'" "good_step g SUMMARIZE s s'"
    using good_step_summary assms(1) by blast
  then show thesis using updated SUMMARIZE by (simp add: run_graph_node_def)
qed

text \<open>
  Enough supersteps: a run from the invariant ends, at \<open>END\<close> with a state that can be summarized or
  at an interrupt of the approval node, and more supersteps change nothing.
\<close>

definition run_ends_well :: "graph_deps \<Rightarrow> approver \<Rightarrow> graph_outcome \<Rightarrow> bool" where
  "run_ends_well g ap oc \<longleftrightarrow>
     (\<exists>s out. oc = Completed s \<and> graph_state_ok s \<and> gs_terminal_status s \<noteq> None \<and> summarize (gd_digest g) s = Inr out) \<or>
     (\<exists>s req. oc = Paused REQUEST_APPROVAL s req \<and> run_inv g REQUEST_APPROVAL s \<and> (\<exists>r. ap = Durable r) \<and>
        build_approval_request (gd_rules g) (gd_digest g) (gd_dump g) (gd_context g) s = Inr req)"

lemma consume_durable: "consume n ap = Durable r \<Longrightarrow> \<exists>r. ap = Durable r"
  by (cases "(n, ap)" rule: consume.cases) auto

lemma run_ends_well_consume: "run_ends_well g (consume n ap) oc \<Longrightarrow> run_ends_well g ap oc"
  using consume_durable [of n ap] by (auto simp: run_ends_well_def)

lemma run_graph_ends:
  assumes "graph_deps_ok g" "run_inv g n s" "steps_left n s \<le> k"
  shows "run_ends_well g ap (fst (run_graph g ap k n s d)) \<and>
    (\<forall>k' \<ge> k. run_graph g ap k' n s d = run_graph g ap k n s d)"
  using assms(2,3)
proof (induction k arbitrary: ap n s d)
  case 0
  then show ?case by (cases n) (simp_all add: steps_left_def Let_def)
next
  case (Suc k)
  have ok: "graph_state_ok s" using Suc.prems(1) by (simp add: run_inv_def)
  have more: "\<exists>j \<ge> k. k' = Suc j" if "Suc k \<le> k'" for k'
    using that by (cases k') auto
  from Suc.prems(1) assms(1) show ?case
  proof (cases rule: run_graph_node_good [of g n s ap d])
    case (updated s' d')
    show ?thesis
    proof (cases "graph_route n s'")
      case (Inl x)
      then show ?thesis using updated by (simp add: good_step_def)
    next
      case (Inr nx)
      show ?thesis
      proof (cases nx)
        case None
        then show ?thesis using updated Inr ok more by (fastforce simp: good_step_def run_ends_well_def)
      next
        case (Some n')
        then have "run_inv g n' s'" "steps_left n' s' \<le> k"
          using updated(2) Inr Suc.prems(2) by (auto simp: good_step_def)
        note IH = Suc.IH [OF this, of "consume n ap" d']
        have step: "run_graph g ap (Suc j) n s d = run_graph g (consume n ap) j n' s' d'" for j
          using updated(1) Inr Some ok by simp
        have "run_ends_well g ap (fst (run_graph g (consume n ap) k n' s' d'))"
          using IH run_ends_well_consume by blast
        moreover have "run_graph g ap k' n s d = run_graph g (consume n ap) k n' s' d'" if le: "Suc k \<le> k'" for k'
        proof -
          obtain j where j: "k \<le> j" "k' = Suc j" using more [OF le] by blast
          then have "run_graph g (consume n ap) j n' s' d' = run_graph g (consume n ap) k n' s' d'"
            using IH by blast
          then show ?thesis unfolding j(2) step .
        qed
        ultimately show ?thesis unfolding step by blast
      qed
    qed
  next
    case (interrupted req)
    then show ?thesis using ok more Suc.prems(1) by (fastforce simp: run_ends_well_def)
  qed
qed

lemma run_inv_initial: "run_inv g ANALYZE_GOAL (initial_state goal)"
  by (simp add: run_inv_def graph_state_ok_def initial_state_def)

lemma steps_left_bound: "steps_left n s \<le> 14"
  by (cases n) (simp_all add: steps_left_def Let_def max_plan_revisions_def)

section \<open>Effects of a run on the database\<close>

lemma execute_tool_read_only:
  "\<not> write_tools_enabled ctx \<Longrightarrow> snd (execute_tool P (agent_domain_gateway e tr search) name obj ctx d) = d"
  using validate_tool_arguments_read_only run_tool_read_only
  by (auto simp: execute_tool_def split: sum.splits)

lemma load_context_db:
  "snd (load_context P (agent_domain_gateway e tr search) uuid_text ctx s d) = d"
proof -
  let ?ro = "\<lparr>ctx_user_id = ctx_user_id ctx, write_tools_enabled = False\<rparr>"
  define R where "R name obj = fst (execute_tool P (agent_domain_gateway e tr search) name obj ?ro d)" for name obj
  have "execute_tool P (agent_domain_gateway e tr search) name obj ?ro d = (R name obj, d)" for name obj
    using execute_tool_read_only [of ?ro P e tr search name obj d]
    by (cases "execute_tool P (agent_domain_gateway e tr search) name obj ?ro d") (simp add: R_def)
  then show ?thesis
    by (simp add: load_context_def Let_def split: option.split sum.split tool_result.split)
qed

lemma execute_unauthorized:
  "gs_approval_decision s \<noteq> Some APPROVED \<Longrightarrow>
   execute_tasks P D gw runner ctx s d = (Inl AgentExecutionNotAuthorizedError, d)"
  by (auto simp: execute_tasks_def require_current_authorization_def Let_def split: option.splits)

text \<open>Whether a source of decisions can approve anything.\<close>

definition may_approve :: "approver \<Rightarrow> bool" where
  "may_approve ap \<longleftrightarrow>
     (case ap of
        Decider decide \<Rightarrow> (\<exists>req a. decide req = Inr a \<and> resp_decision a = APPROVED)
      | Durable resume \<Rightarrow> (case resume of None \<Rightarrow> False | Some a \<Rightarrow> resp_decision a = APPROVED))"

lemma approval_response_decision: "approval_response dec fb = Inr r \<Longrightarrow> resp_decision r = dec"
  by (auto simp: approval_response_def split: option.splits sum.splits if_splits)

lemma apply_approval_decision:
  "resp_decision r \<noteq> APPROVED \<Longrightarrow> gs_approval_decision (apply_approval_response s r fp) \<noteq> Some APPROVED"
  by (cases "resp_decision r") (simp_all add: apply_approval_response_def Let_def)

lemma approval_node_decision:
  assumes "approval_node g ap s = Updated s'" "\<not> may_approve ap" "gs_approval_decision s \<noteq> Some APPROVED"
  shows "gs_approval_decision s' \<noteq> Some APPROVED"
proof (cases ap)
  case (Decider decide)
  let ?r = "request_approval (gd_rules g) (gd_digest g) (gd_dump g) (gd_context g) decide s"
  have "gs_approval_decision s'' \<noteq> Some APPROVED" if "?r = Inr s''" for s''
    using that assms(2) Decider
    by (auto elim!: request_approval_Inr simp: may_approve_def
        intro!: apply_approval_decision) (metis approval_response_decision)
  then show ?thesis using assms(1,3) Decider
    by (auto simp: approval_node_def failed_def split: sum.splits)
next
  case (Durable resume)
  have "gs_approval_decision s'' \<noteq> Some APPROVED" if "interrupt_for_approval g resume s = Inr (Inr s'')" for s''
    using that assms(2) Durable
    by (auto elim!: interrupt_for_approval_Inr simp: may_approve_def
        dest!: approval_response_decision intro!: apply_approval_decision)
  then show ?thesis using assms(1,3) Durable
    by (auto simp: approval_node_def failed_def split: sum.splits)
qed

lemma run_graph_node_unapproved:
  assumes "gd_gateway g = agent_domain_gateway e tr search" "\<not> may_approve ap"
    and "gs_approval_decision s \<noteq> Some APPROVED"
  shows "snd (run_graph_node g ap n s d) = d"
    and "fst (run_graph_node g ap n s d) = Updated s' \<Longrightarrow> gs_approval_decision s' \<noteq> Some APPROVED"
proof -
  have "snd (context_node g s d) = d"
    using load_context_db [of "gd_rules g" e tr search "gd_uuid_text g" "gd_context g" s d]
    by (auto simp: context_node_def assms(1) split: prod.splits sum.splits)
  then show "snd (run_graph_node g ap n s d) = d"
    by (cases n) (simp_all add: run_graph_node_def execution_node_def execute_unauthorized [OF assms(3)])
  show "gs_approval_decision s' \<noteq> Some APPROVED" if "fst (run_graph_node g ap n s d) = Updated s'"
    using that assms(3) approval_node_decision [OF _ assms(2,3)]
    by (cases n)
       (auto simp: run_graph_node_def execution_node_def execute_unauthorized [OF assms(3)] analysis_node_def
          context_node_def planning_node_def validation_node_def verification_node_def summary_node_def failed_def Let_def
          split: sum.splits prod.splits if_splits)
qed

lemma may_approve_consume: "may_approve (consume n ap) \<Longrightarrow> may_approve ap"
  by (cases "(n, ap)" rule: consume.cases) (auto simp: may_approve_def)

lemma run_graph_unapproved:
  assumes "gd_gateway g = agent_domain_gateway e tr search"
  shows "\<not> may_approve ap \<Longrightarrow> gs_approval_decision s \<noteq> Some APPROVED \<Longrightarrow> snd (run_graph g ap k n s d) = d"
proof (induction k arbitrary: ap n s d)
  case (Suc k)
  note node = run_graph_node_unapproved [OF assms Suc.prems]
  obtain oc where oc: "run_graph_node g ap n s d = (oc, d)"
    using node(1) [of n d] by (cases "run_graph_node g ap n s d") simp
  show ?case
  proof (cases oc)
    case (Updated s')
    then have "gs_approval_decision s' \<noteq> Some APPROVED" using node(2) [of n d s'] oc by simp
    moreover have "\<not> may_approve (consume n ap)" using may_approve_consume Suc.prems(1) by blast
    ultimately show ?thesis
      using Suc.IH oc Updated by (simp split: sum.split option.split)
  qed (simp_all add: oc)
qed simp

text \<open>
  What every node may do to the database, a run may do: for a relation that is reflexive and
  transitive.
\<close>

lemma run_graph_closed:
  assumes "\<And>n s d ap. Q d (snd (run_graph_node g ap n s d))" "\<And>d. Q d d" "\<And>d d' d''. Q d d' \<Longrightarrow> Q d' d'' \<Longrightarrow> Q d d''"
  shows "Q d (snd (run_graph g ap k n s d))"
proof (induction k arbitrary: ap n s d)
  case (Suc k)
  obtain oc d' where oc: "run_graph_node g ap n s d = (oc, d')" by force
  then have "Q d d'" using assms(1) [of d ap n s] by simp
  then show ?case using Suc.IH assms(2,3)
    by (cases oc) (auto simp: oc split: sum.split option.split)
qed (simp add: assms(2))

text \<open>The effects of agent writes: a chain of edits to Tasks of one user, none of them a completion.\<close>

definition confined :: "uuid \<Rightarrow> db \<Rightarrow> db \<Rightarrow> bool" where
  "confined u d d' \<longleftrightarrow> (wf_core d \<longrightarrow> wf_core d' \<and> (task_effect False u)\<^sup>*\<^sup>* d d')"

lemma confined_refl [simp]: "confined u d d"
  by (simp add: confined_def)

lemma confined_trans: "confined u d d' \<Longrightarrow> confined u d' d'' \<Longrightarrow> confined u d d''"
  by (auto simp: confined_def)

lemma execute_tool_confined:
  "confined (ctx_user_id ctx) d (snd (execute_tool P (agent_domain_gateway e tr search) name obj ctx d))"
proof -
  have "task_effect False (ctx_user_id ctx) d (snd (execute_tool P (agent_domain_gateway e tr search) name obj ctx d))"
    if "wf_core d"
    using run_tool_effect [OF wf_core_distinct_tasks [OF that]] by (auto simp: execute_tool_def split: sum.splits)
  then show ?thesis using task_effect_wf_core by (auto simp: confined_def)
qed

lemma run_actions_confined:
  assumes "\<And>a d. confined u d (snd (f a d))"
  shows "confined u d (snd (run_actions f acts d))"
proof (induction acts arbitrary: d)
  case (Cons a acts)
  obtain r d' where r: "f a d = (r, d')" by force
  then have "confined u d d'" using assms [of d a] by simp
  then show ?case using Cons.IH [of d'] by (auto simp: r split_beta intro: confined_trans)
qed simp

lemma run_action_confined:
  "confined (ctx_user_id ctx) d (snd (run_action P (agent_domain_gateway e tr search) None ctx n fp a d))"
  using execute_tool_confined [of ctx d P e tr search "tool_value (action_tool a)" "action_arguments a"]
  by (auto simp: run_action_def Let_def split: sum.splits prod.splits)

lemma run_graph_node_confined:
  assumes "gd_gateway g = agent_domain_gateway e tr search" "gd_runner g = None"
  shows "confined (ctx_user_id (gd_context g)) d (snd (run_graph_node g ap n s d))"
proof -
  have "snd (context_node g s d) = d"
    using load_context_db [of "gd_rules g" e tr search "gd_uuid_text g" "gd_context g" s d]
    by (auto simp: context_node_def assms(1) split: prod.splits sum.splits)
  moreover have "confined (ctx_user_id (gd_context g)) d (snd (execute_tasks (gd_rules g) (gd_digest g)
      (gd_gateway g) (gd_runner g) (gd_context g) s d))"
    by (auto simp: execute_tasks_def assms snd_map_prod intro!: run_actions_confined run_action_confined
        split: sum.split)
  then have "confined (ctx_user_id (gd_context g)) d (snd (execution_node g s d))"
    by (auto simp: execution_node_def split: prod.splits sum.splits)
  ultimately show ?thesis
    by (cases n) (simp_all add: run_graph_node_def)
qed

lemma invoke_db:
  "snd (invoke g ap checkpointing thread goal d) \<in>
     {d, snd (run_graph g ap agent_graph_recursion_limit ANALYZE_GOAL (initial_state goal) d)}"
  by (auto simp: invoke_def split: prod.splits graph_outcome.splits sum.splits)

lemma advance_db: "snd (snd (advance g ap n s d)) = snd (run_graph g ap agent_graph_recursion_limit n s d)"
  by (simp add: advance_def Let_def split_beta)

section \<open>Claims\<close>

text \<open>C5: a workflow always concludes. With a decider that answers, refuses or fails in any way, and a
  provider, a gateway and an executor that behave in any way, a run reaches its end within 14
  supersteps, below the recursion limit of 16, and its final state yields an output: \<open>invoke\<close> never
  takes its fallback for exceptions and never revises a plan more than twice.\<close>

theorem workflow_concludes:
  assumes "graph_deps_ok g" "checkpointing \<Longrightarrow> thread \<noteq> None"
  shows "\<exists>s out d'. run_graph g (Decider decide) 14 ANALYZE_GOAL (initial_state goal) d = (Completed s, d') \<and>
           summarize (gd_digest g) s = Inr out \<and> gs_revision_count s \<le> max_plan_revisions \<and>
           invoke g (Decider decide) checkpointing thread goal d = (Inr out, d')"
proof -
  have limit: "14 \<le> agent_graph_recursion_limit" by (simp add: agent_graph_recursion_limit_def)
  have ends: "run_ends_well g (Decider decide) (fst (run_graph g (Decider decide) 14 ANALYZE_GOAL (initial_state goal) d))"
    and more: "run_graph g (Decider decide) agent_graph_recursion_limit ANALYZE_GOAL (initial_state goal) d =
      run_graph g (Decider decide) 14 ANALYZE_GOAL (initial_state goal) d"
    using run_graph_ends [OF assms(1) run_inv_initial steps_left_bound, of "Decider decide" goal d] limit by blast+
  obtain s out where s: "fst (run_graph g (Decider decide) 14 ANALYZE_GOAL (initial_state goal) d) = Completed s"
    "graph_state_ok s" "summarize (gd_digest g) s = Inr out"
    using ends by (auto simp: run_ends_well_def)
  then obtain d' where r: "run_graph g (Decider decide) 14 ANALYZE_GOAL (initial_state goal) d = (Completed s, d')"
    by (metis prod.collapse)
  have "invoke g (Decider decide) checkpointing thread goal d = (Inr out, d')"
    using assms(2) s(3) by (simp add: invoke_def more r)
  then show ?thesis using r s by (auto simp: graph_state_ok_def)
qed

text \<open>C4: nothing is written without an approval. As long as no decision is an approval (the decider
  never approves, or the durable run has not been resumed with an approval), running, starting and
  resuming a workflow leave the database exactly as it was, whatever the provider proposed and whatever
  executor is plugged in.\<close>

theorem no_approval_no_write:
  assumes "gd_gateway g = agent_domain_gateway e tr search" "\<not> may_approve ap"
  shows "snd (invoke g ap checkpointing thread goal d) = d \<and>
         snd (snd (start_durable g goal d)) = d \<and>
         (\<forall>a cp. resp_decision a \<noteq> APPROVED \<and> gs_approval_decision (cp_state cp) \<noteq> Some APPROVED \<longrightarrow>
            snd (snd (resume_durable g a cp d)) = d)"
proof -
  have none: "gs_approval_decision (initial_state goal) \<noteq> Some APPROVED"
    by (simp add: initial_state_def)
  have "snd (snd (resume_durable g a cp d)) = d"
    if "resp_decision a \<noteq> APPROVED" "gs_approval_decision (cp_state cp) \<noteq> Some APPROVED" for a cp
    using run_graph_unapproved [OF assms(1), of "Durable (Some a)"] that
    by (simp add: resume_durable_def resume_checkpoint_def advance_db may_approve_def split: option.split)
  moreover have "snd (snd (start_durable g goal d)) = d"
    using run_graph_unapproved [OF assms(1), of "Durable None"] none
    by (simp add: start_durable_def advance_db may_approve_def)
  moreover have "snd (invoke g ap checkpointing thread goal d) = d"
    using run_graph_unapproved [OF assms none] invoke_db [of g ap checkpointing thread goal d] by simp
  ultimately show ?thesis by blast
qed

text \<open>A run is confined to its user. Whatever goal it is given, whatever the provider proposes and
  whoever approves it, a run with the standard tools keeps the database well-formed and changes it only
  by creating, editing and deleting Tasks of the runtime user, one lifecycle step at a time, none of
  them a completion.\<close>

theorem agent_run_confined:
  assumes "wf_core d" "gd_gateway g = agent_domain_gateway e tr search" "gd_runner g = None"
  shows "let d' = snd (invoke g ap checkpointing thread goal d) in
         wf_core d' \<and> (task_effect False (ctx_user_id (gd_context g)))\<^sup>*\<^sup>* d d'"
proof -
  have "confined (ctx_user_id (gd_context g)) d (snd (run_graph g ap k n s d))" for k n s
    by (rule run_graph_closed [where Q = "confined (ctx_user_id (gd_context g))"])
       (auto intro: confined_trans run_graph_node_confined [OF assms(2,3)])
  then have "confined (ctx_user_id (gd_context g)) d (snd (invoke g ap checkpointing thread goal d))"
    using invoke_db [of g ap checkpointing thread goal d] by auto
  then show ?thesis using assms(1) by (simp add: confined_def Let_def)
qed

section \<open>A concrete workflow\<close>

definition demo_graph :: graph_deps where
  "demo_graph = \<lparr>gd_rules = demo_rules_json, gd_digest = demo_digest, gd_dump = demo_dump, gd_uuid_text = (\<lambda>_. []),
     gd_gateway = demo_gateway, gd_context = demo_ctx, gd_planner = (\<lambda>_. demo_planner), gd_runner = None\<rparr>"

lemma demo_digest_format: "digest_format (dg_sha256 demo_digest t)"
  by (simp add: demo_digest_def digest_format_def list_all_iff char_between_def)

lemma demo_graph_ok: "graph_deps_ok demo_graph"
  using demo_proposal_ok demo_digest_format
  by (auto simp: graph_deps_ok_def demo_graph_def demo_planner_def split: if_splits)

theorem workflow_concludes_witness:
  "\<exists>out d'. invoke demo_graph (Decider (\<lambda>req. Inr \<lparr>resp_decision = APPROVED, resp_feedback = None\<rparr>)) False None demo_goal
     demo_tasks_db = (Inr out, d')"
  using workflow_concludes [OF demo_graph_ok, of False None "\<lambda>req. Inr \<lparr>resp_decision = APPROVED, resp_feedback = None\<rparr>"
    demo_goal demo_tasks_db]
  by auto

theorem no_approval_no_write_witness:
  "snd (invoke demo_graph (Decider (\<lambda>req. Inr \<lparr>resp_decision = REJECTED, resp_feedback = None\<rparr>)) False None demo_goal
     demo_tasks_db) = demo_tasks_db"
  using no_approval_no_write [of demo_graph demo_env demo_rules "\<lambda>u q d. Inr []"
    "Decider (\<lambda>req. Inr \<lparr>resp_decision = REJECTED, resp_feedback = None\<rparr>)" False None demo_goal demo_tasks_db]
  by (simp add: demo_graph_def demo_gateway_def may_approve_def)

theorem agent_run_confined_witness:
  "wf_core (snd (invoke demo_graph (Decider (\<lambda>req. Inr \<lparr>resp_decision = APPROVED, resp_feedback = None\<rparr>)) False None
     demo_goal demo_tasks_db))"
  using agent_run_confined [OF demo_tasks_db_wf, of demo_graph demo_env demo_rules "\<lambda>u q d. Inr []"
    "Decider (\<lambda>req. Inr \<lparr>resp_decision = APPROVED, resp_feedback = None\<rparr>)" False None demo_goal]
  by (simp add: demo_graph_def demo_gateway_def Let_def)

section \<open>Durable runs\<close>

text \<open>
  The checkpoints a durable run goes through, with the answer that left each of them: it is
  started, and as long as it waits for an approval it may be resumed with any decision, with any
  database the other requests have left meanwhile.
\<close>

inductive durable_run :: "graph_deps \<Rightarrow> workflow_progress result \<Rightarrow> checkpoint \<Rightarrow> bool" for g where
  started: "start_durable g goal d = (r, cp, d') \<Longrightarrow> durable_run g r cp"
| resumed: "durable_run g r cp \<Longrightarrow> cp_interrupt cp \<noteq> None \<Longrightarrow> resume_durable g a cp d = (r', cp', d') \<Longrightarrow>
    durable_run g r' cp'"

definition checkpoint_inv :: "graph_deps \<Rightarrow> workflow_progress result \<Rightarrow> checkpoint \<Rightarrow> bool" where
  "checkpoint_inv g r cp \<longleftrightarrow>
     (\<exists>req. r = Inr (Approval_needed req) \<and> cp_next cp = Some REQUEST_APPROVAL \<and> cp_interrupt cp = Some req \<and>
        run_inv g REQUEST_APPROVAL (cp_state cp) \<and>
        build_approval_request (gd_rules g) (gd_digest g) (gd_dump g) (gd_context g) (cp_state cp) = Inr req) \<or>
     (\<exists>out. r = Inr (Finished out) \<and> cp_interrupt cp = None \<and> inspect_snapshot (gd_digest g) cp = TERMINAL out)"

lemma advance_checkpoint_inv:
  assumes "graph_deps_ok g" "run_inv g n s" "advance g (Durable a) n s d = (r, cp, d')"
  shows "checkpoint_inv g r cp"
proof -
  obtain oc e where oc: "run_graph g (Durable a) agent_graph_recursion_limit n s d = (oc, e)" by force
  have "steps_left n s \<le> agent_graph_recursion_limit"
    using steps_left_bound [of n s] by (simp add: agent_graph_recursion_limit_def)
  from run_graph_ends [OF assms(1,2) this, of "Durable a" d]
  have "run_ends_well g (Durable a) oc" by (simp add: oc)
  then show ?thesis
    using assms(3)
    by (auto simp: run_ends_well_def advance_def oc Let_def inspect_snapshot_def checkpoint_inv_def)
qed

lemma durable_run_inv:
  assumes "graph_deps_ok g" "durable_run g r cp"
  shows "checkpoint_inv g r cp"
  using assms(2)
proof (induction rule: durable_run.induct)
  case (started goal d r cp d')
  then show ?case
    using advance_checkpoint_inv [OF assms(1) run_inv_initial] by (simp add: start_durable_def)
next
  case (resumed r cp a d r' cp' d')
  then have "cp_next cp = Some REQUEST_APPROVAL" "run_inv g REQUEST_APPROVAL (cp_state cp)"
    by (auto simp: checkpoint_inv_def)
  then show ?case
    using advance_checkpoint_inv [OF assms(1)] resumed.hyps(3)
    by (auto simp: resume_durable_def resume_checkpoint_def)
qed

lemma run_graph_node_revision:
  assumes "run_graph_node g ap n s d = (Updated s', d')" "n = REQUEST_APPROVAL \<Longrightarrow> ap = Durable None"
  shows "gs_revision_count s' = gs_revision_count s"
  using assms
  by (cases n)
     (auto simp: run_graph_node_def execution_node_def analysis_node_def context_node_def planning_node_def
        validation_node_def verification_node_def summary_node_def approval_node_def interrupt_for_approval_def
        failed_def Let_def result_Inr split: sum.splits prod.splits if_splits option.splits)

lemma build_approval_request_revision:
  assumes "build_approval_request P D R ctx s = Inr req"
  shows "req_revision req = gs_revision_count s"
  by (rule build_approval_request_Inr [OF assms])

text \<open>Without a decision a run pauses only about the revision it started from.\<close>

lemma run_graph_paused_revision:
  "run_graph g (Durable None) k n s d = (Paused n' s' req, d') \<Longrightarrow> gs_revision_count s' = gs_revision_count s"
proof (induction k arbitrary: n s d)
  case (Suc k)
  have same: "consume n (Durable None) = Durable None"
    by (cases n) simp_all
  from Suc.prems show ?case
    using Suc.IH run_graph_node_revision [of g "Durable None" n s d]
    by (auto simp: same split: if_splits prod.splits node_outcome.splits sum.splits option.splits)
qed simp

text \<open>After the approval node no run pauses.\<close>

lemma run_graph_late:
  "n \<in> {EXECUTE_TASKS, VERIFY_RESULT, SUMMARIZE} \<Longrightarrow> fst (run_graph g ap k n s d) \<noteq> Paused n' s' req"
proof (induction k arbitrary: n s d ap)
  case (Suc k)
  then show ?case
    by (cases "execution_node g s d"; cases "summarize (gd_digest g) s")
       (auto simp: run_graph_node_def graph_route_def summary_node_def)
qed auto

lemma apply_approval_revision:
  assumes "gs_workflow_error (apply_approval_response s r fp) = None"
    "route_approval (apply_approval_response s r fp) = Inr GENERATE_PLAN"
  shows "resp_decision r = REQUEST_CHANGES \<and> gs_revision_count (apply_approval_response s r fp) = gs_revision_count s + 1"
  using assms by (cases "resp_decision r")
    (auto simp: apply_approval_response_def route_approval_def route_after_approval_def Let_def split: if_splits)

lemma route_approval_cases:
  assumes "route_approval s = Inr n"
  shows "n \<in> {EXECUTE_TASKS, VERIFY_RESULT} \<or> n = GENERATE_PLAN \<and> gs_workflow_error s = None"
proof (cases "gs_workflow_error s")
  case None
  then obtain x where "route_after_approval s = Inr x"
    "n = (case x of ROUTE_EXECUTE_TASKS \<Rightarrow> EXECUTE_TASKS | ROUTE_GENERATE_PLAN \<Rightarrow> GENERATE_PLAN | ROUTE_SUMMARIZE \<Rightarrow> VERIFY_RESULT)"
    using assms by (auto simp: route_approval_def result_Inr)
  then show ?thesis using None by (cases x) simp_all
next
  case (Some x)
  then show ?thesis using assms by (simp add: route_approval_def)
qed

lemma resume_paused:
  assumes "run_graph g (Durable (Some a)) k REQUEST_APPROVAL s d = (Paused n' s' req, d')" "run_inv g REQUEST_APPROVAL s"
  shows "resp_decision a = REQUEST_CHANGES \<and> gs_revision_count s' = gs_revision_count s + 1"
proof (cases k)
  case 0
  then show ?thesis using assms(1) by simp
next
  case (Suc j)
  let ?ap = "Durable (Some a)"
  have ok: "graph_state_ok s" using assms(2) by (simp add: run_inv_def)
  obtain s1 n1 where s1: "approval_node g ?ap s = Updated s1" "graph_route REQUEST_APPROVAL s1 = Inr (Some n1)"
    and run: "run_graph g (Durable None) j n1 s1 d = (Paused n' s' req, d')"
    using assms(1) Suc ok
    by (auto simp: run_graph_node_def approval_node_def interrupt_for_approval_def result_Inr
        split: node_outcome.splits sum.splits option.splits)
  have n1: "n1 \<notin> {EXECUTE_TASKS, VERIFY_RESULT, SUMMARIZE}"
    using run_graph_late [of n1 g "Durable None" j s1 d n' s' req] run by auto
  have ap: "route_approval s1 = Inr n1" using s1(2) by (simp add: graph_route_def result_Inr)
  then have gen: "n1 = GENERATE_PLAN" and err: "gs_workflow_error s1 = None"
    using n1 route_approval_cases by blast+
  have "interrupt_for_approval g (Some a) s = Inr (Inr s1)"
    using s1(1) err by (auto simp: approval_node_def failed_def split: sum.splits)
  then obtain req0 a0 r where "Some a = Some a0"
    "build_approval_request (gd_rules g) (gd_digest g) (gd_dump g) (gd_context g) s = Inr req0"
    "approval_response (resp_decision a0) (resp_feedback a0) = Inr r"
    "s1 = apply_approval_response s r (req_fingerprint req0)"
    by (rule interrupt_for_approval_Inr)
  then have "resp_decision a = REQUEST_CHANGES \<and> gs_revision_count s1 = gs_revision_count s + 1"
    using apply_approval_revision [of s r "req_fingerprint req0"] err ap gen approval_response_decision by auto
  then show ?thesis using run_graph_paused_revision [OF run] by simp
qed

text \<open>C9: a durable run always answers. Started, and resumed after each pause with any decision and any
  database, it never ends in an exception: it asks for an approval, with a checkpoint that recovery
  recognizes as this pending interrupt, or it finishes, with a checkpoint that recovery recognizes as
  terminal with the same output. It asks again only after a request for changes and then for exactly the
  next revision, so it asks at most three times.\<close>

theorem durable_run_answers:
  assumes "graph_deps_ok g" "durable_run g r cp"
  shows "((\<exists>req. r = Inr (Approval_needed req) \<and> inspect_snapshot (gd_digest g) cp = PENDING_INTERRUPT req \<and>
             req_revision req \<le> max_plan_revisions \<and>
             (\<forall>a d r' cp' d' req'. resume_durable g a cp d = (r', cp', d') \<and> r' = Inr (Approval_needed req') \<longrightarrow>
                resp_decision a = REQUEST_CHANGES \<and> req_revision req' = req_revision req + 1)) \<or>
          (\<exists>out. r = Inr (Finished out) \<and> inspect_snapshot (gd_digest g) cp = TERMINAL out))"
proof -
  have inv: "checkpoint_inv g r cp" using assms by (rule durable_run_inv)
  show ?thesis
  proof (cases "cp_interrupt cp")
    case None
    then show ?thesis using inv by (auto simp: checkpoint_inv_def)
  next
    case (Some req)
    then have c: "r = Inr (Approval_needed req)" "cp_next cp = Some REQUEST_APPROVAL" "run_inv g REQUEST_APPROVAL (cp_state cp)"
      "build_approval_request (gd_rules g) (gd_digest g) (gd_dump g) (gd_context g) (cp_state cp) = Inr req"
      using inv by (auto simp: checkpoint_inv_def)
    have rev: "req_revision req = gs_revision_count (cp_state cp)"
      using c(4) by (rule build_approval_request_revision)
    have "resp_decision a = REQUEST_CHANGES \<and> req_revision req' = req_revision req + 1"
      if again: "resume_durable g a cp d = (Inr (Approval_needed req'), cp', d')" for a d cp' d' req'
    proof -
      have adv: "advance g (Durable (Some a)) REQUEST_APPROVAL (cp_state cp) d = (Inr (Approval_needed req'), cp', d')"
        using again c(2) by (simp add: resume_durable_def resume_checkpoint_def)
      from advance_checkpoint_inv [OF assms(1) c(3) this]
      have req': "cp_interrupt cp' = Some req'"
        "build_approval_request (gd_rules g) (gd_digest g) (gd_dump g) (gd_context g) (cp_state cp') = Inr req'"
        by (auto simp: checkpoint_inv_def)
      then obtain n' s' where "run_graph g (Durable (Some a)) agent_graph_recursion_limit REQUEST_APPROVAL (cp_state cp) d
          = (Paused n' s' req', d')" "cp_state cp' = s'"
        using adv by (auto simp: advance_def Let_def split: prod.splits graph_outcome.splits)
      from resume_paused [OF this(1) c(3)] this(2) show ?thesis
        using build_approval_request_revision [OF req'(2)] rev by simp
    qed
    moreover have "req_revision req \<le> max_plan_revisions"
      using c(3) rev by (simp add: run_inv_def graph_state_ok_def)
    ultimately show ?thesis using c Some by (auto simp: inspect_snapshot_def)
  qed
qed

theorem durable_run_answers_witness:
  "\<exists>r cp p. durable_run demo_graph r cp \<and> r = Inr p"
proof -
  obtain r cp d' where "start_durable demo_graph demo_goal demo_tasks_db = (r, cp, d')"
    using prod_cases3 by blast
  then have run: "durable_run demo_graph r cp" by (rule durable_run.started)
  from durable_run_answers [OF demo_graph_ok run] show ?thesis using run by blast
qed

section \<open>Checkpoints between a decision and the end\<close>

lemma continue_late:
  assumes "graph_deps_ok g" "run_inv g n s" "n \<in> {VERIFY_RESULT, SUMMARIZE}"
  shows "\<exists>out cp' d'. continue_durable g \<lparr>cp_next = Some n, cp_state = s, cp_interrupt = None\<rparr> d = (Inr (Finished out), cp', d')"
proof -
  obtain r cp d' where adv: "advance g (Durable None) n s d = (r, cp, d')"
    using prod_cases3 by blast
  have "cp_interrupt cp = None"
    using run_graph_late [of n g "Durable None" agent_graph_recursion_limit s d] assms(3) adv
    by (auto simp: advance_def Let_def split: prod.splits graph_outcome.splits)
  then show ?thesis
    using advance_checkpoint_inv [OF assms(1,2) adv] adv
    by (auto simp: checkpoint_inv_def continue_durable_def resume_checkpoint_def)
qed



end
