(* ===== verification/Tool_Executions.thy ===== *)
theory Tool_Executions
  imports Agent_Nodes
begin

text \<open>
  The coordinator that runs approved agent writes at most once: \<open>app/services/agent_tool_executions.py\<close>
  with its repository \<open>app/repositories/agent_tool_executions.py\<close>. Intent is committed before the
  domain write and the outcome after it, each in a transaction of its own, so that a crash or a fault
  at any point leaves a row that tells what is known. The value of the injected clock is the
  \<open>env_now\<close> of the transaction that reads it. Trace spans are not modelled.
\<close>

section \<open>Identity and repository\<close>

record execution_identity =
  ei_run_id :: uuid
  ei_user_id :: uuid
  ei_revision :: int
  ei_fingerprint :: string
  ei_action_key :: string

definition identity_matches :: "execution_identity \<Rightarrow> agent_tool_execution \<Rightarrow> bool" where
  "identity_matches i r \<longleftrightarrow> ex_run_id r = ei_run_id i \<and> ex_user_id r = ei_user_id i \<and> ex_revision r = ei_revision i \<and>
     ex_fingerprint r = ei_fingerprint i \<and> ex_action_key r = ei_action_key i"

definition get_owned_action :: "execution_identity \<Rightarrow> db \<Rightarrow> agent_tool_execution option" where
  "get_owned_action i d = List.find (identity_matches i) (agent_tool_executions d)"

definition execution_lengths :: "agent_tool_execution \<Rightarrow> bool" where
  "execution_lengths r \<longleftrightarrow> length (ex_fingerprint r) \<le> 64 \<and> length (ex_action_key r) \<le> 64 \<and>
     length (ex_tool_name r) \<le> 32 \<and> opt_all (\<lambda>s. length s \<le> 300) (ex_result_summary r) \<and>
     opt_all (\<lambda>s. length s \<le> 64) (ex_error_code r)"

definition new_execution :: "env \<Rightarrow> execution_identity \<Rightarrow> string \<Rightarrow> agent_tool_execution" where
  "new_execution e i tool = \<lparr>ex_id = env_ids e 0, ex_run_id = ei_run_id i, ex_user_id = ei_user_id i,
     ex_revision = ei_revision i, ex_fingerprint = ei_fingerprint i, ex_action_key = ei_action_key i,
     ex_tool_name = tool, ex_status = EXEC_IN_PROGRESS, ex_attempt_count = 1, ex_result_task_id = None,
     ex_result_summary = None, ex_error_code = None, ex_started_at = env_now e, ex_completed_at = None,
     ex_created_at = env_now e, ex_updated_at = env_now e\<rparr>"

definition create_claim :: "env \<Rightarrow> execution_identity \<Rightarrow> string \<Rightarrow> db \<Rightarrow> db result" where
  "create_claim e i tool d =
     (let r = new_execution e i tool in
      bind_result (flush_row e 0 (execution_lengths r)
          ((''pk_agent_tool_executions'', ex_id r \<notin> ex_id ` set (agent_tool_executions d)) # execution_constraints d r))
        (\<lambda>_. Inr (d\<lparr>agent_tool_executions := agent_tool_executions d @ [r]\<rparr>)))"

text \<open>Attribute writes on a loaded row, and the flush.\<close>

definition save_execution :: "env \<Rightarrow> agent_tool_execution \<Rightarrow> db \<Rightarrow> db result" where
  "save_execution e r d =
     bind_result (flush_row e 0 (execution_lengths r) (execution_constraints d r))
       (\<lambda>_. Inr (d\<lparr>agent_tool_executions := replace_row ex_id r (agent_tool_executions d)\<rparr>))"

definition restart_failed :: "env \<Rightarrow> agent_tool_execution \<Rightarrow> db \<Rightarrow> db result" where
  "restart_failed e r = save_execution e (r\<lparr>ex_status := EXEC_IN_PROGRESS, ex_attempt_count := ex_attempt_count r + 1,
     ex_error_code := None, ex_completed_at := None, ex_started_at := env_now e, ex_updated_at := env_now e\<rparr>)"

definition complete_execution :: "env \<Rightarrow> agent_tool_execution \<Rightarrow> uuid \<Rightarrow> string \<Rightarrow> db \<Rightarrow> db result" where
  "complete_execution e r task_id summary = save_execution e (r\<lparr>ex_status := EXEC_COMPLETED,
     ex_result_task_id := Some task_id, ex_result_summary := Some summary, ex_completed_at := Some (env_now e),
     ex_updated_at := env_now e\<rparr>)"

definition fail_execution :: "env \<Rightarrow> agent_tool_execution \<Rightarrow> execution_status \<Rightarrow> string \<Rightarrow> db \<Rightarrow> db result" where
  "fail_execution e r status code = save_execution e (r\<lparr>ex_status := status, ex_error_code := Some code,
     ex_completed_at := Some (env_now e), ex_updated_at := env_now e\<rparr>)"

text \<open>The bounded audit listing: oldest first.\<close>

definition list_owned_run_actions :: "uuid \<Rightarrow> uuid \<Rightarrow> nat \<Rightarrow> db \<Rightarrow> agent_tool_execution list" where
  "list_owned_run_actions run user limit d =
     take limit (sort_key (\<lambda>r. (ex_created_at r, ex_id r))
       (filter (\<lambda>r. ex_run_id r = run \<and> ex_user_id r = user) (agent_tool_executions d)))"

definition get_owned_approval :: "uuid \<Rightarrow> uuid \<Rightarrow> int \<Rightarrow> db \<Rightarrow> agent_approval option" where
  "get_owned_approval run user revision d =
     List.find (\<lambda>a. ap_run_id a = run \<and> ap_user_id a = user \<and> ap_revision a = revision) (agent_approvals d)"

section \<open>The coordinator\<close>

record coordinator =
  co_run_id :: uuid
  co_user_id :: uuid
  co_rules :: pydantic_rules
  co_gateway :: gateway

text \<open>The transactions of one attempt: claim, second look after a lost race, completion, failure.\<close>

record attempt_env =
  ae_claim :: env
  ae_retry :: env
  ae_complete :: env
  ae_fail :: env

datatype claim_disposition = EXECUTE | REPLAY string uuid string

definition proven_no_write_errors :: "exn list" where
  "proven_no_write_errors = [TaskNotFoundError, ProjectNotFoundError, TaskDateOrderError, TaskTransitionError,
     ArchivedProjectError]"

definition agent_tool_execution_failed :: string where "agent_tool_execution_failed = ''AGENT_ACTION_FAILED''"
definition agent_tool_execution_unknown :: string where "agent_tool_execution_unknown = ''AGENT_ACTION_OUTCOME_UNKNOWN''"

definition is_duplicate_claim :: "exn \<Rightarrow> bool" where
  "is_duplicate_claim x \<longleftrightarrow> x = IntegrityError ''uq_agent_tool_executions_action_identity''"

definition identity_of :: "coordinator \<Rightarrow> proposed_action \<Rightarrow> nat \<Rightarrow> string \<Rightarrow> execution_identity" where
  "identity_of C a revision fp = \<lparr>ei_run_id = co_run_id C, ei_user_id = co_user_id C, ei_revision = int revision,
     ei_fingerprint = fp, ei_action_key = action_key a\<rparr>"

definition require_persisted_approval ::
  "coordinator \<Rightarrow> proposed_action \<Rightarrow> nat \<Rightarrow> string \<Rightarrow> db \<Rightarrow> unit result" where
  "require_persisted_approval C a revision fp d =
     (if \<not> is_high_impact_tool (tool_value (action_tool a)) then Inr ()
      else case get_owned_approval (co_run_id C) (co_user_id C) (int revision) d of
             None \<Rightarrow> Inl AgentToolReconciliationRequiredError
           | Some ap \<Rightarrow>
               if ap_decision ap \<noteq> APPROVAL_APPROVED \<or> ap_fingerprint ap \<noteq> fp
               then Inl AgentToolReconciliationRequiredError else Inr ())"

definition classify_existing :: "env \<Rightarrow> agent_tool_execution \<Rightarrow> db \<Rightarrow> (claim_disposition \<times> db) result" where
  "classify_existing e r d =
     (case ex_status r of
        EXEC_COMPLETED \<Rightarrow>
          (case (ex_result_task_id r, ex_result_summary r) of
             (Some task_id, Some summary) \<Rightarrow> Inr (REPLAY (ex_tool_name r) task_id summary, d)
           | _ \<Rightarrow> Inl AgentToolReconciliationRequiredError)
      | EXEC_FAILED \<Rightarrow> bind_result (restart_failed e r d) (\<lambda>d'. Inr (EXECUTE, d'))
      | _ \<Rightarrow> Inl AgentToolReconciliationRequiredError)"

text \<open>
  The first session of a claim. \<open>seen\<close> is the database its queries read; other transactions may
  have committed until its flush and commit, which act on \<open>d\<close>.
\<close>

definition claim_body ::
  "coordinator \<Rightarrow> env \<Rightarrow> proposed_action \<Rightarrow> nat \<Rightarrow> string \<Rightarrow> db \<Rightarrow> db \<Rightarrow> (claim_disposition \<times> db) result" where
  "claim_body C e a revision fp seen d =
     bind_result (require_persisted_approval C a revision fp seen) (\<lambda>_.
       case get_owned_action (identity_of C a revision fp) seen of
         None \<Rightarrow> bind_result (create_claim e (identity_of C a revision fp) (tool_value (action_tool a)) d)
                    (\<lambda>d'. Inr (EXECUTE, d'))
       | Some r \<Rightarrow>
           if ex_tool_name r \<noteq> tool_value (action_tool a) then Inl AgentToolReconciliationRequiredError
           else classify_existing e r d)"

definition retry_body ::
  "coordinator \<Rightarrow> env \<Rightarrow> proposed_action \<Rightarrow> nat \<Rightarrow> string \<Rightarrow> db \<Rightarrow> (claim_disposition \<times> db) result" where
  "retry_body C e a revision fp d =
     (case get_owned_action (identity_of C a revision fp) d of
        None \<Rightarrow> Inl AgentToolReconciliationRequiredError
      | Some r \<Rightarrow>
          if ex_tool_name r \<noteq> tool_value (action_tool a) then Inl AgentToolReconciliationRequiredError
          else classify_existing e r d)"

definition claim ::
  "coordinator \<Rightarrow> attempt_env \<Rightarrow> (db \<Rightarrow> db) \<Rightarrow> proposed_action \<Rightarrow> nat \<Rightarrow> string \<Rightarrow> db \<Rightarrow> claim_disposition result \<times> db" where
  "claim C E others a revision fp d =
     (case transaction (env_commit (ae_claim E)) (claim_body C (ae_claim E) a revision fp d) (open_session (others d)) of
        (Inr c, s) \<Rightarrow> (Inr c, committed s)
      | (Inl x, s) \<Rightarrow>
          if is_duplicate_claim x
          then map_prod id committed (transaction (env_commit (ae_retry E)) (retry_body C (ae_retry E) a revision fp)
                 (open_session (committed s)))
          else (Inl x, committed s))"

definition dispatch ::
  "coordinator \<Rightarrow> runtime_context \<Rightarrow> proposed_action \<Rightarrow> db \<Rightarrow> write_tool_result result \<times> db" where
  "dispatch C ctx a d =
     map_prod (\<lambda>res. bind_result res (validate_write_tool_result (tool_value (action_tool a)))) id
       (execute_tool (co_rules C) (co_gateway C) (tool_value (action_tool a)) (action_arguments a) ctx d)"

fun result_reference :: "write_tool_result \<Rightarrow> uuid" where
  "result_reference (Wrote_task t) = pt_id t"
| "result_reference (Wrote_mutation m) = mut_reference_task_id m"

fun result_summary :: "write_tool_result \<Rightarrow> string" where
  "result_summary (Wrote_task t) = pt_title t"
| "result_summary (Wrote_mutation m) = mut_summary m"

definition record_completion :: "env \<Rightarrow> execution_identity \<Rightarrow> write_tool_result \<Rightarrow> db \<Rightarrow> unit result \<times> db" where
  "record_completion e i res d =
     map_prod id committed (transaction (env_commit e) (\<lambda>x.
       case get_owned_action i x of
         None \<Rightarrow> Inl AgentToolReconciliationRequiredError
       | Some r \<Rightarrow>
           if ex_status r \<noteq> EXEC_IN_PROGRESS then Inl AgentToolReconciliationRequiredError
           else bind_result (complete_execution e r (result_reference res) (result_summary res) x) (\<lambda>x'. Inr ((), x')))
       (open_session d))"

definition record_failure ::
  "env \<Rightarrow> execution_identity \<Rightarrow> execution_status \<Rightarrow> string \<Rightarrow> db \<Rightarrow> unit result \<times> db" where
  "record_failure e i status code d =
     map_prod id committed (transaction (env_commit e) (\<lambda>x.
       case get_owned_action i x of
         None \<Rightarrow> Inl AgentToolReconciliationRequiredError
       | Some r \<Rightarrow>
           if ex_status r = EXEC_COMPLETED then Inl AgentToolReconciliationRequiredError
           else bind_result (fail_execution e r status code x) (\<lambda>x'. Inr ((), x')))
       (open_session d))"

text \<open>What is recorded after the dispatch, and what the caller is told.\<close>

definition record_outcome ::
  "coordinator \<Rightarrow> attempt_env \<Rightarrow> execution_identity \<Rightarrow> write_tool_result result \<Rightarrow> db \<Rightarrow>
   write_tool_result result \<times> db" where
  "record_outcome C E i res d =
     (case res of
        Inl x \<Rightarrow>
          (case (if x \<in> set proven_no_write_errors
                 then record_failure (ae_fail E) i EXEC_FAILED agent_tool_execution_failed d
                 else record_failure (ae_fail E) i EXEC_UNKNOWN agent_tool_execution_unknown d) of
             (Inl y, d') \<Rightarrow> (Inl y, d')
           | (Inr _, d') \<Rightarrow> (Inl x, d'))
      | Inr r \<Rightarrow>
          (case record_completion (ae_complete E) i r d of
             (Inr _, d') \<Rightarrow> (Inr r, d')
           | (Inl _, d') \<Rightarrow>
               (case record_failure (ae_fail E) i EXEC_UNKNOWN agent_tool_execution_unknown d' of
                  (Inl y, d'') \<Rightarrow> (Inl y, d'')
                | (Inr _, d'') \<Rightarrow> (Inl AgentToolReconciliationRequiredError, d''))))"

section \<open>Replay\<close>

text \<open>\<open>str.split()\<close>\<close>

fun split_words :: "string \<Rightarrow> string \<Rightarrow> string list" where
  "split_words w [] = (if w = [] then [] else [w])"
| "split_words w (c # cs) =
     (if py_space c then (if w = [] then split_words [] cs else w # split_words [] cs)
      else split_words (w @ [c]) cs)"

definition py_split :: "string \<Rightarrow> string list" where
  "py_split s = split_words [] s"

text \<open>\<open>int(text)\<close> of a word: an optional sign and decimal digits, single underscores between them.\<close>

definition digit_value :: "char \<Rightarrow> nat option" where
  "digit_value c = (if char_between CHR ''0'' CHR ''9'' c then Some (of_char c - 48) else None)"

fun int_digits :: "nat \<Rightarrow> string \<Rightarrow> nat option" where
  "int_digits acc [] = Some acc"
| "int_digits acc (c # cs) =
     (case digit_value c of
        Some n \<Rightarrow> int_digits (10 * acc + n) cs
      | None \<Rightarrow>
          if c = CHR ''_'' then (case cs of x # _ \<Rightarrow> if digit_value x \<noteq> None then int_digits acc cs else None | [] \<Rightarrow> None)
          else None)"

definition py_nat :: "string \<Rightarrow> nat option" where
  "py_nat s = (case s of [] \<Rightarrow> None | c # _ \<Rightarrow> if digit_value c = None then None else int_digits 0 s)"

definition py_int :: "string \<Rightarrow> int option" where
  "py_int s =
     (case s of
        [] \<Rightarrow> None
      | c # cs \<Rightarrow>
          if c = CHR ''-'' then map_option (\<lambda>n. - int n) (py_nat cs)
          else if c = CHR ''+'' then map_option int (py_nat cs)
          else map_option int (py_nat s))"

definition load_public_result ::
  "coordinator \<Rightarrow> string \<Rightarrow> uuid \<Rightarrow> string \<Rightarrow> db \<Rightarrow> write_tool_result result" where
  "load_public_result C tool task_id summary d =
     (if tool = ''delete_task''
      then bind_result (tool_mutation_result ''delete_task'' task_id 1 summary) (\<lambda>m. Inr (Wrote_mutation m))
      else if tool = ''batch_create_tasks'' then
        (case py_split summary of
           [a, b, c] \<Rightarrow>
             if a \<noteq> ''Created'' \<or> c \<noteq> ''tasks'' then Inl AgentToolReconciliationRequiredError
             else (case py_int b of
                     None \<Rightarrow> Inl AgentToolReconciliationRequiredError
                   | Some n \<Rightarrow> bind_result (tool_mutation_result ''batch_create_tasks'' task_id n summary)
                       (\<lambda>m. Inr (Wrote_mutation m)))
         | _ \<Rightarrow> Inl AgentToolReconciliationRequiredError)
      else (case get_owned_task task_id (co_user_id C) d of
              Inl _ \<Rightarrow> Inl AgentToolReconciliationRequiredError
            | Inr t \<Rightarrow> Inr (Wrote_task t)))"

text \<open>\<open>_execute\<close>, the whole attempt.\<close>

definition coordinator_execute ::
  "coordinator \<Rightarrow> attempt_env \<Rightarrow> (db \<Rightarrow> db) \<Rightarrow> runtime_context \<Rightarrow> proposed_action \<Rightarrow> nat \<Rightarrow> string \<Rightarrow> db \<Rightarrow>
   write_tool_result result \<times> db" where
  "coordinator_execute C E others ctx a revision fp d =
     (if ctx_user_id ctx \<noteq> co_user_id C \<or> \<not> write_tools_enabled ctx
      then (Inl AgentToolReconciliationRequiredError, d)
      else case claim C E others a revision fp d of
             (Inl x, d1) \<Rightarrow> (Inl x, d1)
           | (Inr (REPLAY tool task_id summary), d1) \<Rightarrow> (load_public_result C tool task_id summary d1, d1)
           | (Inr EXECUTE, d1) \<Rightarrow>
               (case dispatch C ctx a d1 of (res, d2) \<Rightarrow>
                  record_outcome C E (identity_of C a revision fp) res d2))"

section \<open>The row of an identity\<close>

definition row_status :: "execution_identity \<Rightarrow> db \<Rightarrow> execution_status option" where
  "row_status i d = map_option ex_status (get_owned_action i d)"

definition wf_executions :: "db \<Rightarrow> bool" where
  "wf_executions d \<longleftrightarrow> distinct (map ex_id (agent_tool_executions d))"

lemma find_replace_first:
  assumes "List.find P rows = Some r" "P r'" "key r' = key r" "distinct (map key rows)"
  shows "List.find P (replace_row key r' rows) = Some r'"
  using assms
proof (induction rows)
  case (Cons x rows)
  show ?case
  proof (cases "P x")
    case True
    then show ?thesis using Cons.prems by (simp add: replace_row_def)
  next
    case False
    then have r: "List.find P rows = Some r" using Cons.prems by simp
    then have "key x \<noteq> key r'"
      using Cons.prems find_SomeD [OF r] by auto
    then show ?thesis using False r Cons by (simp add: replace_row_def)
  qed
qed simp

text \<open>Saving the row of an identity makes it the row of this identity and keeps the keys.\<close>

lemma save_execution_row:
  assumes "save_execution e r' d = Inr d'" "get_owned_action i d = Some r" "wf_executions d"
    and "identity_matches i r \<Longrightarrow> identity_matches i r'" "ex_id r' = ex_id r"
  shows "get_owned_action i d' = Some r'" "wf_executions d'"
proof -
  have d': "d' = d\<lparr>agent_tool_executions := replace_row ex_id r' (agent_tool_executions d)\<rparr>"
    using assms(1) by (simp add: save_execution_def result_Inr)
  have "identity_matches i r'"
    using assms(2,4) by (auto simp: get_owned_action_def dest: find_SomeD)
  then show "get_owned_action i d' = Some r'" "wf_executions d'"
    using assms(2,3,5) find_replace_first [of "identity_matches i" "agent_tool_executions d" r r' ex_id]
    by (simp_all add: get_owned_action_def wf_executions_def d' row_simps)
qed

lemma create_claim_row:
  assumes "create_claim e i tool d = Inr d'" "get_owned_action i d = None" "wf_executions d"
  shows "row_status i d' = Some EXEC_IN_PROGRESS" "wf_executions d'"
proof -
  have d': "d' = d\<lparr>agent_tool_executions := agent_tool_executions d @ [new_execution e i tool]\<rparr>"
    and fresh: "ex_id (new_execution e i tool) \<notin> ex_id ` set (agent_tool_executions d)"
    using assms(1) by (auto simp: create_claim_def Let_def result_Inr flush_row_ok)
  have "identity_matches i (new_execution e i tool)"
    by (simp add: identity_matches_def new_execution_def)
  then have "get_owned_action i d' = Some (new_execution e i tool)"
    using assms(2) by (simp add: get_owned_action_def d' row_simps)
  then show "row_status i d' = Some EXEC_IN_PROGRESS" "wf_executions d'"
    using assms(3) fresh by (auto simp: row_status_def wf_executions_def d' new_execution_def)
qed

lemma classify_existing_row:
  assumes "classify_existing e r d = Inr (c, d')" "get_owned_action i d = Some r" "wf_executions d"
  shows "(d' = d \<and> c \<noteq> EXECUTE) \<or>
    (row_status i d = Some EXEC_FAILED \<and> row_status i d' = Some EXEC_IN_PROGRESS \<and> wf_executions d')"
proof (cases "ex_status r = EXEC_FAILED")
  case True
  let ?r = "r\<lparr>ex_status := EXEC_IN_PROGRESS, ex_attempt_count := ex_attempt_count r + 1,
     ex_error_code := None, ex_completed_at := None, ex_started_at := env_now e, ex_updated_at := env_now e\<rparr>"
  have "save_execution e ?r d = Inr d'"
    using assms(1) True by (auto simp: classify_existing_def restart_failed_def result_Inr)
  from save_execution_row [OF this assms(2,3)]
  have "get_owned_action i d' = Some ?r" "wf_executions d'" by (simp_all add: identity_matches_def)
  then show ?thesis using assms(2) True by (simp add: row_status_def)
next
  case False
  then show ?thesis using assms(1)
    by (auto simp: classify_existing_def split: execution_status.splits option.splits prod.splits)
qed

text \<open>
  A claim either changes nothing and does not execute, or turns an absent or failed row into one in
  progress, also when its commit is acknowledged only by an error.
\<close>

definition claim_effect :: "execution_identity \<Rightarrow> db \<Rightarrow> claim_disposition result \<Rightarrow> db \<Rightarrow> bool" where
  "claim_effect i d c d' \<longleftrightarrow>
     (d' = d \<and> c \<noteq> Inr EXECUTE) \<or>
     (row_status i d \<in> {None, Some EXEC_FAILED} \<and> row_status i d' = Some EXEC_IN_PROGRESS \<and> wf_executions d')"

lemma claim_effect_transaction:
  assumes "\<And>c d'. body d = Inr (c, d') \<Longrightarrow> claim_effect i d (Inr c) d'"
    and "transaction outcome body (open_session d) = (c, s)"
  shows "claim_effect i d c (committed s)"
  using assms(2) by (cases rule: transaction_cases) (auto simp: claim_effect_def dest!: assms(1))

lemma claim_no_race:
  assumes "claim C E id a revision fp d = (c, d')" "wf_executions d"
  shows "claim_effect (identity_of C a revision fp) d c d'"
proof -
  let ?i = "identity_of C a revision fp"
  have first: "claim_effect ?i d (Inr c) d'" if "claim_body C e a revision fp d d = Inr (c, d')" for e c d'
    using that assms(2) create_claim_row classify_existing_row
    by (fastforce simp: claim_body_def result_Inr claim_effect_def row_status_def split: option.splits if_splits)
  have second: "claim_effect ?i d (Inr c) d'" if "retry_body C e a revision fp d = Inr (c, d')" for e c d'
    using that assms(2) classify_existing_row
    by (fastforce simp: retry_body_def claim_effect_def split: option.splits if_splits)
  obtain c1 s where t: "transaction (env_commit (ae_claim E)) (claim_body C (ae_claim E) a revision fp d) (open_session d) = (c1, s)"
    by force
  from claim_effect_transaction [OF first t] have e1: "claim_effect ?i d c1 (committed s)" .
  show ?thesis
  proof (cases c1)
    case (Inr x)
    then show ?thesis using assms(1) e1 t by (simp add: claim_def)
  next
    case (Inl x)
    show ?thesis
    proof (cases "is_duplicate_claim x")
      case False
      then show ?thesis using assms(1) e1 t Inl by (simp add: claim_def)
    next
      case True
      then have "x \<noteq> DatabaseError" by (auto simp: is_duplicate_claim_def)
      then have "committed s = d"
        using transaction_error_not_database [OF t [unfolded Inl]] by simp
      then show ?thesis
        using assms(1) t Inl True claim_effect_transaction [OF second]
        by (auto simp: claim_def map_prod_def split: prod.splits)
    qed
  qed
qed

lemma transaction_open_cases:
  assumes "transaction outcome body (open_session d) = (c, s)"
  obtains (unchanged) x where "committed s = d" "c = Inl x"
  | (stored) r where "body d = Inr (r, committed s)" "c = Inr r \<or> c = Inl DatabaseError"
  using assms by (cases rule: transaction_cases) auto

text \<open>The outcomes that recording may leave for a row in progress.\<close>

lemma record_completion_row:
  assumes "record_completion e i res d = (c, d')" "row_status i d = Some EXEC_IN_PROGRESS" "wf_executions d"
  shows "(d' = d \<or> row_status i d' = Some EXEC_COMPLETED) \<and> wf_executions d' \<and> (c = Inr () \<longrightarrow> row_status i d' = Some EXEC_COMPLETED)"
proof -
  let ?body = "\<lambda>x. case get_owned_action i x of
         None \<Rightarrow> Inl AgentToolReconciliationRequiredError
       | Some r \<Rightarrow>
           if ex_status r \<noteq> EXEC_IN_PROGRESS then Inl AgentToolReconciliationRequiredError
           else bind_result (complete_execution e r (result_reference res) (result_summary res) x) (\<lambda>x'. Inr ((), x'))"
  have body: "row_status i d' = Some EXEC_COMPLETED \<and> wf_executions d'" if "?body d = Inr (u, d')" for u d'
  proof -
    obtain r where r: "get_owned_action i d = Some r" using assms(2) by (auto simp: row_status_def)
    let ?r = "r\<lparr>ex_status := EXEC_COMPLETED, ex_result_task_id := Some (result_reference res),
      ex_result_summary := Some (result_summary res), ex_completed_at := Some (env_now e), ex_updated_at := env_now e\<rparr>"
    have "save_execution e ?r d = Inr d'"
      using that r by (auto simp: complete_execution_def result_Inr split: if_splits)
    from save_execution_row [OF this r assms(3)] show ?thesis
      by (simp add: identity_matches_def row_status_def)
  qed
  obtain s where t: "transaction (env_commit e) ?body (open_session d) = (c, s)" and d': "d' = committed s"
    using assms(1) by (auto simp: record_completion_def map_prod_def split: prod.splits)
  from t show ?thesis
  proof (cases rule: transaction_open_cases)
    case (unchanged x)
    then show ?thesis using assms(3) d' by simp
  next
    case (stored u)
    then show ?thesis using body d' by blast
  qed
qed

lemma record_failure_row:
  assumes "record_failure e i status code d = (c, d')" "wf_executions d" "get_owned_action i d = Some r"
  shows "(d' = d \<or> (ex_status r \<noteq> EXEC_COMPLETED \<and> row_status i d' = Some status)) \<and> wf_executions d'"
proof -
  let ?body = "\<lambda>x. case get_owned_action i x of
         None \<Rightarrow> Inl AgentToolReconciliationRequiredError
       | Some r \<Rightarrow>
           if ex_status r = EXEC_COMPLETED then Inl AgentToolReconciliationRequiredError
           else bind_result (fail_execution e r status code x) (\<lambda>x'. Inr ((), x'))"
  have body: "ex_status r \<noteq> EXEC_COMPLETED \<and> row_status i d' = Some status \<and> wf_executions d'" if "?body d = Inr (u, d')" for u d'
  proof -
    let ?r = "r\<lparr>ex_status := status, ex_error_code := Some code, ex_completed_at := Some (env_now e), ex_updated_at := env_now e\<rparr>"
    have "ex_status r \<noteq> EXEC_COMPLETED" "save_execution e ?r d = Inr d'"
      using that assms(3) by (auto simp: fail_execution_def result_Inr split: if_splits)
    moreover from save_execution_row [OF this(2) assms(3,2)] have "row_status i d' = Some status \<and> wf_executions d'"
      by (simp add: identity_matches_def row_status_def)
    ultimately show ?thesis by simp
  qed
  obtain s where t: "transaction (env_commit e) ?body (open_session d) = (c, s)" and d': "d' = committed s"
    using assms(1) by (auto simp: record_failure_def map_prod_def split: prod.splits)
  from t show ?thesis
  proof (cases rule: transaction_open_cases)
    case (unchanged x)
    then show ?thesis using assms(2) d' by simp
  next
    case (stored u)
    then show ?thesis using body d' by blast
  qed
qed

lemma record_outcome_row:
  assumes "record_outcome C E i res d = (c, d')" "row_status i d = Some EXEC_IN_PROGRESS" "wf_executions d"
  shows "wf_executions d' \<and> row_status i d' \<noteq> None \<and>
    (row_status i d' = Some EXEC_FAILED \<longrightarrow> (\<exists>x \<in> set proven_no_write_errors. res = Inl x))"
proof -
  obtain r where r: "get_owned_action i d = Some r" "ex_status r = EXEC_IN_PROGRESS"
    using assms(2) by (auto simp: row_status_def)
  show ?thesis
  proof (cases res)
    case (Inl x)
    obtain y where "(if x \<in> set proven_no_write_errors
                 then record_failure (ae_fail E) i EXEC_FAILED agent_tool_execution_failed d
                 else record_failure (ae_fail E) i EXEC_UNKNOWN agent_tool_execution_unknown d) = (y, d')"
      using assms(1) Inl by (auto simp: record_outcome_def split: prod.splits sum.splits)
    then show ?thesis
      using record_failure_row [OF _ assms(3) r(1)] assms(2) Inl by (fastforce split: if_splits)
  next
    case (Inr w)
    obtain c1 d1 where c1: "record_completion (ae_complete E) i w d = (c1, d1)" by force
    note R = record_completion_row [OF c1 assms(2,3)]
    show ?thesis
    proof (cases c1)
      case (Inr u)
      then show ?thesis using assms(1) \<open>res = Inr w\<close> c1 R by (auto simp: record_outcome_def)
    next
      case (Inl x)
      obtain r1 where r1: "get_owned_action i d1 = Some r1" "ex_status r1 \<in> {EXEC_IN_PROGRESS, EXEC_COMPLETED}"
        using R r by (auto simp: row_status_def)
      obtain y where "record_failure (ae_fail E) i EXEC_UNKNOWN agent_tool_execution_unknown d1 = (y, d')"
        using assms(1) \<open>res = Inr w\<close> c1 Inl by (auto simp: record_outcome_def split: prod.splits sum.splits)
      from record_failure_row [OF this _ r1(1)] show ?thesis
        using R r1 by (auto simp: row_status_def)
    qed
  qed
qed

section \<open>Interleaved attempts\<close>

text \<open>
  Any number of workers try to run one action. Each claims, dispatches and records; between any two
  of these steps other workers and unrelated requests act, and a worker may crash at any point.
  \<open>w_writes\<close> counts the dispatches that changed the database.
\<close>

datatype phase = Idle | Claimed | Dispatched "write_tool_result result"

record world =
  w_db :: db
  w_phase :: "nat \<Rightarrow> phase"
  w_writes :: nat

inductive worker_step ::
  "coordinator \<Rightarrow> runtime_context \<Rightarrow> proposed_action \<Rightarrow> nat \<Rightarrow> string \<Rightarrow> world \<Rightarrow> world \<Rightarrow> bool"
  for C ctx a revision fp where
  claims: "w_phase w k = Idle \<Longrightarrow> claim C E id a revision fp (w_db w) = (c, d') \<Longrightarrow>
    worker_step C ctx a revision fp w
      (w\<lparr>w_db := d', w_phase := (w_phase w)(k := if c = Inr EXECUTE then Claimed else Idle)\<rparr>)"
| dispatches: "w_phase w k = Claimed \<Longrightarrow> dispatch C ctx a (w_db w) = (res, d') \<Longrightarrow>
    worker_step C ctx a revision fp w
      (w\<lparr>w_db := d', w_phase := (w_phase w)(k := Dispatched res),
         w_writes := w_writes w + (if d' = w_db w then 0 else 1)\<rparr>)"
| records: "w_phase w k = Dispatched res \<Longrightarrow>
    record_outcome C E (identity_of C a revision fp) res (w_db w) = (c, d') \<Longrightarrow>
    worker_step C ctx a revision fp w (w\<lparr>w_db := d', w_phase := (w_phase w)(k := Idle)\<rparr>)"
| crashes_recording: "w_phase w k = Dispatched (Inr r) \<Longrightarrow>
    record_completion e (identity_of C a revision fp) r (w_db w) = (c, d') \<Longrightarrow>
    worker_step C ctx a revision fp w (w\<lparr>w_db := d', w_phase := (w_phase w)(k := Idle)\<rparr>)"
| crashes: "worker_step C ctx a revision fp w (w\<lparr>w_phase := (w_phase w)(k := Idle)\<rparr>)"
| elsewhere: "agent_tool_executions d' = agent_tool_executions (w_db w) \<Longrightarrow>
    worker_step C ctx a revision fp w (w\<lparr>w_db := d'\<rparr>)"

text \<open>
  What the coordinator relies on: a domain write leaves the execution rows alone, and the errors it
  takes as proof that nothing was written are that.
\<close>

locale domain_dispatch =
  fixes disp :: "db \<Rightarrow> write_tool_result result \<times> db"
  assumes keeps_executions: "agent_tool_executions (snd (disp d)) = agent_tool_executions d"
    and proven_no_write: "fst (disp d) = Inl x \<Longrightarrow> x \<in> set proven_no_write_errors \<Longrightarrow> snd (disp d) = d"

text \<open>
  At most one worker is past its claim, and while it is the row is in progress; a write happened
  only if the row says that it may have.
\<close>

definition resting :: "execution_identity \<Rightarrow> world \<Rightarrow> bool" where
  "resting i w \<longleftrightarrow> w_phase w = (\<lambda>_. Idle) \<and>
     (row_status i (w_db w) \<in> {None, Some EXEC_FAILED} \<longrightarrow> w_writes w = 0)"

definition working_on :: "execution_identity \<Rightarrow> nat \<Rightarrow> phase \<Rightarrow> world \<Rightarrow> bool" where
  "working_on i k ph w \<longleftrightarrow> w_phase w = (\<lambda>_. Idle)(k := ph) \<and> ph \<noteq> Idle \<and>
     row_status i (w_db w) = Some EXEC_IN_PROGRESS \<and> (ph = Claimed \<longrightarrow> w_writes w = 0) \<and>
     (\<forall>x \<in> set proven_no_write_errors. ph = Dispatched (Inl x) \<longrightarrow> w_writes w = 0)"

definition attempts_inv :: "execution_identity \<Rightarrow> world \<Rightarrow> bool" where
  "attempts_inv i w \<longleftrightarrow> wf_executions (w_db w) \<and> w_writes w \<le> 1 \<and> (resting i w \<or> (\<exists>k ph. working_on i k ph w))"

lemma attempts_inv_active:
  assumes "attempts_inv i w" "w_phase w k = ph" "ph \<noteq> Idle"
  shows "working_on i k ph w" "wf_executions (w_db w)" "w_writes w \<le> 1"
  using assms by (auto simp: attempts_inv_def resting_def working_on_def split: if_splits)

lemma attempts_inv_idle:
  assumes "attempts_inv i w" "row_status i (w_db w) \<noteq> Some EXEC_IN_PROGRESS"
  shows "resting i w" "wf_executions (w_db w)"
  using assms by (auto simp: attempts_inv_def working_on_def)

lemma row_status_cong:
  "agent_tool_executions d' = agent_tool_executions d \<Longrightarrow> row_status i d' = row_status i d"
  "agent_tool_executions d' = agent_tool_executions d \<Longrightarrow> wf_executions d' = wf_executions d"
  by (simp_all add: row_status_def get_owned_action_def wf_executions_def)

context domain_dispatch
begin

lemma dispatch_inv:
  assumes "attempts_inv i w" "w_phase w k = Claimed" "disp (w_db w) = (res, d')"
  shows "attempts_inv i (w\<lparr>w_db := d', w_phase := (w_phase w)(k := Dispatched res),
     w_writes := w_writes w + (if d' = w_db w then 0 else 1)\<rparr>)"
proof -
  have same: "row_status i d' = row_status i (w_db w)" "wf_executions d' = wf_executions (w_db w)"
    using row_status_cong [OF keeps_executions [of "w_db w"]] by (simp_all add: assms(3))
  have nowrite: "d' = w_db w" if "res = Inl x" "x \<in> set proven_no_write_errors" for x
    using proven_no_write [of "w_db w" x] that assms(3) by simp
  have "working_on i k Claimed w" "wf_executions (w_db w)"
    using attempts_inv_active [OF assms(1,2)] by auto
  then have "working_on i k (Dispatched res) (w\<lparr>w_db := d', w_phase := (w_phase w)(k := Dispatched res),
     w_writes := w_writes w + (if d' = w_db w then 0 else 1)\<rparr>)"
    using same nowrite by (auto simp: working_on_def)
  then show ?thesis
    using \<open>working_on i k Claimed w\<close> \<open>wf_executions (w_db w)\<close> same
    unfolding attempts_inv_def by (auto simp: working_on_def [of i k Claimed])
qed

end

lemma claim_inv:
  assumes "attempts_inv (identity_of C a revision fp) w" "w_phase w k = Idle"
    and "claim C E id a revision fp (w_db w) = (c, d')"
  shows "attempts_inv (identity_of C a revision fp)
    (w\<lparr>w_db := d', w_phase := (w_phase w)(k := if c = Inr EXECUTE then Claimed else Idle)\<rparr>)"
proof -
  let ?i = "identity_of C a revision fp"
  have "claim_effect ?i (w_db w) c d'"
    using claim_no_race [OF assms(3)] assms(1) by (simp add: attempts_inv_def)
  then consider "d' = w_db w" "c \<noteq> Inr EXECUTE"
    | "row_status ?i (w_db w) \<in> {None, Some EXEC_FAILED}" "row_status ?i d' = Some EXEC_IN_PROGRESS" "wf_executions d'"
    by (auto simp: claim_effect_def)
  then show ?thesis
  proof cases
    case 1
    then show ?thesis using assms(1,2) by (simp add: fun_upd_idem)
  next
    case 2
    then have rest: "resting ?i w" using attempts_inv_idle [OF assms(1)] by auto
    show ?thesis
    proof (cases "c = Inr EXECUTE")
      case True
      then have "working_on ?i k Claimed (w\<lparr>w_db := d', w_phase := (w_phase w)(k := Claimed)\<rparr>)"
        using 2 rest by (simp add: working_on_def resting_def)
      then show ?thesis using True 2 rest unfolding attempts_inv_def by (auto simp: resting_def)
    next
      case False
      then show ?thesis using 2 rest by (auto simp: attempts_inv_def resting_def)
    qed
  qed
qed

lemma record_inv:
  assumes "attempts_inv i w" "w_phase w k = Dispatched res"
    and "wf_executions d'" "row_status i d' \<noteq> None"
    and "row_status i d' = Some EXEC_FAILED \<Longrightarrow> \<exists>x \<in> set proven_no_write_errors. res = Inl x"
  shows "attempts_inv i (w\<lparr>w_db := d', w_phase := (w_phase w)(k := Idle)\<rparr>)"
proof -
  have w: "working_on i k (Dispatched res) w" "w_writes w \<le> 1"
    using attempts_inv_active [OF assms(1,2)] by auto
  then have "w_writes w = 0" if "row_status i d' = Some EXEC_FAILED"
    using assms(5) [OF that] by (auto simp: working_on_def)
  then have "resting i (w\<lparr>w_db := d', w_phase := (w_phase w)(k := Idle)\<rparr>)"
    using w(1) assms(4) by (auto simp: resting_def working_on_def)
  then show ?thesis using assms(3) w(2) by (simp add: attempts_inv_def)
qed

lemma crash_inv:
  assumes "attempts_inv i w"
  shows "attempts_inv i (w\<lparr>w_phase := (w_phase w)(k := Idle)\<rparr>)"
proof (cases "w_phase w k = Idle")
  case True
  then show ?thesis using assms by (simp add: fun_upd_idem)
next
  case False
  then obtain ph where "working_on i k ph w" using attempts_inv_active(1) [OF assms] by blast
  then have "resting i (w\<lparr>w_phase := (w_phase w)(k := Idle)\<rparr>)"
    by (auto simp: resting_def working_on_def)
  then show ?thesis using assms by (simp add: attempts_inv_def)
qed

lemma attempts_inv_step:
  assumes "domain_dispatch (dispatch C ctx a)" "worker_step C ctx a revision fp w w'"
    and "attempts_inv (identity_of C a revision fp) w"
  shows "attempts_inv (identity_of C a revision fp) w'"
  using assms(2,3)
proof (induction rule: worker_step.induct)
  case (claims w k E c d')
  then show ?case by (intro claim_inv)
next
  case (dispatches w k res d')
  then show ?case using domain_dispatch.dispatch_inv [OF assms(1)] by blast
next
  case (records w k res E c d')
  then have "row_status (identity_of C a revision fp) (w_db w) = Some EXEC_IN_PROGRESS" "wf_executions (w_db w)"
    using attempts_inv_active [OF records(3,1)] by (auto simp: working_on_def)
  with record_outcome_row [OF records(2)] records show ?case
    by (intro record_inv) auto
next
  case (crashes_recording w k r e c d')
  then have "row_status (identity_of C a revision fp) (w_db w) = Some EXEC_IN_PROGRESS" "wf_executions (w_db w)"
    using attempts_inv_active [OF crashes_recording(3,1)] by (auto simp: working_on_def)
  with record_completion_row [OF crashes_recording(2)] crashes_recording show ?case
    by (intro record_inv) auto
next
  case (crashes w k)
  then show ?case by (rule crash_inv)
next
  case (elsewhere d' w)
  then show ?case using row_status_cong [OF elsewhere(1)]
    by (simp add: attempts_inv_def resting_def working_on_def)
qed

lemma attempts_inv_run:
  assumes "domain_dispatch (dispatch C ctx a)" "(worker_step C ctx a revision fp)\<^sup>*\<^sup>* w w'"
    and "attempts_inv (identity_of C a revision fp) w"
  shows "attempts_inv (identity_of C a revision fp) w'"
  using assms(2,3) by (induction rule: rtranclp_induct) (auto intro: attempts_inv_step [OF assms(1)])

section \<open>The domain gateway meets the contract\<close>

lemma create_task_no_write:
  "create_task e c u (open_session d) = (Inl x, s) \<Longrightarrow> x \<noteq> DatabaseError \<Longrightarrow> committed s = d"
  by (auto simp: create_task_def split: option.splits dest!: transaction_error_not_database)

lemma create_task_batch_no_write:
  "create_task_batch e cs u (open_session d) = (Inl x, s) \<Longrightarrow> x \<noteq> DatabaseError \<Longrightarrow> committed s = d"
  by (auto simp: create_task_batch_def Let_def split: option.splits if_splits dest!: transaction_error_not_database)

lemma update_owned_task_no_write:
  "update_owned_task e i c u (open_session d) = (Inl x, s) \<Longrightarrow> x \<noteq> DatabaseError \<Longrightarrow> committed s = d"
  by (auto simp: update_owned_task_def Let_def split: sum.splits if_splits dest!: transaction_error_not_database)

lemma delete_owned_task_no_write:
  "delete_owned_task e i u (open_session d) = (Inl x, s) \<Longrightarrow> x \<noteq> DatabaseError \<Longrightarrow> committed s = d"
  by (auto simp: delete_owned_task_def Let_def split: sum.splits option.splits if_splits dest!: transaction_error_not_database)

text \<open>Domain writes change the Task table and nothing else.\<close>

definition same_but_tasks :: "db \<Rightarrow> db \<Rightarrow> bool" where
  "same_but_tasks d d' \<longleftrightarrow> d'\<lparr>tasks := []\<rparr> = d\<lparr>tasks := []\<rparr>"

lemma same_but_tasks_tables:
  "same_but_tasks d d' \<Longrightarrow> agent_tool_executions d' = agent_tool_executions d \<and> agent_approvals d' = agent_approvals d"
  unfolding same_but_tasks_def by (cases d; cases d') simp

lemma create_all_same_but_tasks: "create_all e n u cs d = Inr (rs, d') \<Longrightarrow> same_but_tasks d d'"
  by (induction cs arbitrary: n d rs)
     (fastforce simp: result_Inr task_repo_create_def Let_def same_but_tasks_def)+

lemma domain_same_but_tasks:
  "same_but_tasks d (committed (snd (create_task e c u (open_session d))))"
  "same_but_tasks d (committed (snd (create_task_batch e cs u (open_session d))))"
  "same_but_tasks d (committed (snd (update_owned_task e i ch u (open_session d))))"
  "same_but_tasks d (committed (snd (delete_owned_task e i u (open_session d))))"
  by (auto simp: create_task_def create_task_batch_def update_owned_task_def delete_owned_task_def Let_def result_Inr
      task_repo_create_def task_repo_update_def task_repo_delete_owned_def same_but_tasks_def
      intro!: transaction_preserves [where P = "\<lambda>x. x\<lparr>tasks := []\<rparr> = d\<lparr>tasks := []\<rparr>"]
      dest!: create_all_same_but_tasks split: option.splits sum.splits if_splits prod.splits)

lemma run_tool_same_but_tasks:
  "same_but_tasks d (snd (run_tool (agent_domain_gateway e tr search) u args d))"
proof -
  have "same_but_tasks d d" by (simp add: same_but_tasks_def)
  then show ?thesis
    by (cases args)
       (simp_all add: run_tool_def agent_domain_gateway_def snd_map_prod list_owned_projects_def Let_def
          domain_batch_create_db domain_delete_task_db domain_same_but_tasks split: sum.split)
qed

lemma dispatch_same_but_tasks:
  assumes "co_gateway C = agent_domain_gateway e tr search"
  shows "same_but_tasks d (snd (dispatch C ctx a d))"
  using run_tool_same_but_tasks
  by (simp add: dispatch_def execute_tool_def assms snd_map_prod same_but_tasks_def split: sum.split)

lemma proven_not_database: "x \<in> set proven_no_write_errors \<Longrightarrow> x \<notin> {DatabaseError, ValidationError, ValueError, AgentToolNotAllowedError}"
  by (auto simp: proven_no_write_errors_def)

lemma tool_mutation_result_Inl: "tool_mutation_result op i n m = Inl x \<Longrightarrow> x = ValidationError"
  by (auto simp: tool_mutation_result_def split: if_splits)

lemma run_tool_no_write:
  assumes "run_tool (agent_domain_gateway e tr search) u args d = (Inl x, d')" "x \<in> set proven_no_write_errors"
  shows "d' = d"
proof -
  have x: "x \<notin> {DatabaseError, ValidationError, ValueError, AgentToolNotAllowedError}"
    using assms(2) by (rule proven_not_database)
  show ?thesis
    using assms(1) x
    by (cases args)
       (auto simp: run_tool_def agent_domain_gateway_def list_owned_projects_def Let_def map_prod_def
          domain_batch_create_def domain_delete_task_def map_sum_def
          dest: create_task_no_write create_task_batch_no_write update_owned_task_no_write delete_owned_task_no_write
            tool_mutation_result_Inl
          split: sum.splits prod.splits)
qed

lemma validate_write_tool_result_Inl:
  "validate_write_tool_result name r = Inl x \<Longrightarrow> x \<in> {ValidationError, ValueError, AgentToolNotAllowedError}"
  by (auto simp: validate_write_tool_result_def split: if_splits tool_result.splits)

lemma dispatch_no_write:
  assumes "co_gateway C = agent_domain_gateway e tr search" "dispatch C ctx a d = (Inl x, d')" "x \<in> set proven_no_write_errors"
  shows "d' = d"
proof -
  obtain res where r: "execute_tool (co_rules C) (co_gateway C) (tool_value (action_tool a)) (action_arguments a) ctx d = (res, d')"
    and x: "bind_result res (validate_write_tool_result (tool_value (action_tool a))) = Inl x"
    using assms(2) by (auto simp: dispatch_def map_prod_def split: prod.splits)
  have "res = Inl x"
    using x validate_write_tool_result_Inl proven_not_database [OF assms(3)] by (fastforce simp: bind_result_eq_Inl)
  then show ?thesis
    using r run_tool_no_write [OF _ assms(3)] by (auto simp: execute_tool_def assms(1) split: sum.splits)
qed

lemma domain_dispatch_gateway:
  assumes "co_gateway C = agent_domain_gateway e tr search"
  shows "domain_dispatch (dispatch C ctx a)"
proof
  fix d
  show "agent_tool_executions (snd (dispatch C ctx a d)) = agent_tool_executions d"
    using same_but_tasks_tables [OF dispatch_same_but_tasks [OF assms]] by simp
next
  fix d x
  assume "fst (dispatch C ctx a d) = Inl x" "x \<in> set proven_no_write_errors"
  then show "snd (dispatch C ctx a d) = d"
    using dispatch_no_write [OF assms, of ctx a d x] by (cases "dispatch C ctx a d") simp
qed

interpretation domain: domain_dispatch
  "dispatch \<lparr>co_run_id = run, co_user_id = user, co_rules = P, co_gateway = agent_domain_gateway e tr search\<rparr> ctx a"
  for run user P e tr search ctx a
  by (rule domain_dispatch_gateway) simp

section \<open>Claims\<close>


lemma create_claim_taken:
  assumes "get_owned_action i d = Some r"
  shows "\<exists>x. create_claim e i tool d = Inl x"
proof (cases "create_claim e i tool d")
  case (Inr d')
  let ?n = "new_execution e i tool"
  have r: "r \<in> set (agent_tool_executions d)" "identity_matches i r"
    using find_SomeD [of "identity_matches i" "agent_tool_executions d" r] assms by (auto simp: get_owned_action_def)
  have fresh: "ex_id ?n \<notin> ex_id ` set (agent_tool_executions d)" and "list_all snd (execution_constraints d ?n)"
    using Inr by (auto simp: create_claim_def Let_def result_Inr flush_row_ok)
  then have "list_all (\<lambda>x. ex_id x = ex_id ?n \<or> (ex_run_id x, ex_revision x, ex_fingerprint x, ex_action_key x)
      \<noteq> (ex_run_id ?n, ex_revision ?n, ex_fingerprint ?n, ex_action_key ?n)) (agent_tool_executions d)"
    by (simp add: execution_constraints_def)
  then have "ex_id r = ex_id ?n"
    using r by (auto simp: list_all_iff identity_matches_def new_execution_def)
  then have False using r(1) fresh by (metis image_eqI)
  then show ?thesis ..
qed simp

lemma classify_existing_sealed:
  "ex_status r \<noteq> EXEC_FAILED \<Longrightarrow> classify_existing e r d = Inr (c, d') \<Longrightarrow> d' = d \<and> c \<noteq> EXECUTE"
  by (auto simp: classify_existing_def split: execution_status.splits option.splits prod.splits)

text \<open>A lost race never executes. When a rival commits its claim of the same action between this
  worker's query and its insertion, the unique constraint turns the insertion into a second look, which
  replays a completed action or fails closed; it never executes and never changes the database.\<close>

theorem claim_race_safe:
  assumes "get_owned_action (identity_of C a revision fp) d = None"
    and "get_owned_action (identity_of C a revision fp) (others d) = Some r" "ex_status r \<noteq> EXEC_FAILED"
  shows "\<exists>c. claim C E others a revision fp d = (c, others d) \<and> c \<noteq> Inr EXECUTE"
proof -
  let ?i = "identity_of C a revision fp"
  obtain x where "create_claim (ae_claim E) ?i (tool_value (action_tool a)) (others d) = Inl x"
    using create_claim_taken [OF assms(2)] by blast
  then obtain y where body: "claim_body C (ae_claim E) a revision fp d (others d) = Inl y"
    using assms(1) by (cases "require_persisted_approval C a revision fp d") (auto simp: claim_body_def)
  have t: "transaction (env_commit (ae_claim E)) (claim_body C (ae_claim E) a revision fp d) (open_session (others d)) =
      (Inl y, session_rollback (open_session (others d)))"
    by (rule transaction_Inl_body) (simp add: body)
  show ?thesis
  proof (cases "is_duplicate_claim y")
    case False
    then show ?thesis by (simp add: claim_def t)
  next
    case True
    obtain c s where t2: "transaction (env_commit (ae_retry E)) (retry_body C (ae_retry E) a revision fp)
        (open_session (others d)) = (c, s)" by force
    have second: "d' = others d \<and> c' \<noteq> EXECUTE" if "retry_body C (ae_retry E) a revision fp (others d) = Inr (c', d')" for c' d'
      using that assms(2,3) by (auto simp: retry_body_def dest: classify_existing_sealed split: if_splits)
    have "committed s = others d \<and> c \<noteq> Inr EXECUTE"
      using t2 by (cases rule: transaction_open_cases) (auto dest: second)
    then show ?thesis using True t t2 by (simp add: claim_def)
  qed
qed

text \<open>High-impact tools need a stored approval. Without an approved decision of this run's owner for
  exactly this revision and this fingerprint, an attempt to run a batch creation or a deletion fails
  closed and writes nothing, whatever context and arguments it is called with.\<close>

theorem high_impact_needs_approval:
  assumes "is_high_impact_tool (tool_value (action_tool a))"
    and "\<And>ap. get_owned_approval (co_run_id C) (co_user_id C) (int revision) d = Some ap \<Longrightarrow>
           ap_decision ap \<noteq> APPROVAL_APPROVED \<or> ap_fingerprint ap \<noteq> fp"
  shows "coordinator_execute C E id ctx a revision fp d = (Inl AgentToolReconciliationRequiredError, d)"
proof -
  have "require_persisted_approval C a revision fp d = Inl AgentToolReconciliationRequiredError"
    using assms by (auto simp: require_persisted_approval_def split: option.split)
  then have "transaction (env_commit (ae_claim E)) (claim_body C (ae_claim E) a revision fp d) (open_session d) =
      (Inl AgentToolReconciliationRequiredError, session_rollback (open_session d))"
    by (intro transaction_Inl_body) (simp add: claim_body_def)
  then show ?thesis
    by (simp add: coordinator_execute_def claim_def is_duplicate_claim_def)
qed

section \<open>Replay\<close>

text \<open>Printing a number and reading it back.\<close>

lemma digit_value_char: "k < 10 \<Longrightarrow> digit_value (char_of (48 + k)) = Some k"
  by (auto simp: digit_value_def char_between_def)

lemma digit_not_space: "digit_value c = Some k \<Longrightarrow> \<not> py_space c"
  by (auto simp: digit_value_def char_between_def py_space_def Let_def split: if_splits)

lemma int_digits_snoc:
  "list_all (\<lambda>c. digit_value c \<noteq> None) ds \<Longrightarrow> digit_value x = Some k \<Longrightarrow>
   int_digits acc (ds @ [x]) = map_option (\<lambda>n. 10 * n + k) (int_digits acc ds)"
  by (induction ds arbitrary: acc) (auto split: option.splits)

lemma digits_of_read:
  "list_all (\<lambda>c. digit_value c \<noteq> None) (digits_of n) \<and> int_digits 0 (digits_of n) = Some n \<and> digits_of n \<noteq> []"
proof (induction n rule: digits_of.induct)
  case (1 n)
  show ?case
  proof (cases "n < 10")
    case True
    then show ?thesis by (simp add: digits_of.simps [of n] digit_value_char)
  next
    case False
    then have "list_all (\<lambda>c. digit_value c \<noteq> None) (digits_of (n div 10)) \<and> int_digits 0 (digits_of (n div 10)) = Some (n div 10)"
      using 1 by simp
    then show ?thesis
      using False by (simp add: digits_of.simps [of n] digit_value_char int_digits_snoc)
  qed
qed

lemma py_int_digits_of: "py_int (digits_of n) = Some (int n)"
proof -
  obtain c cs where c: "digits_of n = c # cs" using digits_of_read [of n] by (cases "digits_of n") auto
  then have v: "digit_value c \<noteq> None" "int_digits 0 (c # cs) = Some n"
    using digits_of_read [of n] by auto
  then have "c \<noteq> CHR ''-''" "c \<noteq> CHR ''+''"
    by (auto simp: digit_value_def char_between_def)
  then show ?thesis using v by (simp add: py_int_def py_nat_def c)
qed

lemma split_words_word:
  "list_all (\<lambda>c. \<not> py_space c) v \<Longrightarrow> split_words w (v @ s) = split_words (w @ v) s"
  by (induction v arbitrary: w) auto

lemma py_split_created: "py_split (''Created '' @ digits_of n @ '' tasks'') = [''Created'', digits_of n, ''tasks'']"
proof -
  have d: "list_all (\<lambda>c. \<not> py_space c) (digits_of n)" "digits_of n \<noteq> []"
    using digits_of_read [of n] digit_not_space by (auto simp: list_all_iff)
  have "split_words [] (digits_of n @ '' tasks'') = split_words (digits_of n) '' tasks''"
    using split_words_word [OF d(1), of "[]"] by simp
  then show ?thesis using d(2) by (simp add: py_split_def py_space_def)
qed

text \<open>The results of the two high-impact operations are reconstructed from the stored reference and summary.\<close>

definition replayable :: "string \<Rightarrow> write_tool_result \<Rightarrow> bool" where
  "replayable tool r \<longleftrightarrow>
     (\<forall>C d. load_public_result C tool (result_reference r) (result_summary r) d = Inr r)"

lemma dispatch_replayable:
  assumes "co_gateway C = agent_domain_gateway e tr search" "dispatch C ctx a d = (Inr r, d')"
    and "is_high_impact_tool (tool_value (action_tool a))"
  shows "replayable (tool_value (action_tool a)) r"
proof -
  let ?name = "tool_value (action_tool a)"
  obtain res where x: "execute_tool (co_rules C) (co_gateway C) ?name (action_arguments a) ctx d = (Inr res, d')"
    and v: "validate_write_tool_result ?name res = Inr r"
    using assms(2) by (auto simp: dispatch_def map_prod_def result_Inr split: prod.splits)
  obtain args where args: "validate_tool_arguments (co_rules C) ?name (action_arguments a) ctx = Inr args"
    and run: "run_tool (agent_domain_gateway e tr search) (ctx_user_id ctx) args d = (Inr res, d')"
    using x by (auto simp: execute_tool_def assms(1) split: sum.splits)
  consider (delete) i where "?name = ''delete_task''" "args = Args_delete i"
    | (batch) cs where "?name = ''batch_create_tasks''" "args = Args_batch cs"
    using args assms(3) by (auto simp: is_high_impact_tool_def high_impact_tool_names_def validate_tool_arguments_def
        split: if_splits)
  then show ?thesis
  proof cases
    case delete
    then have "r = Wrote_mutation \<lparr>mut_operation = ''delete_task'', mut_reference_task_id = i, mut_affected_count = 1,
        mut_summary = ''Task deleted''\<rparr>"
      using run v
      by (auto simp: run_tool_def agent_domain_gateway_def domain_delete_task_def map_prod_def tool_mutation_result_def
          validate_write_tool_result_def standard_write_tool_names_def high_impact_tool_names_def
          split: prod.splits sum.splits if_splits)
    then show ?thesis
      by (simp add: replayable_def load_public_result_def delete(1) tool_mutation_result_def high_impact_tool_names_def
          len_between_def)
  next
    case batch
    then obtain i n m where r: "r = Wrote_mutation m" and
      m: "tool_mutation_result ''batch_create_tasks'' i (int n) (''Created '' @ digits_of n @ '' tasks'') = Inr m"
      using run v
      by (auto simp: run_tool_def agent_domain_gateway_def domain_batch_create_def map_prod_def
          validate_write_tool_result_def standard_write_tool_names_def high_impact_tool_names_def
          split: prod.splits sum.splits if_splits)
    then have "mut_summary m = ''Created '' @ digits_of n @ '' tasks''" "mut_reference_task_id m = i"
      by (auto simp: tool_mutation_result_def split: if_splits)
    then show ?thesis
      using m by (simp add: replayable_def r load_public_result_def batch(1) py_split_created [simplified] py_int_digits_of)
  qed
qed

text \<open>What a claim that executes has established.\<close>

definition claimed_row :: "coordinator \<Rightarrow> proposed_action \<Rightarrow> nat \<Rightarrow> string \<Rightarrow> db \<Rightarrow> db \<Rightarrow> bool" where
  "claimed_row C a revision fp d d' \<longleftrightarrow>
     (\<exists>r. get_owned_action (identity_of C a revision fp) d' = Some r \<and> ex_tool_name r = tool_value (action_tool a) \<and>
        ex_status r = EXEC_IN_PROGRESS) \<and> agent_approvals d' = agent_approvals d \<and> wf_executions d'"

lemma save_execution_approvals: "save_execution e r d = Inr d' \<Longrightarrow> agent_approvals d' = agent_approvals d"
  by (auto simp: save_execution_def result_Inr)

lemma classify_existing_claims:
  assumes "classify_existing e r d = Inr (EXECUTE, d')" "get_owned_action (identity_of C a revision fp) d = Some r"
    "wf_executions d" "ex_tool_name r = tool_value (action_tool a)"
  shows "claimed_row C a revision fp d d'"
proof -
  let ?r = "r\<lparr>ex_status := EXEC_IN_PROGRESS, ex_attempt_count := ex_attempt_count r + 1,
     ex_error_code := None, ex_completed_at := None, ex_started_at := env_now e, ex_updated_at := env_now e\<rparr>"
  have s: "save_execution e ?r d = Inr d'"
    using assms(1) by (auto simp: classify_existing_def restart_failed_def result_Inr
        split: execution_status.splits option.splits prod.splits)
  from save_execution_row [OF this assms(2,3)] save_execution_approvals [OF s] show ?thesis
    using assms(4) by (simp add: claimed_row_def identity_matches_def)
qed

lemma create_claim_claims:
  assumes "create_claim e (identity_of C a revision fp) (tool_value (action_tool a)) d = Inr d'"
    "get_owned_action (identity_of C a revision fp) d = None" "wf_executions d"
  shows "claimed_row C a revision fp d d'"
proof -
  let ?n = "new_execution e (identity_of C a revision fp) (tool_value (action_tool a))"
  have "d' = d\<lparr>agent_tool_executions := agent_tool_executions d @ [?n]\<rparr>"
    using assms(1) by (auto simp: create_claim_def Let_def result_Inr)
  moreover have "identity_matches (identity_of C a revision fp) ?n" "ex_tool_name ?n = tool_value (action_tool a)"
    "ex_status ?n = EXEC_IN_PROGRESS"
    by (simp_all add: identity_matches_def new_execution_def)
  ultimately show ?thesis
    using assms(2) create_claim_row(2) [OF assms] by (simp add: claimed_row_def get_owned_action_def row_simps)
qed

lemma claim_body_approved: "claim_body C e a revision fp seen d = Inl x \<Longrightarrow> is_duplicate_claim x \<Longrightarrow>
    require_persisted_approval C a revision fp seen = Inr ()"
  by (auto simp: claim_body_def bind_result_eq_Inl require_persisted_approval_def is_duplicate_claim_def
      split: if_splits option.splits)

lemma claim_Inr_cases:
  assumes "claim C E id a revision fp d = (Inr c, d')"
  obtains (first) "claim_body C (ae_claim E) a revision fp d d = Inr (c, d')"
  | (second) "retry_body C (ae_retry E) a revision fp d = Inr (c, d')" "require_persisted_approval C a revision fp d = Inr ()"
proof -
  obtain c1 s where t: "transaction (env_commit (ae_claim E)) (claim_body C (ae_claim E) a revision fp d) (open_session d) = (c1, s)"
    by force
  show thesis
  proof (cases c1)
    case (Inr x)
    then have "x = c" "d' = committed s" using assms t by (auto simp: claim_def)
    then show thesis using first transaction_success [OF t [unfolded Inr]] by simp
  next
    case (Inl x)
    then have dup: "is_duplicate_claim x" using assms t by (auto simp: claim_def split: if_splits)
    then have "x \<noteq> DatabaseError" by (auto simp: is_duplicate_claim_def)
    then have body: "claim_body C (ae_claim E) a revision fp d d = Inl x" "committed s = d"
      using transaction_error_not_database [OF t [unfolded Inl]] by auto
    then obtain s2 where "transaction (env_commit (ae_retry E)) (retry_body C (ae_retry E) a revision fp) (open_session d) = (Inr c, s2)"
      "d' = committed s2"
      using assms t Inl dup by (auto simp: claim_def map_prod_def split: prod.splits)
    then show thesis
      using second transaction_success claim_body_approved [OF body(1) dup] by fastforce
  qed
qed

lemma claim_execute_row:
  assumes "claim C E id a revision fp d = (Inr EXECUTE, d')" "wf_executions d"
  shows "claimed_row C a revision fp d d' \<and> require_persisted_approval C a revision fp d = Inr ()"
  using assms(1)
proof (cases rule: claim_Inr_cases)
  case first
  then show ?thesis using assms(2) create_claim_claims classify_existing_claims
    by (fastforce simp: claim_body_def result_Inr split: option.splits if_splits)
next
  case second
  then show ?thesis using assms(2) classify_existing_claims
    by (fastforce simp: retry_body_def split: option.splits if_splits)
qed

text \<open>A completed row is replayed.\<close>

definition completed_row :: "coordinator \<Rightarrow> proposed_action \<Rightarrow> nat \<Rightarrow> string \<Rightarrow> uuid \<Rightarrow> string \<Rightarrow> db \<Rightarrow> bool" where
  "completed_row C a revision fp t m d \<longleftrightarrow>
     (\<exists>r. get_owned_action (identity_of C a revision fp) d = Some r \<and> ex_tool_name r = tool_value (action_tool a) \<and>
        ex_status r = EXEC_COMPLETED \<and> ex_result_task_id r = Some t \<and> ex_result_summary r = Some m)"

lemma claim_replays:
  assumes "completed_row C a revision fp t m d" "require_persisted_approval C a revision fp d = Inr ()"
    and "env_commit (ae_claim E) = Commit_ok"
  shows "claim C E id a revision fp d = (Inr (REPLAY (tool_value (action_tool a)) t m), d)"
proof -
  have "claim_body C (ae_claim E) a revision fp d d = Inr (REPLAY (tool_value (action_tool a)) t m, d)"
    using assms(1,2) by (auto simp: claim_body_def completed_row_def classify_existing_def)
  then have "transaction Commit_ok (claim_body C (ae_claim E) a revision fp d) (open_session d) =
      (Inr (REPLAY (tool_value (action_tool a)) t m), open_session d)"
    by (subst transaction_ok [where d = d]) (simp_all add: open_session_def)
  then show ?thesis using assms(3) by (simp add: claim_def)
qed

lemma record_completion_stores:
  assumes "record_completion e (identity_of C a revision fp) res d = (Inr (), d')" "claimed_row C a revision fp d0 d"
  shows "completed_row C a revision fp (result_reference res) (result_summary res) d' \<and> agent_approvals d' = agent_approvals d"
proof -
  let ?i = "identity_of C a revision fp"
  obtain r where r: "get_owned_action ?i d = Some r" "ex_tool_name r = tool_value (action_tool a)"
    "ex_status r = EXEC_IN_PROGRESS" and wf: "wf_executions d"
    using assms(2) by (auto simp: claimed_row_def)
  obtain s where "transaction (env_commit e) (\<lambda>x.
       case get_owned_action ?i x of
         None \<Rightarrow> Inl AgentToolReconciliationRequiredError
       | Some r \<Rightarrow>
           if ex_status r \<noteq> EXEC_IN_PROGRESS then Inl AgentToolReconciliationRequiredError
           else bind_result (complete_execution e r (result_reference res) (result_summary res) x) (\<lambda>x'. Inr ((), x')))
       (open_session d) = (Inr (), s)" and d': "d' = committed s"
    using assms(1) by (auto simp: record_completion_def map_prod_def split: prod.splits)
  from transaction_success [OF this(1)]
  have sv: "save_execution e (r\<lparr>ex_status := EXEC_COMPLETED, ex_result_task_id := Some (result_reference res),
      ex_result_summary := Some (result_summary res), ex_completed_at := Some (env_now e), ex_updated_at := env_now e\<rparr>) d = Inr d'"
    using r by (auto simp: complete_execution_def result_Inr d')
  from save_execution_row [OF sv r(1) wf] save_execution_approvals [OF sv] show ?thesis
    using r by (simp add: completed_row_def identity_matches_def)
qed

lemma require_persisted_approval_cong:
  "agent_approvals d' = agent_approvals d \<Longrightarrow>
   require_persisted_approval C a revision fp d' = require_persisted_approval C a revision fp d"
  by (simp add: require_persisted_approval_def get_owned_approval_def)

lemma claimed_row_cong:
  "claimed_row C a revision fp d d' \<Longrightarrow> same_but_tasks d' d'' \<Longrightarrow> claimed_row C a revision fp d d''"
  using same_but_tasks_tables [of d' d''] by (simp add: claimed_row_def get_owned_action_def wf_executions_def)

lemma classify_existing_replay:
  "classify_existing e r d = Inr (REPLAY tool t m, d') \<Longrightarrow>
   d' = d \<and> ex_status r = EXEC_COMPLETED \<and> ex_result_task_id r = Some t \<and> ex_result_summary r = Some m \<and> tool = ex_tool_name r"
  by (auto simp: classify_existing_def result_Inr split: execution_status.splits option.splits)

lemma claim_replay_row:
  assumes "claim C E id a revision fp d = (Inr (REPLAY tool t m), d')"
  shows "d' = d \<and> tool = tool_value (action_tool a) \<and> completed_row C a revision fp t m d \<and>
    require_persisted_approval C a revision fp d = Inr ()"
  using assms
proof (cases rule: claim_Inr_cases)
  case first
  then show ?thesis
    by (auto simp: claim_body_def result_Inr completed_row_def dest!: classify_existing_replay split: option.splits if_splits)
next
  case second
  then show ?thesis
    by (auto simp: retry_body_def completed_row_def dest!: classify_existing_replay split: option.splits if_splits)
qed

lemma coordinator_completes:
  assumes "claim C E id a revision fp d = (Inr EXECUTE, d0)" "wf_executions d"
    and "co_gateway C = agent_domain_gateway e tr search"
    and "dispatch C ctx a d0 = (res, d2)" "record_outcome C E (identity_of C a revision fp) res d2 = (Inr r, d1)"
  shows "res = Inr r \<and> completed_row C a revision fp (result_reference r) (result_summary r) d1 \<and>
    require_persisted_approval C a revision fp d1 = Inr ()"
proof -
  have c: "claimed_row C a revision fp d d0" "require_persisted_approval C a revision fp d = Inr ()"
    using claim_execute_row [OF assms(1,2)] by auto
  have "same_but_tasks d0 d2"
    using dispatch_same_but_tasks [OF assms(3), of d0 ctx a] assms(4) by simp
  then have c2: "claimed_row C a revision fp d d2" using claimed_row_cong [OF c(1)] by blast
  have res: "res = Inr r" and "record_completion (ae_complete E) (identity_of C a revision fp) r d2 = (Inr (), d1)"
    using assms(5) by (auto simp: record_outcome_def split: sum.splits prod.splits if_splits)
  from record_completion_stores [OF this(2) c2] show ?thesis
    using res c(2) c2 require_persisted_approval_cong [of d1 d] by (simp add: claimed_row_def)
qed

text \<open>A completed high-impact action is replayed, not repeated. When an attempt to run a batch
  creation or a deletion has answered with a result, any later attempt answers with the same result and
  leaves the database alone; the number of created Tasks is read back from the stored summary text.\<close>

theorem high_impact_replay:
  assumes "co_gateway C = agent_domain_gateway e tr search" "wf_executions d"
    and "is_high_impact_tool (tool_value (action_tool a))"
    and "coordinator_execute C E id ctx a revision fp d = (Inr r, d1)" "env_commit (ae_claim E') = Commit_ok"
  shows "coordinator_execute C E' id ctx a revision fp d1 = (Inr r, d1)"
proof -
  have ctx: "ctx_user_id ctx = co_user_id C" "write_tools_enabled ctx"
    using assms(4) by (auto simp: coordinator_execute_def split: if_splits)
  obtain c d0 where c: "claim C E id a revision fp d = (c, d0)" by force
  show ?thesis
  proof (cases "\<exists>tool t m. c = Inr (REPLAY tool t m)")
    case True
    then obtain tool t m where rp: "c = Inr (REPLAY tool t m)" by blast
    then show ?thesis
      using claim_replay_row [OF c [unfolded rp]] claim_replays [OF _ _ assms(5)] assms(4) ctx c
      by (auto simp: coordinator_execute_def)
  next
    case False
    then have ex: "c = Inr EXECUTE" using assms(4) c ctx
      by (cases c) (auto simp: coordinator_execute_def split: claim_disposition.splits)
    obtain res d2 where d2: "dispatch C ctx a d0 = (res, d2)" by force
    have rec: "record_outcome C E (identity_of C a revision fp) res d2 = (Inr r, d1)"
      using assms(4) c ctx ex d2 by (simp add: coordinator_execute_def)
    from coordinator_completes [OF c [unfolded ex] assms(2,1) d2 rec]
    have stored: "completed_row C a revision fp (result_reference r) (result_summary r) d1"
      "require_persisted_approval C a revision fp d1 = Inr ()" and "res = Inr r" by auto
    then have "replayable (tool_value (action_tool a)) r"
      using dispatch_replayable [OF assms(1)] d2 assms(3) by simp
    then show ?thesis
      using claim_replays [OF stored assms(5)] ctx by (simp add: coordinator_execute_def replayable_def)
  qed
qed

section \<open>A concrete action\<close>

definition demo_coordinator :: coordinator where
  "demo_coordinator = \<lparr>co_run_id = 70, co_user_id = 1, co_rules = demo_rules_json,
     co_gateway = agent_domain_gateway demo_env demo_rules (\<lambda>u q d. Inr [])\<rparr>"

definition demo_run :: agent_run where
  "demo_run = \<lparr>run_id = 70, run_thread_id = 60, run_user_id = 1, run_status_col = RUN_RUNNING, run_current_node = None,
     run_summary = None, run_error_code = None, run_prompt_version = ''study-plan.v2'', run_model_round_count = 1,
     run_provider_attempt_count = 1, run_tool_call_count = 0, run_input_tokens = 0, run_output_tokens = 0,
     run_total_tokens = 0, run_latency_ms = 0, run_created_at = 0, run_updated_at = 0\<rparr>"

definition demo_approval :: agent_approval where
  "demo_approval = \<lparr>ap_id = 80, ap_run_id = 70, ap_user_id = 1, ap_revision = 0, ap_fingerprint = replicate 64 CHR ''1'',
     ap_decision = APPROVAL_APPROVED, ap_feedback = None, ap_decided_at = Some 5, ap_created_at = 1, ap_updated_at = 5\<rparr>"

definition demo_exec_db :: db where
  "demo_exec_db = demo_tasks_db\<lparr>agent_runs := [demo_run], agent_approvals := [demo_approval]\<rparr>"

definition demo_delete :: proposed_action where
  "demo_delete = \<lparr>action_key = ''delete'', action_tool = DELETE_TASK, action_arguments = [(''task_id'', J_int 20)]\<rparr>"

definition demo_attempt :: attempt_env where
  "demo_attempt = \<lparr>ae_claim = demo_env, ae_retry = demo_env, ae_complete = demo_env, ae_fail = demo_env\<rparr>"

definition demo_world :: world where
  "demo_world = \<lparr>w_db = demo_exec_db, w_phase = (\<lambda>_. Idle), w_writes = 0\<rparr>"

lemma demo_claim:
  "fst (claim demo_coordinator demo_attempt id demo_delete 0 (replicate 64 CHR ''1'') demo_exec_db) = Inr EXECUTE"
  by code_simp

lemma demo_dispatch:
  "length (tasks (snd (dispatch demo_coordinator demo_ctx demo_delete
     (snd (claim demo_coordinator demo_attempt id demo_delete 0 (replicate 64 CHR ''1'') demo_exec_db))))) + 1 =
   length (tasks (snd (claim demo_coordinator demo_attempt id demo_delete 0 (replicate 64 CHR ''1'') demo_exec_db)))"
  by code_simp

lemma demo_gateway_eq: "co_gateway demo_coordinator = agent_domain_gateway demo_env demo_rules (\<lambda>u q d. Inr [])"
  by (simp add: demo_coordinator_def)

lemma demo_exec_db_wf: "wf_executions demo_exec_db"
  by (simp add: wf_executions_def demo_exec_db_def demo_tasks_db_def demo_projects_db_def empty_db_def)


theorem claim_race_safe_witness:
  "\<exists>c. claim demo_coordinator demo_attempt
       (\<lambda>d. d\<lparr>agent_tool_executions := [new_execution demo_env (identity_of demo_coordinator demo_delete 0 ''f'') ''delete_task'']\<rparr>)
       demo_delete 0 ''f'' demo_exec_db =
     (c, demo_exec_db\<lparr>agent_tool_executions := [new_execution demo_env (identity_of demo_coordinator demo_delete 0 ''f'') ''delete_task'']\<rparr>)
     \<and> c \<noteq> Inr EXECUTE"
  by (rule claim_race_safe [where r = "new_execution demo_env (identity_of demo_coordinator demo_delete 0 ''f'') ''delete_task''"])
     (simp_all add: get_owned_action_def identity_matches_def new_execution_def demo_exec_db_def demo_tasks_db_def
        demo_projects_db_def empty_db_def)

theorem high_impact_needs_approval_witness:
  "coordinator_execute demo_coordinator demo_attempt id demo_ctx demo_delete 1 ''f'' demo_exec_db =
     (Inl AgentToolReconciliationRequiredError, demo_exec_db)"
  by (rule high_impact_needs_approval)
     (simp_all add: demo_delete_def is_high_impact_tool_def high_impact_tool_names_def get_owned_approval_def demo_exec_db_def
        demo_approval_def)

lemma demo_execute:
  "\<exists>r d1. coordinator_execute demo_coordinator demo_attempt id demo_ctx demo_delete 0 (replicate 64 CHR ''1'') demo_exec_db = (Inr r, d1)"
proof -
  have "(case fst (coordinator_execute demo_coordinator demo_attempt id demo_ctx demo_delete 0 (replicate 64 CHR ''1'') demo_exec_db) of
     Inl _ \<Rightarrow> False | Inr _ \<Rightarrow> True)"
    by code_simp
  then show ?thesis by (metis (no_types, lifting) prod.collapse sum.case_eq_if sum.collapse(2))
qed

theorem high_impact_replay_witness:
  "\<exists>r d1. coordinator_execute demo_coordinator demo_attempt id demo_ctx demo_delete 0 (replicate 64 CHR ''1'') d1 = (Inr r, d1)"
proof -
  obtain r d1 where x: "coordinator_execute demo_coordinator demo_attempt id demo_ctx demo_delete 0 (replicate 64 CHR ''1'') demo_exec_db
      = (Inr r, d1)"
    using demo_execute by blast
  have "is_high_impact_tool (tool_value (action_tool demo_delete))" "env_commit (ae_claim demo_attempt) = Commit_ok"
    by (simp_all add: demo_delete_def is_high_impact_tool_def high_impact_tool_names_def demo_attempt_def demo_env_def)
  from high_impact_replay [OF demo_gateway_eq demo_exec_db_wf this(1) x this(2)] show ?thesis by blast
qed

end
