(* ===== verification/Agent_Runs.thy ===== *)
theory Agent_Runs
  imports Agent_Graph Tool_Executions
begin

text \<open>
  Durable agent runs: the repository \<open>app/repositories/agent_runs.py\<close>, the contracts of
  \<open>app/schemas/agent_run.py\<close>, the thread and run use cases of \<open>app/services/agent_runs.py\<close> and the
  orchestration across product records and checkpoints of \<open>app/services/agent_workflow.py\<close>. The
  checkpoints live in a store of their own, next to the product database; a workflow opens its own
  sessions, so it sees and changes the committed database only.
\<close>

section \<open>Repository\<close>

definition thread_lengths :: "agent_thread \<Rightarrow> bool" where
  "thread_lengths t \<longleftrightarrow> length (th_goal_summary t) \<le> 2000"

definition run_lengths :: "agent_run \<Rightarrow> bool" where
  "run_lengths r \<longleftrightarrow> opt_all (\<lambda>s. length s \<le> 2000) (run_summary r) \<and> opt_all (\<lambda>s. length s \<le> 64) (run_error_code r) \<and>
     length (run_prompt_version r) \<le> 64"

definition approval_lengths :: "agent_approval \<Rightarrow> bool" where
  "approval_lengths a \<longleftrightarrow> length (ap_fingerprint a) \<le> 64 \<and> opt_all (\<lambda>s. length s \<le> 1000) (ap_feedback a)"

definition new_thread :: "env \<Rightarrow> uuid \<Rightarrow> uuid \<Rightarrow> string \<Rightarrow> agent_thread" where
  "new_thread e thread_id user_id goal = \<lparr>th_id = thread_id, th_user_id = user_id, th_goal_summary = goal,
     th_status = THREAD_ACTIVE, th_created_at = env_now e, th_updated_at = env_now e\<rparr>"

definition create_thread :: "env \<Rightarrow> nat \<Rightarrow> uuid \<Rightarrow> uuid \<Rightarrow> string \<Rightarrow> db \<Rightarrow> db result" where
  "create_thread e n thread_id user_id goal d =
     (let t = new_thread e thread_id user_id goal in
      bind_result (flush_row e n (thread_lengths t)
          ((''pk_agent_threads'', thread_id \<notin> th_id ` set (agent_threads d)) # thread_constraints d t))
        (\<lambda>_. Inr (d\<lparr>agent_threads := agent_threads d @ [t]\<rparr>)))"

definition new_run :: "env \<Rightarrow> uuid \<Rightarrow> uuid \<Rightarrow> uuid \<Rightarrow> string \<Rightarrow> agent_run" where
  "new_run e rid thread_id user_id version = \<lparr>run_id = rid, run_thread_id = thread_id, run_user_id = user_id,
     run_status_col = RUN_PENDING, run_current_node = None, run_summary = None, run_error_code = None,
     run_prompt_version = version, run_model_round_count = 0, run_provider_attempt_count = 0, run_tool_call_count = 0,
     run_input_tokens = 0, run_output_tokens = 0, run_total_tokens = 0, run_latency_ms = 0,
     run_created_at = env_now e, run_updated_at = env_now e\<rparr>"

definition create_run :: "env \<Rightarrow> nat \<Rightarrow> uuid \<Rightarrow> uuid \<Rightarrow> uuid \<Rightarrow> string \<Rightarrow> db \<Rightarrow> db result" where
  "create_run e n rid thread_id user_id version d =
     (let r = new_run e rid thread_id user_id version in
      bind_result (flush_row e n (run_lengths r)
          ((''pk_agent_runs'', rid \<notin> run_id ` set (agent_runs d)) # run_constraints d r))
        (\<lambda>_. Inr (d\<lparr>agent_runs := agent_runs d @ [r]\<rparr>)))"

definition get_owned_thread :: "uuid \<Rightarrow> uuid \<Rightarrow> db \<Rightarrow> agent_thread option" where
  "get_owned_thread thread_id user_id d =
     List.find (\<lambda>t. th_id t = thread_id \<and> th_user_id t = user_id) (agent_threads d)"

definition get_owned_run :: "uuid \<Rightarrow> uuid \<Rightarrow> db \<Rightarrow> agent_run option" where
  "get_owned_run rid user_id d = List.find (\<lambda>r. run_id r = rid \<and> run_user_id r = user_id) (agent_runs d)"

definition new_approval :: "env \<Rightarrow> uuid \<Rightarrow> uuid \<Rightarrow> uuid \<Rightarrow> int \<Rightarrow> string \<Rightarrow> agent_approval" where
  "new_approval e aid rid user_id revision fp = \<lparr>ap_id = aid, ap_run_id = rid, ap_user_id = user_id,
     ap_revision = revision, ap_fingerprint = fp, ap_decision = APPROVAL_PENDING, ap_feedback = None,
     ap_decided_at = None, ap_created_at = env_now e, ap_updated_at = env_now e\<rparr>"

definition create_approval :: "env \<Rightarrow> nat \<Rightarrow> uuid \<Rightarrow> uuid \<Rightarrow> uuid \<Rightarrow> int \<Rightarrow> string \<Rightarrow> db \<Rightarrow> db result" where
  "create_approval e n aid rid user_id revision fp d =
     (let a = new_approval e aid rid user_id revision fp in
      bind_result (flush_row e n (approval_lengths a)
          ((''pk_agent_approvals'', aid \<notin> ap_id ` set (agent_approvals d)) # approval_constraints d a))
        (\<lambda>_. Inr (d\<lparr>agent_approvals := agent_approvals d @ [a]\<rparr>)))"

definition owned_approvals :: "uuid \<Rightarrow> uuid \<Rightarrow> db \<Rightarrow> agent_approval list" where
  "owned_approvals rid user_id d = filter (\<lambda>a. ap_run_id a = rid \<and> ap_user_id a = user_id) (agent_approvals d)"

definition get_latest_owned_approval :: "uuid \<Rightarrow> uuid \<Rightarrow> db \<Rightarrow> agent_approval option" where
  "get_latest_owned_approval rid user_id d =
     (case sort_key (\<lambda>a. - ap_revision a) (owned_approvals rid user_id d) of [] \<Rightarrow> None | a # _ \<Rightarrow> Some a)"

definition list_owned_approvals :: "uuid \<Rightarrow> uuid \<Rightarrow> db \<Rightarrow> agent_approval list" where
  "list_owned_approvals rid user_id d =
     take 3 (sort_key (\<lambda>a. (ap_revision a, ap_id a)) (owned_approvals rid user_id d))"

text \<open>The dictionary of columns that \<open>update_run\<close> writes.\<close>

datatype run_change =
    R_status run_status | R_node run_node | R_summary string
  | R_model_rounds int | R_provider_attempts int | R_tool_calls int
  | R_input_tokens int | R_output_tokens int | R_total_tokens int | R_latency_ms rat

fun set_run_attr :: "agent_run \<Rightarrow> run_change \<Rightarrow> agent_run" where
  "set_run_attr r (R_status v) = r\<lparr>run_status_col := v\<rparr>"
| "set_run_attr r (R_node v) = r\<lparr>run_current_node := Some v\<rparr>"
| "set_run_attr r (R_summary v) = r\<lparr>run_summary := Some v\<rparr>"
| "set_run_attr r (R_model_rounds v) = r\<lparr>run_model_round_count := v\<rparr>"
| "set_run_attr r (R_provider_attempts v) = r\<lparr>run_provider_attempt_count := v\<rparr>"
| "set_run_attr r (R_tool_calls v) = r\<lparr>run_tool_call_count := v\<rparr>"
| "set_run_attr r (R_input_tokens v) = r\<lparr>run_input_tokens := v\<rparr>"
| "set_run_attr r (R_output_tokens v) = r\<lparr>run_output_tokens := v\<rparr>"
| "set_run_attr r (R_total_tokens v) = r\<lparr>run_total_tokens := v\<rparr>"
| "set_run_attr r (R_latency_ms v) = r\<lparr>run_latency_ms := v\<rparr>"

fun run_has :: "agent_run \<Rightarrow> run_change \<Rightarrow> bool" where
  "run_has r (R_status v) \<longleftrightarrow> run_status_col r = v"
| "run_has r (R_node v) \<longleftrightarrow> run_current_node r = Some v"
| "run_has r (R_summary v) \<longleftrightarrow> run_summary r = Some v"
| "run_has r (R_model_rounds v) \<longleftrightarrow> run_model_round_count r = v"
| "run_has r (R_provider_attempts v) \<longleftrightarrow> run_provider_attempt_count r = v"
| "run_has r (R_tool_calls v) \<longleftrightarrow> run_tool_call_count r = v"
| "run_has r (R_input_tokens v) \<longleftrightarrow> run_input_tokens r = v"
| "run_has r (R_output_tokens v) \<longleftrightarrow> run_output_tokens r = v"
| "run_has r (R_total_tokens v) \<longleftrightarrow> run_total_tokens r = v"
| "run_has r (R_latency_ms v) \<longleftrightarrow> run_latency_ms r = v"

definition updated_run :: "env \<Rightarrow> agent_run \<Rightarrow> run_change list \<Rightarrow> agent_run" where
  "updated_run e r values = (foldl set_run_attr r values)\<lparr>run_updated_at := env_now e\<rparr>"

definition update_run :: "env \<Rightarrow> nat \<Rightarrow> agent_run \<Rightarrow> run_change list \<Rightarrow> db \<Rightarrow> db result" where
  "update_run e n r values d =
     (let r' = updated_run e r values in
      bind_result (flush_row e n (run_lengths r') (run_constraints d r'))
        (\<lambda>_. Inr (d\<lparr>agent_runs := replace_row run_id r' (agent_runs d)\<rparr>)))"

definition update_approval ::
  "env \<Rightarrow> nat \<Rightarrow> agent_approval \<Rightarrow> approval_status \<Rightarrow> string option \<Rightarrow> db \<Rightarrow> db result" where
  "update_approval e n a decision feedback d =
     (let a' = a\<lparr>ap_decision := decision, ap_feedback := feedback, ap_decided_at := Some (env_now e),
                 ap_updated_at := env_now e\<rparr> in
      bind_result (flush_row e n (approval_lengths a') (approval_constraints d a'))
        (\<lambda>_. Inr (d\<lparr>agent_approvals := replace_row ap_id a' (agent_approvals d)\<rparr>)))"

section \<open>Contracts\<close>

record public_agent_thread =
  pth_id :: uuid
  pth_goal_summary :: string
  pth_status :: thread_status
  pth_created_at :: instant
  pth_updated_at :: instant

definition validate_public_thread :: "agent_thread \<Rightarrow> public_agent_thread result" where
  "validate_public_thread t =
     (if len_between 1 2000 (th_goal_summary t)
      then Inr \<lparr>pth_id = th_id t, pth_goal_summary = th_goal_summary t, pth_status = th_status t,
                pth_created_at = th_created_at t, pth_updated_at = th_updated_at t\<rparr>
      else Inl ValidationError)"

record run_metrics_snapshot =
  rms_model_round_count :: int
  rms_provider_attempt_count :: int
  rms_tool_call_count :: int
  rms_input_tokens :: int
  rms_output_tokens :: int
  rms_total_tokens :: int
  rms_latency_ms :: rat

definition validate_run_metrics :: "agent_run \<Rightarrow> run_metrics_snapshot result" where
  "validate_run_metrics r =
     (if 0 \<le> run_model_round_count r \<and> 0 \<le> run_provider_attempt_count r \<and> 0 \<le> run_tool_call_count r \<and>
         0 \<le> run_input_tokens r \<and> 0 \<le> run_output_tokens r \<and> 0 \<le> run_total_tokens r \<and> 0 \<le> run_latency_ms r \<and>
         run_total_tokens r = run_input_tokens r + run_output_tokens r
      then Inr \<lparr>rms_model_round_count = run_model_round_count r,
                rms_provider_attempt_count = run_provider_attempt_count r,
                rms_tool_call_count = run_tool_call_count r, rms_input_tokens = run_input_tokens r,
                rms_output_tokens = run_output_tokens r, rms_total_tokens = run_total_tokens r,
                rms_latency_ms = run_latency_ms r\<rparr>
      else Inl ValidationError)"

record public_agent_run =
  pr_id :: uuid
  pr_thread_id :: uuid
  pr_status :: run_status
  pr_current_node :: "run_node option"
  pr_summary :: "string option"
  pr_error_code :: "string option"
  pr_prompt_version :: string
  pr_metrics :: run_metrics_snapshot
  pr_created_at :: instant
  pr_updated_at :: instant

definition validate_public_run :: "agent_run \<Rightarrow> public_agent_run result" where
  "validate_public_run r =
     (if opt_all (\<lambda>s. length s \<le> 2000) (run_summary r) \<and> opt_all error_code_format (run_error_code r) \<and>
         len_between 1 64 (strip (run_prompt_version r))
      then bind_result (validate_run_metrics r) (\<lambda>m.
        Inr \<lparr>pr_id = run_id r, pr_thread_id = run_thread_id r, pr_status = run_status_col r,
             pr_current_node = run_current_node r, pr_summary = run_summary r, pr_error_code = run_error_code r,
             pr_prompt_version = strip (run_prompt_version r), pr_metrics = m,
             pr_created_at = run_created_at r, pr_updated_at = run_updated_at r\<rparr>)
      else Inl ValidationError)"

record public_agent_approval =
  pa_id :: uuid
  pa_run_id :: uuid
  pa_revision :: int
  pa_fingerprint :: string
  pa_decision :: approval_status
  pa_feedback :: "string option"
  pa_decided_at :: "instant option"
  pa_created_at :: instant
  pa_updated_at :: instant

definition validate_public_approval :: "agent_approval \<Rightarrow> public_agent_approval result" where
  "validate_public_approval a =
     (let feedback = (case ap_feedback a of None \<Rightarrow> None | Some f \<Rightarrow> if strip f = [] then None else Some (strip f)) in
      if 0 \<le> ap_revision a \<and> ap_revision a \<le> 2 \<and> digest_format (ap_fingerprint a) \<and>
         opt_all (\<lambda>s. length s \<le> 1000) feedback \<and>
         (case ap_decision a of
            APPROVAL_PENDING \<Rightarrow> ap_decided_at a = None \<and> feedback = None
          | APPROVAL_REQUEST_CHANGES \<Rightarrow> ap_decided_at a \<noteq> None \<and> feedback \<noteq> None
          | _ \<Rightarrow> ap_decided_at a \<noteq> None \<and> feedback = None)
      then Inr \<lparr>pa_id = ap_id a, pa_run_id = ap_run_id a, pa_revision = ap_revision a,
                pa_fingerprint = ap_fingerprint a, pa_decision = ap_decision a, pa_feedback = feedback,
                pa_decided_at = ap_decided_at a, pa_created_at = ap_created_at a, pa_updated_at = ap_updated_at a\<rparr>
      else Inl ValidationError)"

record agent_run_snapshot =
  snap_thread :: public_agent_thread
  snap_run :: public_agent_run
  snap_approval :: "public_agent_approval option"

record submission =
  sub_revision :: nat
  sub_fingerprint :: string
  sub_decision :: approval_decision
  sub_feedback :: "string option"

definition validate_submission ::
  "nat \<Rightarrow> string \<Rightarrow> approval_decision \<Rightarrow> string option \<Rightarrow> submission result" where
  "validate_submission revision fp decision feedback =
     (if revision \<le> 2 \<and> digest_format fp
      then (case feedback of
              None \<Rightarrow> if decision = REQUEST_CHANGES then Inl ValidationError
                      else Inr \<lparr>sub_revision = revision, sub_fingerprint = fp, sub_decision = decision, sub_feedback = None\<rparr>
            | Some f \<Rightarrow>
                if strip f = [] \<or> 1000 < length (strip f) \<or> decision \<noteq> REQUEST_CHANGES then Inl ValidationError
                else Inr \<lparr>sub_revision = revision, sub_fingerprint = fp, sub_decision = decision,
                          sub_feedback = Some (strip f)\<rparr>)
      else Inl ValidationError)"

section \<open>Threads and runs\<close>

definition thread_create_summary :: "string \<Rightarrow> string result" where
  "thread_create_summary s = (if len_between 1 2000 (strip s) then Inr (strip s) else Inl ValidationError)"

definition require_owned_thread :: "agent_thread option \<Rightarrow> agent_thread result" where
  "require_owned_thread t = (case t of None \<Rightarrow> Inl AgentThreadNotFoundError | Some x \<Rightarrow> Inr x)"

definition require_owned_run :: "agent_run option \<Rightarrow> agent_run result" where
  "require_owned_run r = (case r of None \<Rightarrow> Inl AgentRunNotFoundError | Some x \<Rightarrow> Inr x)"

definition create_agent_thread_with_initial_run ::
  "env \<Rightarrow> string \<Rightarrow> uuid \<Rightarrow> session \<Rightarrow> (public_agent_thread \<times> public_agent_run) result \<times> session" where
  "create_agent_thread_with_initial_run e goal user_id s =
     transaction (env_commit e) (\<lambda>d.
       bind_result (create_thread e 0 (env_ids e 0) user_id goal d) (\<lambda>d1.
       bind_result (create_run e 1 (env_ids e 1) (env_ids e 0) user_id study_plan_prompt_version d1) (\<lambda>d2.
       bind_result (validate_public_thread (new_thread e (env_ids e 0) user_id goal)) (\<lambda>t.
       bind_result (validate_public_run (new_run e (env_ids e 1) (env_ids e 0) user_id study_plan_prompt_version)) (\<lambda>r.
         Inr ((t, r), d2)))))) s"

definition create_agent_run :: "env \<Rightarrow> uuid \<Rightarrow> uuid \<Rightarrow> session \<Rightarrow> public_agent_run result \<times> session" where
  "create_agent_run e thread_id user_id s =
     (case require_owned_thread (get_owned_thread thread_id user_id (working s)) of
        Inl x \<Rightarrow> (Inl x, s)
      | Inr t \<Rightarrow> transaction (env_commit e) (\<lambda>d.
          bind_result (create_run e 0 (env_ids e 0) (th_id t) user_id study_plan_prompt_version d) (\<lambda>d1.
          bind_result (validate_public_run (new_run e (env_ids e 0) (th_id t) user_id study_plan_prompt_version)) (\<lambda>r.
            Inr (r, d1)))) s)"

definition get_owned_agent_thread :: "uuid \<Rightarrow> uuid \<Rightarrow> db \<Rightarrow> public_agent_thread result" where
  "get_owned_agent_thread thread_id user_id d =
     bind_result (require_owned_thread (get_owned_thread thread_id user_id d)) validate_public_thread"

definition get_owned_agent_run :: "uuid \<Rightarrow> uuid \<Rightarrow> db \<Rightarrow> public_agent_run result" where
  "get_owned_agent_run rid user_id d = bind_result (require_owned_run (get_owned_run rid user_id d)) validate_public_run"

definition run_snapshot :: "uuid \<Rightarrow> uuid \<Rightarrow> db \<Rightarrow> agent_run_snapshot result" where
  "run_snapshot rid user_id d =
     (case get_owned_run rid user_id d of
        None \<Rightarrow> Inl AgentRunNotFoundError
      | Some r \<Rightarrow>
          (case get_owned_thread (run_thread_id r) user_id d of
             None \<Rightarrow> Inl AgentRunNotFoundError
           | Some t \<Rightarrow>
               bind_result (validate_public_thread t) (\<lambda>pt.
               bind_result (validate_public_run r) (\<lambda>pr.
               bind_result (case get_latest_owned_approval (run_id r) user_id d of
                              None \<Rightarrow> Inr None
                            | Some a \<Rightarrow> bind_result (validate_public_approval a) (\<lambda>x. Inr (Some x))) (\<lambda>pa.
                 Inr \<lparr>snap_thread = pt, snap_run = pr, snap_approval = pa\<rparr>)))))"

section \<open>The runtime workflow\<close>

text \<open>
  What \<open>open_runtime_workflow\<close> puts together: the domain gateway and provider, write capability for
  the run's owner, and the coordinator as executor. \<open>rt_available\<close> says whether the settings name a
  provider and the checkpointer can be opened; \<open>rt_attempts\<close> are the transactions of the coordinator.
\<close>

record runtime =
  rt_rules :: pydantic_rules
  rt_digest :: digest_rules
  rt_dump :: dump_rules
  rt_uuid_text :: "uuid \<Rightarrow> string"
  rt_planner :: "nat \<Rightarrow> planner"
  rt_gateway :: gateway
  rt_attempts :: "proposed_action \<Rightarrow> attempt_env"
  rt_available :: bool

definition runtime_graph :: "runtime \<Rightarrow> uuid \<Rightarrow> uuid \<Rightarrow> graph_deps" where
  "runtime_graph R rid user_id =
     (let ctx = \<lparr>ctx_user_id = user_id, write_tools_enabled = True\<rparr>;
          C = \<lparr>co_run_id = rid, co_user_id = user_id, co_rules = rt_rules R, co_gateway = rt_gateway R\<rparr>
      in \<lparr>gd_rules = rt_rules R, gd_digest = rt_digest R, gd_dump = rt_dump R, gd_uuid_text = rt_uuid_text R,
          gd_gateway = rt_gateway R, gd_context = ctx, gd_planner = rt_planner R,
          gd_runner = Some (\<lambda>a revision fp. coordinator_execute C (rt_attempts R a) id ctx a revision fp)\<rparr>)"

record agent_world =
  aw_db :: db
  aw_checkpoints :: "uuid \<Rightarrow> checkpoint option"

text \<open>Inside of the workflow's context manager every exception becomes one.\<close>

definition workflow_call ::
  "uuid \<Rightarrow> agent_world \<Rightarrow> workflow_progress result \<times> checkpoint \<times> db \<Rightarrow> workflow_progress result \<times> agent_world" where
  "workflow_call thread_id w r =
     (case r of (p, cp, d) \<Rightarrow>
        (case p of Inl _ \<Rightarrow> Inl AgentWorkflowUnavailableError | Inr x \<Rightarrow> Inr x,
         w\<lparr>aw_db := d, aw_checkpoints := (aw_checkpoints w)(thread_id := Some cp)\<rparr>))"

text \<open>The snapshot of a thread that was never saved has no values and is refused.\<close>

definition inspect_durable :: "digest_rules \<Rightarrow> checkpoint option \<Rightarrow> inspection" where
  "inspect_durable D cp = (case cp of None \<Rightarrow> INCONSISTENT | Some c \<Rightarrow> inspect_snapshot D c)"

fun terminal_run_status :: "terminal_status \<Rightarrow> run_status" where
  "terminal_run_status TERMINAL_SUCCEEDED = RUN_SUCCEEDED"
| "terminal_run_status TERMINAL_REJECTED = RUN_REJECTED"
| "terminal_run_status TERMINAL_PARTIAL_FAILURE = RUN_PARTIAL_FAILURE"
| "terminal_run_status TERMINAL_FAILED = RUN_FAILED"

definition or_zero :: "int option \<Rightarrow> int" where
  "or_zero v = (case v of None \<Rightarrow> 0 | Some x \<Rightarrow> x)"

fun run_values :: "workflow_progress \<Rightarrow> run_change list" where
  "run_values (Approval_needed req) = [R_status RUN_PENDING_APPROVAL, R_node REQUEST_APPROVAL]"
| "run_values (Finished out) =
     [R_status (terminal_run_status (out_status out)), R_node SUMMARIZE, R_summary (out_summary out)] @
     (case out_metrics out of
        None \<Rightarrow> []
      | Some m \<Rightarrow>
          [R_model_rounds (met_model_round_count m), R_provider_attempts (met_provider_attempt_count m),
           R_tool_calls (met_tool_call_count m), R_input_tokens (or_zero (met_input_tokens m)),
           R_output_tokens (or_zero (met_output_tokens m)), R_total_tokens (or_zero (met_total_tokens m)),
           R_latency_ms (met_latency_ms m)])"

text \<open>
  A start flushes the thread and the run, runs the workflow, and then, in the same transaction,
  stores the progress; the model reads the uncommitted rows again after the workflow.
\<close>

definition start_records :: "env \<Rightarrow> planning_goal \<Rightarrow> uuid \<Rightarrow> db \<Rightarrow> db result" where
  "start_records e goal user_id d =
     bind_result (create_thread e 0 (env_ids e 0) user_id (goal_objective goal) d) (\<lambda>d1.
       create_run e 1 (env_ids e 1) (env_ids e 0) user_id study_plan_prompt_version d1)"

definition start_body :: "env \<Rightarrow> planning_goal \<Rightarrow> uuid \<Rightarrow> workflow_progress \<Rightarrow> db \<Rightarrow> (unit \<times> db) result" where
  "start_body e goal user_id progress d =
     bind_result (start_records e goal user_id d) (\<lambda>d1.
     bind_result (update_run e 2 (new_run e (env_ids e 1) (env_ids e 0) user_id study_plan_prompt_version)
                    (run_values progress) d1) (\<lambda>d2.
     bind_result (case progress of
                    Approval_needed req \<Rightarrow> create_approval e 3 (env_ids e 2) (env_ids e 1) user_id
                      (int (req_revision req)) (req_fingerprint req) d2
                  | Finished _ \<Rightarrow> Inr d2) (\<lambda>d3. Inr ((), d3))))"

definition start_agent_run ::
  "runtime \<Rightarrow> env \<Rightarrow> planning_goal \<Rightarrow> uuid \<Rightarrow> agent_world \<Rightarrow> agent_run_snapshot result \<times> agent_world" where
  "start_agent_run R e goal user_id w =
     (case start_records e goal user_id (aw_db w) of
        Inl x \<Rightarrow> (Inl x, w)
      | Inr _ \<Rightarrow>
          if \<not> rt_available R then (Inl AgentWorkflowUnavailableError, w)
          else (case workflow_call (env_ids e 0) w
                       (start_durable (runtime_graph R (env_ids e 1) user_id) goal (aw_db w)) of
                  (Inl x, w') \<Rightarrow> (Inl x, w')
                | (Inr progress, w') \<Rightarrow>
                    (case transaction (env_commit e) (start_body e goal user_id progress) (open_session (aw_db w')) of
                       (Inl x, s) \<Rightarrow> (Inl x, w'\<lparr>aw_db := committed s\<rparr>)
                     | (Inr _, s) \<Rightarrow> (run_snapshot (env_ids e 1) user_id (committed s), w'\<lparr>aw_db := committed s\<rparr>))))"

section \<open>Decisions and recovery\<close>

fun decision_status :: "approval_decision \<Rightarrow> approval_status" where
  "decision_status APPROVED = APPROVAL_APPROVED"
| "decision_status REJECTED = APPROVAL_REJECTED"
| "decision_status REQUEST_CHANGES = APPROVAL_REQUEST_CHANGES"

definition stored_response :: "agent_approval \<Rightarrow> approval_response result" where
  "stored_response a =
     (case ap_decision a of
        APPROVAL_APPROVED \<Rightarrow> approval_response APPROVED (ap_feedback a)
      | APPROVAL_REJECTED \<Rightarrow> approval_response REJECTED (ap_feedback a)
      | APPROVAL_REQUEST_CHANGES \<Rightarrow> approval_response REQUEST_CHANGES (ap_feedback a)
      | APPROVAL_PENDING \<Rightarrow> Inl AgentRunConflictError)"

definition same_submission :: "agent_approval \<Rightarrow> submission \<Rightarrow> bool" where
  "same_submission a sub \<longleftrightarrow> ap_fingerprint a = sub_fingerprint sub \<and>
     ap_decision a = decision_status (sub_decision sub) \<and> ap_feedback a = sub_feedback sub"

definition terminal_run_statuses :: "run_status list" where
  "terminal_run_statuses = [RUN_SUCCEEDED, RUN_REJECTED, RUN_PARTIAL_FAILURE, RUN_FAILED]"

text \<open>The first half of \<open>submit_agent_approval\<close>: record the decision, or recognize it as recorded.\<close>

definition decided_approval :: "env \<Rightarrow> submission \<Rightarrow> agent_approval \<Rightarrow> agent_approval" where
  "decided_approval e sub a = a\<lparr>ap_decision := decision_status (sub_decision sub), ap_feedback := sub_feedback sub,
     ap_decided_at := Some (env_now e), ap_updated_at := env_now e\<rparr>"

definition record_decision ::
  "env \<Rightarrow> uuid \<Rightarrow> submission \<Rightarrow> uuid \<Rightarrow> db \<Rightarrow> (agent_run \<times> agent_thread \<times> agent_approval) result \<times> db" where
  "record_decision e rid sub user_id d =
     (case get_owned_run rid user_id d of
        None \<Rightarrow> (Inl AgentRunNotFoundError, d)
      | Some run \<Rightarrow>
          (case (get_owned_thread (run_thread_id run) user_id d, get_owned_approval rid user_id (int (sub_revision sub)) d) of
             (Some thread, Some approval) \<Rightarrow>
               if ap_decision approval = APPROVAL_PENDING then
                 if run_status_col run \<noteq> RUN_PENDING_APPROVAL \<or>
                    map_option ap_id (get_latest_owned_approval rid user_id d) \<noteq> Some (ap_id approval) \<or>
                    ap_fingerprint approval \<noteq> sub_fingerprint sub
                 then (Inl AgentRunConflictError, d)
                 else map_prod id committed (transaction (env_commit e) (\<lambda>x.
                        bind_result (update_approval e 0 approval (decision_status (sub_decision sub)) (sub_feedback sub) x) (\<lambda>x1.
                        bind_result (update_run e 1 run [R_status RUN_RUNNING] x1) (\<lambda>x2.
                          Inr ((updated_run e run [R_status RUN_RUNNING], thread, decided_approval e sub approval), x2))))
                        (open_session d))
               else if \<not> same_submission approval sub \<or>
                       run_status_col run \<notin> set ([RUN_RUNNING, RUN_PENDING_APPROVAL] @ terminal_run_statuses)
               then (Inl AgentRunConflictError, d)
               else (Inr (run, thread, approval), d)
           | _ \<Rightarrow> (Inl AgentRunConflictError, d)))"

text \<open>The second half: bring the workflow forward as far as its checkpoint demands.\<close>

definition next_progress ::
  "runtime \<Rightarrow> uuid \<Rightarrow> agent_run \<Rightarrow> agent_thread \<Rightarrow> agent_approval \<Rightarrow> agent_world \<Rightarrow> workflow_progress result \<times> agent_world" where
  "next_progress R user_id run thread approval w =
     (if \<not> rt_available R then (Inl AgentWorkflowUnavailableError, w)
      else
        let g = runtime_graph R (run_id run) user_id; tid = th_id thread in
        (case inspect_durable (rt_digest R) (aw_checkpoints w tid) of
           INCONSISTENT \<Rightarrow> (Inl AgentWorkflowUnavailableError, w)
         | TERMINAL out \<Rightarrow> (Inr (Finished out), w)
         | CONTINUABLE \<Rightarrow>
             if run_status_col run \<noteq> RUN_RUNNING then (Inl AgentWorkflowUnavailableError, w)
             else workflow_call tid w (continue_durable g (the (aw_checkpoints w tid)) (aw_db w))
         | PENDING_INTERRUPT req \<Rightarrow>
             if int (req_revision req) = ap_revision approval \<and> req_fingerprint req = ap_fingerprint approval then
               if run_status_col run \<noteq> RUN_RUNNING then (Inl AgentWorkflowUnavailableError, w)
               else (case stored_response approval of
                       Inl _ \<Rightarrow> (Inl AgentWorkflowUnavailableError, w)
                     | Inr resp \<Rightarrow> workflow_call tid w (resume_durable g resp (the (aw_checkpoints w tid)) (aw_db w)))
             else if ap_decision approval = APPROVAL_REQUEST_CHANGES \<and> int (req_revision req) = ap_revision approval + 1
             then (Inr (Approval_needed req), w)
             else (Inl AgentWorkflowUnavailableError, w)))"

definition persist_progress :: "env \<Rightarrow> uuid \<Rightarrow> agent_run \<Rightarrow> workflow_progress \<Rightarrow> db \<Rightarrow> (unit \<times> db) result" where
  "persist_progress e user_id run progress d =
     bind_result (update_run e 0 run (run_values progress) d) (\<lambda>d1.
       case progress of
         Finished _ \<Rightarrow> Inr ((), d1)
       | Approval_needed req \<Rightarrow>
           (case get_owned_approval (run_id run) user_id (int (req_revision req)) d1 of
              None \<Rightarrow> bind_result (create_approval e 1 (env_ids e 0) (run_id run) user_id (int (req_revision req))
                        (req_fingerprint req) d1) (\<lambda>d2. Inr ((), d2))
            | Some a \<Rightarrow>
                if ap_decision a \<noteq> APPROVAL_PENDING \<or> ap_fingerprint a \<noteq> req_fingerprint req
                then Inl AgentWorkflowUnavailableError else Inr ((), d1)))"

definition run_already_matches :: "agent_run \<Rightarrow> workflow_progress \<Rightarrow> bool" where
  "run_already_matches run progress \<longleftrightarrow> list_all (run_has run) (run_values progress)"

definition is_finished :: "workflow_progress \<Rightarrow> bool" where
  "is_finished p \<longleftrightarrow> (case p of Finished _ \<Rightarrow> True | Approval_needed _ \<Rightarrow> False)"

text \<open>Errors outside of the documented three, the lock's included, become an unavailable workflow.\<close>

definition safe_run_error :: "exn \<Rightarrow> exn" where
  "safe_run_error x =
     (if x \<in> {AgentRunNotFoundError, AgentRunConflictError, AgentWorkflowUnavailableError} then x
      else AgentWorkflowUnavailableError)"

definition safe_run_result :: "'a result \<Rightarrow> 'a result" where
  "safe_run_result r = (case r of Inl x \<Rightarrow> Inl (safe_run_error x) | Inr v \<Rightarrow> Inr v)"

definition reconcile_run ::
  "runtime \<Rightarrow> env \<Rightarrow> uuid \<Rightarrow> agent_run \<times> agent_thread \<times> agent_approval \<Rightarrow> agent_world \<Rightarrow>
   agent_run_snapshot result \<times> agent_world" where
  "reconcile_run R e user_id rows w =
     (case rows of (run, thread, approval) \<Rightarrow>
        (case next_progress R user_id run thread approval w of
           (Inl x, w') \<Rightarrow> (Inl x, w')
         | (Inr progress, w') \<Rightarrow>
             if is_finished progress \<and> run_status_col run \<in> set terminal_run_statuses \<and> run_already_matches run progress
             then (run_snapshot (run_id run) user_id (aw_db w'), w')
             else (case transaction (env_commit e) (persist_progress e user_id run progress) (open_session (aw_db w')) of
                     (Inl x, s) \<Rightarrow> (Inl x, w'\<lparr>aw_db := committed s\<rparr>)
                   | (Inr _, s) \<Rightarrow> (run_snapshot (run_id run) user_id (committed s), w'\<lparr>aw_db := committed s\<rparr>))))"

definition submit_agent_approval ::
  "runtime \<Rightarrow> bool \<Rightarrow> env \<Rightarrow> env \<Rightarrow> uuid \<Rightarrow> submission \<Rightarrow> uuid \<Rightarrow> agent_world \<Rightarrow> agent_run_snapshot result \<times> agent_world" where
  "submit_agent_approval R locked e1 e2 rid sub user_id w =
     (if \<not> locked then (Inl AgentWorkflowUnavailableError, w)
      else map_prod safe_run_result id
        (case record_decision e1 rid sub user_id (aw_db w) of
           (Inl x, d) \<Rightarrow> (Inl x, w\<lparr>aw_db := d\<rparr>)
         | (Inr rows, d) \<Rightarrow> reconcile_run R e2 user_id rows (w\<lparr>aw_db := d\<rparr>)))"

text \<open>The preview is the request that the checkpoint is waiting with.\<close>

definition get_agent_approval_preview ::
  "runtime \<Rightarrow> bool \<Rightarrow> uuid \<Rightarrow> uuid \<Rightarrow> agent_world \<Rightarrow> approval_request result" where
  "get_agent_approval_preview R locked rid user_id w =
     safe_run_result
       (case get_owned_run rid user_id (aw_db w) of
          None \<Rightarrow> Inl AgentRunNotFoundError
        | Some run \<Rightarrow>
            (case get_owned_thread (run_thread_id run) user_id (aw_db w) of
               None \<Rightarrow> Inl AgentRunNotFoundError
             | Some thread \<Rightarrow>
                 if \<not> locked then Inl AgentRecoveryLockError
                 else (case get_latest_owned_approval rid user_id (aw_db w) of
                         None \<Rightarrow> Inl AgentRunConflictError
                       | Some approval \<Rightarrow>
                           if run_status_col run \<noteq> RUN_PENDING_APPROVAL \<or> ap_decision approval \<noteq> APPROVAL_PENDING
                           then Inl AgentRunConflictError
                           else if \<not> rt_available R then Inl AgentWorkflowUnavailableError
                           else (case inspect_durable (rt_digest R) (aw_checkpoints w (th_id thread)) of
                                   INCONSISTENT \<Rightarrow> Inl AgentWorkflowUnavailableError
                                 | PENDING_INTERRUPT req \<Rightarrow>
                                     if int (req_revision req) \<noteq> ap_revision approval \<or>
                                        req_fingerprint req \<noteq> ap_fingerprint approval
                                     then Inl AgentRunConflictError else Inr req
                                 | _ \<Rightarrow> Inl AgentRunConflictError))))"

section \<open>What a workflow leaves alone\<close>

text \<open>A workflow writes Tasks and tool executions, never the rows of threads, runs and approvals.\<close>

definition same_runs :: "db \<Rightarrow> db \<Rightarrow> bool" where
  "same_runs d d' \<longleftrightarrow> agent_threads d' = agent_threads d \<and> agent_runs d' = agent_runs d \<and>
     agent_approvals d' = agent_approvals d"

lemma same_runs_refl [simp]: "same_runs d d"
  by (simp add: same_runs_def)

lemma same_runs_trans: "same_runs d d' \<Longrightarrow> same_runs d' d'' \<Longrightarrow> same_runs d d''"
  by (simp add: same_runs_def)

lemma same_but_tasks_same_runs: "same_but_tasks d d' \<Longrightarrow> same_runs d d'"
  unfolding same_but_tasks_def same_runs_def by (cases d; cases d') simp

lemma save_execution_same_runs: "save_execution e r d = Inr d' \<Longrightarrow> same_runs d d'"
  by (auto simp: save_execution_def result_Inr same_runs_def)

lemma create_claim_same_runs: "create_claim e i tool d = Inr d' \<Longrightarrow> same_runs d d'"
  by (auto simp: create_claim_def Let_def result_Inr same_runs_def)

lemma classify_existing_same_runs: "classify_existing e r d = Inr (c, d') \<Longrightarrow> same_runs d d'"
  by (auto simp: classify_existing_def restart_failed_def result_Inr intro: save_execution_same_runs
      split: execution_status.splits option.splits)

lemma transaction_same_runs:
  assumes "\<And>r x. body d = Inr (r, x) \<Longrightarrow> same_runs d x"
  shows "same_runs d (committed (snd (transaction outcome body (open_session d))))"
  using assms by (auto intro!: transaction_preserves [where P = "same_runs d"])

lemma claim_same_runs: "same_runs d (snd (claim C E id a revision fp d))"
proof -
  have body: "same_runs d x" if "claim_body C e a revision fp d d = Inr (c, x)" for e c x
    using that by (auto simp: claim_body_def result_Inr intro: create_claim_same_runs classify_existing_same_runs
        split: option.splits if_splits)
  have retry: "same_runs y x" if "retry_body C e a revision fp y = Inr (c, x)" for e c x y
    using that by (auto simp: retry_body_def intro: classify_existing_same_runs split: option.splits if_splits)
  let ?t = "transaction (env_commit (ae_claim E)) (claim_body C (ae_claim E) a revision fp d) (open_session d)"
  have first: "same_runs d (committed (snd ?t))" by (rule transaction_same_runs) (rule body)
  have "same_runs y (committed (snd (transaction o' (retry_body C e a revision fp) (open_session y))))" for o' e y
    by (rule transaction_same_runs) (rule retry)
  then show ?thesis
    using first same_runs_trans by (cases ?t; cases "fst ?t") (auto simp: claim_def snd_map_prod)
qed

lemma record_same_runs:
  "same_runs d (snd (record_completion e i res d))"
  "same_runs d (snd (record_failure e i status code d))"
  by (auto simp: record_completion_def record_failure_def complete_execution_def fail_execution_def snd_map_prod result_Inr
      intro!: transaction_same_runs intro: save_execution_same_runs split: option.splits if_splits)

lemma record_outcome_same_runs: "same_runs d (snd (record_outcome C E i res d))"
proof (cases res)
  case (Inl x)
  then show ?thesis
    using record_same_runs(2) by (auto simp: record_outcome_def split: prod.split sum.split) (metis snd_conv)+
next
  case (Inr r)
  obtain c d' where c: "record_completion (ae_complete E) i r d = (c, d')" by force
  then have "same_runs d d'" using record_same_runs(1) by (metis snd_conv)
  then show ?thesis
    using Inr c record_same_runs(2) [of d' "ae_fail E" i EXEC_UNKNOWN agent_tool_execution_unknown] same_runs_trans
    by (auto simp: record_outcome_def split: prod.split sum.split)
qed

lemma coordinator_same_runs:
  assumes "co_gateway C = agent_domain_gateway e tr search"
  shows "same_runs d (snd (coordinator_execute C E id ctx a revision fp d))"
proof -
  obtain c d1 where c: "claim C E id a revision fp d = (c, d1)" by force
  then have 1: "same_runs d d1" using claim_same_runs by (metis snd_conv)
  obtain res d2 where res: "dispatch C ctx a d1 = (res, d2)" by force
  then have "same_runs d1 d2"
    using same_but_tasks_same_runs [OF dispatch_same_but_tasks [OF assms]] by (metis snd_conv)
  then have "same_runs d (snd (record_outcome C E (identity_of C a revision fp) res d2))"
    using 1 record_outcome_same_runs same_runs_trans by blast
  then show ?thesis using 1 c res
    by (auto simp: coordinator_execute_def split: sum.split claim_disposition.split)
qed

lemma run_actions_same_runs:
  assumes "\<And>a d. same_runs d (snd (f a d))"
  shows "same_runs d (snd (run_actions f acts d))"
proof (induction acts arbitrary: d)
  case (Cons a acts)
  obtain r d' where r: "f a d = (r, d')" by force
  then have "same_runs d d'" using assms [of d a] by simp
  then show ?case using Cons.IH [of d'] by (auto simp: r split_beta intro: same_runs_trans)
qed simp

lemma run_action_same_runs:
  assumes "\<And>a n fp d. same_runs d (snd (run a n fp d))"
  shows "same_runs d (snd (run_action P gw (Some run) ctx n fp a d))"
  using assms [of d a n fp]
  by (cases "run a n fp d") (auto simp: run_action_def Let_def split: sum.splits prod.splits)

definition domain_runtime :: "runtime \<Rightarrow> bool" where
  "domain_runtime R \<longleftrightarrow> (\<exists>e tr search. rt_gateway R = agent_domain_gateway e tr search)"

lemma run_graph_same_runs:
  assumes "domain_runtime R"
  shows "same_runs d (snd (run_graph (runtime_graph R rid user_id) ap k n s d))"
proof -
  let ?g = "runtime_graph R rid user_id"
  obtain e tr search where gw: "rt_gateway R = agent_domain_gateway e tr search"
    using assms by (auto simp: domain_runtime_def)
  have "same_runs d (snd (run_graph_node ?g ap n s d))" for d n s ap
  proof -
    have "snd (context_node ?g s d) = d"
      using load_context_db [of "gd_rules ?g" e tr search "gd_uuid_text ?g" "gd_context ?g" s d]
      by (auto simp: context_node_def runtime_graph_def gw Let_def split: prod.splits sum.splits)
    moreover have "same_runs d (snd (execute_tasks (gd_rules ?g) (gd_digest ?g) (gd_gateway ?g) (gd_runner ?g)
        (gd_context ?g) s d))"
      by (auto simp: execute_tasks_def runtime_graph_def Let_def snd_map_prod gw split: sum.split
          intro!: run_actions_same_runs run_action_same_runs coordinator_same_runs)
    then have "same_runs d (snd (execution_node ?g s d))"
      by (auto simp: execution_node_def split: prod.splits sum.splits)
    ultimately show ?thesis by (cases n) (simp_all add: run_graph_node_def)
  qed
  then show ?thesis
    by (rule run_graph_closed [where Q = same_runs]) (auto intro: same_runs_trans)
qed

section \<open>Recording a decision\<close>

definition wf_runs :: "db \<Rightarrow> bool" where
  "wf_runs d \<longleftrightarrow> distinct (map th_id (agent_threads d)) \<and> distinct (map run_id (agent_runs d)) \<and>
     distinct (map ap_id (agent_approvals d)) \<and> distinct (map (\<lambda>a. (ap_run_id a, ap_revision a)) (agent_approvals d)) \<and>
     list_all (\<lambda>i. i \<in> set (map run_id (agent_runs d))) (map ap_run_id (agent_approvals d))"

lemma get_owned_thread_iff:
  assumes "wf_runs d"
  shows "get_owned_thread tid u d = Some t \<longleftrightarrow> t \<in> set (agent_threads d) \<and> th_id t = tid \<and> th_user_id t = u"
  using assms find_distinct_key [of th_id "agent_threads d"]
  by (auto simp: get_owned_thread_def wf_runs_def dest: find_SomeD)

lemma get_owned_run_iff:
  assumes "wf_runs d"
  shows "get_owned_run i u d = Some r \<longleftrightarrow> r \<in> set (agent_runs d) \<and> run_id r = i \<and> run_user_id r = u"
  using assms find_distinct_key [of run_id "agent_runs d"]
  by (auto simp: get_owned_run_def wf_runs_def dest: find_SomeD)

lemma get_owned_approval_iff:
  assumes "wf_runs d"
  shows "get_owned_approval i u n d = Some a \<longleftrightarrow>
    a \<in> set (agent_approvals d) \<and> ap_run_id a = i \<and> ap_user_id a = u \<and> ap_revision a = n"
  using assms find_distinct_key [of "\<lambda>a. (ap_run_id a, ap_revision a)" "agent_approvals d"]
  by (auto simp: get_owned_approval_def wf_runs_def dest: find_SomeD)

lemma update_run_Inr:
  "update_run e n r values d = Inr d' \<Longrightarrow> d' = d\<lparr>agent_runs := replace_row run_id (updated_run e r values) (agent_runs d)\<rparr>"
  by (auto simp: update_run_def Let_def result_Inr)

lemma update_approval_Inr:
  "update_approval e n a dec fb d = Inr d' \<Longrightarrow>
   d' = d\<lparr>agent_approvals := replace_row ap_id (a\<lparr>ap_decision := dec, ap_feedback := fb, ap_decided_at := Some (env_now e),
     ap_updated_at := env_now e\<rparr>) (agent_approvals d)\<rparr>"
  by (auto simp: update_approval_def Let_def result_Inr)

lemma set_run_attr_keys [simp]:
  "run_id (set_run_attr r v) = run_id r" "run_user_id (set_run_attr r v) = run_user_id r"
  "run_thread_id (set_run_attr r v) = run_thread_id r"
  by (cases v; simp)+

lemma updated_run_keys [simp]:
  "run_id (updated_run e r vs) = run_id r" "run_user_id (updated_run e r vs) = run_user_id r"
  "run_thread_id (updated_run e r vs) = run_thread_id r"
proof -
  have "run_id (foldl set_run_attr r vs) = run_id r \<and> run_user_id (foldl set_run_attr r vs) = run_user_id r \<and>
      run_thread_id (foldl set_run_attr r vs) = run_thread_id r"
    by (induction vs arbitrary: r) simp_all
  then show "run_id (updated_run e r vs) = run_id r" "run_user_id (updated_run e r vs) = run_user_id r"
    "run_thread_id (updated_run e r vs) = run_thread_id r"
    by (simp_all add: updated_run_def)
qed

lemma decision_status_decided [simp]: "decision_status dec \<noteq> APPROVAL_PENDING"
  by (cases dec) simp_all

lemma decided_approval_simps [simp]:
  "ap_id (decided_approval e sub a) = ap_id a" "ap_run_id (decided_approval e sub a) = ap_run_id a"
  "ap_user_id (decided_approval e sub a) = ap_user_id a" "ap_revision (decided_approval e sub a) = ap_revision a"
  "ap_fingerprint (decided_approval e sub a) = ap_fingerprint a"
  "ap_decision (decided_approval e sub a) = decision_status (sub_decision sub)"
  "ap_feedback (decided_approval e sub a) = sub_feedback sub"
  by (simp_all add: decided_approval_def)

definition decided_db :: "env \<Rightarrow> submission \<Rightarrow> agent_run \<Rightarrow> agent_approval \<Rightarrow> db \<Rightarrow> db" where
  "decided_db e sub run approval d =
     d\<lparr>agent_approvals := replace_row ap_id (decided_approval e sub approval) (agent_approvals d),
       agent_runs := replace_row run_id (updated_run e run [R_status RUN_RUNNING]) (agent_runs d)\<rparr>"

lemma record_decision_commit [simp]:
  "update_approval (e\<lparr>env_commit := c\<rparr>) = update_approval e" "update_run (e\<lparr>env_commit := c\<rparr>) = update_run e"
  "updated_run (e\<lparr>env_commit := c\<rparr>) = updated_run e" "decided_approval (e\<lparr>env_commit := c\<rparr>) = decided_approval e"
  by (simp_all add: fun_eq_iff update_approval_def update_run_def updated_run_def decided_approval_def flush_row_def)

text \<open>A decision is refused, recognized, or recorded; whether it is recorded does not depend on the
  acknowledgement of the commit.\<close>

lemma record_decision_cases:
  assumes "record_decision e rid sub u d = (res, d')"
  obtains (refused) x where "res = Inl x" "d' = d"
  | (recognized) run thread approval where "res = Inr (run, thread, approval)" "d' = d"
      "get_owned_run rid u d = Some run" "get_owned_thread (run_thread_id run) u d = Some thread"
      "get_owned_approval rid u (int (sub_revision sub)) d = Some approval"
      "ap_decision approval \<noteq> APPROVAL_PENDING" "same_submission approval sub"
      "run_status_col run \<in> set ([RUN_RUNNING, RUN_PENDING_APPROVAL] @ terminal_run_statuses)"
  | (recorded) run thread approval where
      "get_owned_run rid u d = Some run" "get_owned_thread (run_thread_id run) u d = Some thread"
      "get_owned_approval rid u (int (sub_revision sub)) d = Some approval"
      "ap_decision approval = APPROVAL_PENDING" "ap_fingerprint approval = sub_fingerprint sub"
      "run_status_col run = RUN_PENDING_APPROVAL"
      "map_option ap_id (get_latest_owned_approval rid u d) = Some (ap_id approval)"
      "d' = decided_db e sub run approval d"
      "record_decision (e\<lparr>env_commit := Commit_ok\<rparr>) rid sub u d =
         (Inr (updated_run e run [R_status RUN_RUNNING], thread, decided_approval e sub approval), d')"
      "res = Inl DatabaseError \<or> res = Inr (updated_run e run [R_status RUN_RUNNING], thread, decided_approval e sub approval)"
proof -
  define ok where "ok run approval \<longleftrightarrow> run_status_col run = RUN_PENDING_APPROVAL \<and>
    map_option ap_id (get_latest_owned_approval rid u d) = Some (ap_id approval) \<and>
    ap_fingerprint approval = sub_fingerprint sub" for run :: agent_run and approval :: agent_approval
  consider (none) "get_owned_run rid u d = None"
    | (run) run where "get_owned_run rid u d = Some run"
        "get_owned_thread (run_thread_id run) u d = None \<or> get_owned_approval rid u (int (sub_revision sub)) d = None"
    | (rows) run thread approval where "get_owned_run rid u d = Some run"
        "get_owned_thread (run_thread_id run) u d = Some thread"
        "get_owned_approval rid u (int (sub_revision sub)) d = Some approval"
    using option.exhaust by metis
  then show thesis
  proof cases
    case rows
    show thesis
    proof (cases "ap_decision approval = APPROVAL_PENDING \<and> ok run approval")
      case True
      define body where "body x = bind_result (update_approval e 0 approval (decision_status (sub_decision sub)) (sub_feedback sub) x) (\<lambda>x1.
          bind_result (update_run e 1 run [R_status RUN_RUNNING] x1) (\<lambda>x2.
            Inr ((updated_run e run [R_status RUN_RUNNING], thread, decided_approval e sub approval), x2)))" for x
      have rd: "record_decision (e\<lparr>env_commit := c\<rparr>) rid sub u d = map_prod id committed (transaction c body (open_session d))" for c
        using rows True by (simp add: record_decision_def ok_def body_def [abs_def])
      have "record_decision e rid sub u d = map_prod id committed (transaction (env_commit e) body (open_session d))"
        using rd [of "env_commit e"] by simp
      then obtain s where t: "transaction (env_commit e) body (open_session d) = (res, s)" "d' = committed s"
        using assms by (cases "transaction (env_commit e) body (open_session d)") simp
      have body: "x = decided_db e sub run approval d \<and> r = (updated_run e run [R_status RUN_RUNNING], thread, decided_approval e sub approval)"
        if "body d = Inr (r, x)" for r x
        using that by (auto simp: body_def result_Inr decided_db_def decided_approval_def dest!: update_approval_Inr update_run_Inr)
      from t(1) show thesis
      proof (cases rule: transaction_cases)
        case failed
        then show thesis using t(2) by (intro refused) simp_all
      next
        case refused': (refused r x)
        then show thesis using t(2) by (intro refused) simp_all
      next
        case (stored r x)
        then show thesis
          using t(2) rows True body [of r x] rd [of Commit_ok]
          by (intro recorded [of run thread approval]) (simp_all add: ok_def transaction_ok)
      next
        case (lost r x)
        then show thesis
          using t(2) rows True body [of r x] rd [of Commit_ok]
          by (intro recorded [of run thread approval]) (simp_all add: ok_def transaction_ok)
      qed
    next
      case False
      then show thesis
        using assms rows
        by (cases "same_submission approval sub \<and>
              run_status_col run \<in> set ([RUN_RUNNING, RUN_PENDING_APPROVAL] @ terminal_run_statuses)")
           (auto simp: record_decision_def ok_def intro: refused recognized split: if_splits)
    qed
  qed (use assms in \<open>auto simp: record_decision_def intro: refused split: option.splits\<close>)
qed

lemma wf_runs_decided_db:
  assumes "wf_runs d" "approval \<in> set (agent_approvals d)"
  shows "wf_runs (decided_db e sub run approval d)"
proof -
  have inj: "inj_on ap_id (set (agent_approvals d))" using assms(1) by (simp add: wf_runs_def distinct_map)
  have "x = approval" if "x \<in> set (agent_approvals d)" "ap_id x = ap_id approval" for x
    using inj_onD [OF inj that(2,1) assms(2)] .
  then have "map (\<lambda>a. (ap_run_id a, ap_revision a)) (replace_row ap_id (decided_approval e sub approval) (agent_approvals d)) =
      map (\<lambda>a. (ap_run_id a, ap_revision a)) (agent_approvals d)"
    by (intro map_replace_row) auto
  moreover from this
  have "map ap_run_id (replace_row ap_id (decided_approval e sub approval) (agent_approvals d)) = map ap_run_id (agent_approvals d)"
    by (metis (no_types, lifting) map_map comp_def fst_conv map_cong)
  ultimately show ?thesis using assms(1) by (simp add: wf_runs_def decided_db_def row_simps del: set_map list.pred_map)
qed

lemma record_decision_recognizes:
  assumes "get_owned_run rid u d = Some run" "get_owned_thread (run_thread_id run) u d = Some thread"
    and "get_owned_approval rid u (int (sub_revision sub)) d = Some approval"
    and "ap_decision approval \<noteq> APPROVAL_PENDING" "same_submission approval sub"
    and "run_status_col run \<in> set ([RUN_RUNNING, RUN_PENDING_APPROVAL] @ terminal_run_statuses)"
  shows "record_decision e rid sub u d = (Inr (run, thread, approval), d)"
  using assms by (simp add: record_decision_def)

lemma decided_db_lookups:
  assumes "wf_runs d" "get_owned_run rid u d = Some run" "get_owned_thread (run_thread_id run) u d = Some thread"
    and "get_owned_approval rid u n d = Some approval"
  shows "get_owned_run rid u (decided_db e sub run approval d) = Some (updated_run e run [R_status RUN_RUNNING])"
    and "get_owned_thread (run_thread_id run) u (decided_db e sub run approval d) = Some thread"
    and "get_owned_approval rid u n (decided_db e sub run approval d) = Some (decided_approval e sub approval)"
proof -
  have rows: "run \<in> set (agent_runs d)" "run_id run = rid" "run_user_id run = u"
    "approval \<in> set (agent_approvals d)" "ap_run_id approval = rid" "ap_user_id approval = u" "ap_revision approval = n"
    using assms by (simp_all add: get_owned_run_iff get_owned_approval_iff)
  let ?d = "decided_db e sub run approval d"
  have wf: "wf_runs ?d" using assms(1) rows(4) by (rule wf_runs_decided_db)
  have "updated_run e run [R_status RUN_RUNNING] \<in> set (agent_runs ?d)"
    "decided_approval e sub approval \<in> set (agent_approvals ?d)"
    using rows by (auto simp: decided_db_def intro: replace_row_mem)
  then show "get_owned_run rid u ?d = Some (updated_run e run [R_status RUN_RUNNING])"
    "get_owned_approval rid u n ?d = Some (decided_approval e sub approval)"
    using rows wf by (simp_all add: get_owned_run_iff get_owned_approval_iff)
  show "get_owned_thread (run_thread_id run) u ?d = Some thread"
    using assms(3) by (simp add: decided_db_def get_owned_thread_def)
qed

text \<open>What was recorded is recognized, by any later attempt and whatever workflows did meanwhile.\<close>

lemma record_decision_again:
  assumes "wf_runs d" "record_decision e rid sub u d = (res, d')" "d' \<noteq> d \<or> (\<exists>rows. res = Inr rows)"
  obtains run thread approval where
    "record_decision (e\<lparr>env_commit := Commit_ok\<rparr>) rid sub u d = (Inr (run, thread, approval), d')"
    "\<And>e' d''. same_runs d' d'' \<Longrightarrow> record_decision e' rid sub u d'' = (Inr (run, thread, approval), d'')"
    "run_id run = rid" "run_user_id run = u" "th_id thread = run_thread_id run" "th_user_id thread = u"
    "ap_run_id approval = rid" "ap_revision approval = int (sub_revision sub)" "same_submission approval sub"
    "\<exists>run0. get_owned_run rid u d = Some run0 \<and> run_thread_id run0 = run_thread_id run"
    "wf_runs d'" "get_owned_run rid u d' = Some run" "get_owned_thread (run_thread_id run) u d' = Some thread"
    "get_owned_approval rid u (int (sub_revision sub)) d' = Some approval"
    "\<And>rows. res = Inr rows \<Longrightarrow> rows = (run, thread, approval)"
proof -
  have lookups: "get_owned_run i v d'' = get_owned_run i v d'" "get_owned_thread i v d'' = get_owned_thread i v d'"
    "get_owned_approval i v n d'' = get_owned_approval i v n d'" if "same_runs d' d''" for i v n d' d''
    using that by (simp_all add: same_runs_def get_owned_run_def get_owned_thread_def get_owned_approval_def)
  from assms(2) show thesis
  proof (cases rule: record_decision_cases)
    case refused
    then show thesis using assms(3) by simp
  next
    case (recognized run thread approval)
    then show thesis
      using assms(1) by (intro that [of run thread approval])
        (auto simp: record_decision_recognizes lookups get_owned_run_iff get_owned_thread_iff get_owned_approval_iff)
  next
    case (recorded run thread approval)
    let ?run = "updated_run e run [R_status RUN_RUNNING]"
    have "record_decision e' rid sub u d'' = (Inr (?run, thread, decided_approval e sub approval), d'')"
      if "same_runs d' d''" for e' d''
      using decided_db_lookups [OF assms(1) recorded(1-3)] that recorded(5,8)
      by (intro record_decision_recognizes) (simp_all add: lookups same_submission_def, simp add: updated_run_def)
    moreover have "wf_runs d'"
      using recorded(3,8) assms(1) wf_runs_decided_db by (simp add: get_owned_approval_iff)
    ultimately show thesis
      using recorded assms(1) decided_db_lookups [OF assms(1) recorded(1-3), of e sub]
      by (intro that [of ?run thread "decided_approval e sub approval"])
        (auto simp: get_owned_run_iff get_owned_thread_iff get_owned_approval_iff same_submission_def)
  qed
qed

section \<open>Recovery after a crash\<close>

text \<open>
  The checkpoint of a run, when the run has one, satisfies the invariant of durable workflows, as every
  checkpoint that starting and resuming leave behind does (\<open>durable_run_inv\<close>).
\<close>

definition checkpoint_sound :: "runtime \<Rightarrow> uuid \<Rightarrow> uuid \<Rightarrow> checkpoint option \<Rightarrow> bool" where
  "checkpoint_sound R rid u c \<longleftrightarrow> (\<forall>cp. c = Some cp \<longrightarrow> (\<exists>r. checkpoint_inv (runtime_graph R rid u) r cp))"

lemma checkpoint_sound_inspect:
  assumes "checkpoint_sound R rid u c"
  obtains (lost) "c = None" "inspect_durable (rt_digest R) c = INCONSISTENT"
  | (waiting) cp req where "c = Some cp" "inspect_durable (rt_digest R) c = PENDING_INTERRUPT req"
      "cp_interrupt cp = Some req" "cp_next cp = Some REQUEST_APPROVAL"
      "run_inv (runtime_graph R rid u) REQUEST_APPROVAL (cp_state cp)" "req_revision req = gs_revision_count (cp_state cp)"
  | (ended) cp out where "c = Some cp" "inspect_durable (rt_digest R) c = TERMINAL out"
proof (cases c)
  case None
  then show thesis using lost by (simp add: inspect_durable_def)
next
  case (Some cp)
  then obtain r where "checkpoint_inv (runtime_graph R rid u) r cp"
    using assms by (auto simp: checkpoint_sound_def)
  moreover have "gd_digest (runtime_graph R rid u) = rt_digest R" by (simp add: runtime_graph_def Let_def)
  ultimately show thesis
    using Some waiting [of cp] ended [of cp] build_approval_request_revision
    by (auto simp: checkpoint_inv_def inspect_durable_def inspect_snapshot_def [of _ cp])
qed

lemma workflow_call_Inr:
  assumes "workflow_call tid w r = (Inr p, w')"
  obtains cp d where "r = (Inr p, cp, d)" "w' = w\<lparr>aw_db := d, aw_checkpoints := (aw_checkpoints w)(tid := Some cp)\<rparr>"
  using assms by (auto simp: workflow_call_def split: prod.splits sum.splits)

lemma stored_response_decision:
  "stored_response a = Inr resp \<Longrightarrow> resp_decision resp = REQUEST_CHANGES \<longleftrightarrow> ap_decision a = APPROVAL_REQUEST_CHANGES"
  by (auto simp: stored_response_def split: approval_status.splits dest: approval_response_decision)

lemma resume_durable_again:
  assumes "graph_deps_ok g" "run_inv g REQUEST_APPROVAL (cp_state cp)" "cp_next cp = Some REQUEST_APPROVAL"
    and "resume_durable g a cp d = (Inr p, cp', d')"
  shows "(\<exists>out. p = Finished out \<and> inspect_snapshot (gd_digest g) cp' = TERMINAL out) \<or>
    (\<exists>req. p = Approval_needed req \<and> inspect_snapshot (gd_digest g) cp' = PENDING_INTERRUPT req \<and>
       resp_decision a = REQUEST_CHANGES \<and> req_revision req = gs_revision_count (cp_state cp) + 1)"
proof -
  have adv: "advance g (Durable (Some a)) REQUEST_APPROVAL (cp_state cp) d = (Inr p, cp', d')"
    using assms(3,4) by (simp add: resume_durable_def resume_checkpoint_def)
  note inv = advance_checkpoint_inv [OF assms(1,2) adv]
  show ?thesis
  proof (cases p)
    case (Finished out)
    then show ?thesis using inv by (auto simp: checkpoint_inv_def)
  next
    case (Approval_needed req)
    then have req: "cp_interrupt cp' = Some req" "cp_next cp' = Some REQUEST_APPROVAL"
      "build_approval_request (gd_rules g) (gd_digest g) (gd_dump g) (gd_context g) (cp_state cp') = Inr req"
      using inv by (auto simp: checkpoint_inv_def)
    then obtain n' s' where "run_graph g (Durable (Some a)) agent_graph_recursion_limit REQUEST_APPROVAL (cp_state cp) d
        = (Paused n' s' req, d')" "cp_state cp' = s'"
      using adv by (auto simp: advance_def Let_def split: prod.splits graph_outcome.splits)
    from resume_paused [OF this(1) assms(2)] this(2) show ?thesis
      using Approval_needed req build_approval_request_revision [OF req(3)] by (simp add: inspect_snapshot_def)
  qed
qed

lemma resume_durable_same_runs:
  "domain_runtime R \<Longrightarrow> same_runs d (snd (snd (resume_durable (runtime_graph R rid u) a cp d)))"
  using run_graph_same_runs
  by (auto simp: resume_durable_def resume_checkpoint_def advance_db split: option.split)

lemma next_progress_again:
  assumes "domain_runtime R" "graph_deps_ok (runtime_graph R (run_id run) u)"
    and "checkpoint_sound R (run_id run) u (aw_checkpoints w (th_id thread))"
    and "next_progress R u run thread approval w = (Inr p, w')"
  shows "next_progress R u run thread approval w' = (Inr p, w')" "same_runs (aw_db w) (aw_db w')"
    "p = Finished out \<Longrightarrow> inspect_durable (rt_digest R) (aw_checkpoints w' (th_id thread)) = TERMINAL out"
proof -
  let ?g = "runtime_graph R (run_id run) u" and ?tid = "th_id thread"
  have av: "rt_available R" using assms(4) by (auto simp: next_progress_def split: if_splits)
  have "next_progress R u run thread approval w' = (Inr p, w') \<and> same_runs (aw_db w) (aw_db w') \<and>
      (\<forall>out. p = Finished out \<longrightarrow> inspect_durable (rt_digest R) (aw_checkpoints w' ?tid) = TERMINAL out)"
    using assms(3)
  proof (cases rule: checkpoint_sound_inspect)
    case lost
    then show ?thesis using assms(4) av by (simp add: next_progress_def Let_def)
  next
    case (ended cp out)
    then show ?thesis using assms(4) av by (auto simp: next_progress_def Let_def)
  next
    case (waiting cp req)
    show ?thesis
    proof (cases "int (req_revision req) = ap_revision approval \<and> req_fingerprint req = ap_fingerprint approval")
      case False
      then have "w' = w \<and> p = Approval_needed req"
        using assms(4) av waiting by (auto simp: next_progress_def Let_def split: if_splits)
      then show ?thesis using assms(4) by simp
    next
      case True
      then obtain resp where resp: "stored_response approval = Inr resp" "run_status_col run = RUN_RUNNING"
        "workflow_call ?tid w (resume_durable ?g resp cp (aw_db w)) = (Inr p, w')"
        using assms(4) av waiting by (auto simp: next_progress_def Let_def split: if_splits sum.splits)
      from resp(3) obtain cp' d' where res: "resume_durable ?g resp cp (aw_db w) = (Inr p, cp', d')"
        and w': "w' = w\<lparr>aw_db := d', aw_checkpoints := (aw_checkpoints w)(?tid := Some cp')\<rparr>"
        by (rule workflow_call_Inr)
      have digest: "gd_digest ?g = rt_digest R" by (simp add: runtime_graph_def Let_def)
      have "same_runs (aw_db w) d'"
        using resume_durable_same_runs [OF assms(1), of "aw_db w"] res by (metis snd_conv)
      then show ?thesis
        using resume_durable_again [OF assms(2) waiting(5,4) res] True av w' waiting(6) stored_response_decision [OF resp(1)]
        by (auto simp: next_progress_def Let_def inspect_durable_def digest)
    qed
  qed
  then show "next_progress R u run thread approval w' = (Inr p, w')" "same_runs (aw_db w) (aw_db w')"
    "p = Finished out \<Longrightarrow> inspect_durable (rt_digest R) (aw_checkpoints w' (th_id thread)) = TERMINAL out" by auto
qed

lemma submit_agent_approval_rows:
  assumes "record_decision e rid sub u (aw_db w) = (Inr rows, d)"
  shows "submit_agent_approval R True e e2 rid sub u w =
    map_prod safe_run_result id (reconcile_run R e2 u rows (w\<lparr>aw_db := d\<rparr>))"
  using assms by (simp add: submit_agent_approval_def)


section \<open>Storing the progress\<close>

lemma reconcile_run_Inr:
  assumes "reconcile_run R e u (run, thread, approval) w = (Inr snap, w')"
  obtains (matched) p w2 where "next_progress R u run thread approval w = (Inr p, w2)"
      "is_finished p" "run_status_col run \<in> set terminal_run_statuses" "run_already_matches run p"
      "w' = w2" "run_snapshot (run_id run) u (aw_db w2) = Inr snap"
  | (stored) p w2 d where "next_progress R u run thread approval w = (Inr p, w2)"
      "persist_progress e u run p (aw_db w2) = Inr ((), d)" "w' = w2\<lparr>aw_db := d\<rparr>" "run_snapshot (run_id run) u d = Inr snap"
proof -
  obtain p w2 where np: "next_progress R u run thread approval w = (Inr p, w2)"
    using assms by (auto simp: reconcile_run_def split: prod.splits sum.splits)
  show thesis
  proof (cases "is_finished p \<and> run_status_col run \<in> set terminal_run_statuses \<and> run_already_matches run p")
    case True
    then show thesis using assms np matched by (auto simp: reconcile_run_def)
  next
    case False
    then obtain s where s: "transaction (env_commit e) (persist_progress e u run p) (open_session (aw_db w2)) = (Inr (), s)"
      "w' = w2\<lparr>aw_db := committed s\<rparr>" "run_snapshot (run_id run) u (committed s) = Inr snap"
      using assms np by (auto simp: reconcile_run_def split: prod.splits sum.splits)
    then show thesis using transaction_success [OF s(1)] np stored by auto
  qed
qed

lemma create_approval_runs: "create_approval e n i rid u k fp d = Inr d' \<Longrightarrow> agent_runs d' = agent_runs d"
  by (auto simp: create_approval_def Let_def result_Inr)

lemma persist_progress_runs:
  assumes "persist_progress e u run p d = Inr (r, d')"
  shows "agent_runs d' = replace_row run_id (updated_run e run (run_values p)) (agent_runs d)"
  using assms
  by (cases p) (auto simp: persist_progress_def result_Inr dest!: update_run_Inr create_approval_runs
      split: option.splits if_splits)

lemma persist_progress_Finished:
  "persist_progress e u run (Finished out) d = Inr (r, d') \<Longrightarrow>
   d' = d\<lparr>agent_runs := replace_row run_id (updated_run e run (run_values (Finished out))) (agent_runs d)\<rparr>"
  by (auto simp: persist_progress_def result_Inr dest!: update_run_Inr)

lemma run_snapshot_status:
  assumes "run_snapshot rid u d = Inr snap" "get_owned_run rid u d = Some run"
  shows "pr_status (snap_run snap) = run_status_col run"
  using assms by (auto simp: run_snapshot_def result_Inr validate_public_run_def split: option.splits if_splits)

lemma updated_run_status:
  "run_status_col (updated_run e run (run_values (Approval_needed req))) = RUN_PENDING_APPROVAL"
  "run_status_col (updated_run e run (run_values (Finished out))) = terminal_run_status (out_status out)"
  by (simp_all add: updated_run_def split: option.split)

lemma updated_run_matches: "run_already_matches (updated_run e run (run_values p)) p"
  by (cases p) (simp_all add: run_already_matches_def updated_run_def split: option.split)

lemma terminal_run_status_terminal: "terminal_run_status t \<in> set terminal_run_statuses"
  by (cases t) (simp_all add: terminal_run_statuses_def)

lemma find_replaced:
  assumes "distinct (map key rows)" "x \<in> set rows" "key x = key r" "P r" "\<And>y. P y \<Longrightarrow> key y = key r"
  shows "List.find P (replace_row key r rows) = Some r"
proof (rule find_distinct_key [where key = key])
  show "distinct (map key (replace_row key r rows))" using assms(1) by (simp add: row_simps)
  show "r \<in> set (replace_row key r rows)" using assms(2,3) by (rule replace_row_mem)
qed (fact assms(4), rule assms(5))

lemma submit_agent_approval_Inr:
  assumes "submit_agent_approval R locked e1 e2 rid sub u w = (Inr snap, w')"
  obtains rows d where "locked" "record_decision e1 rid sub u (aw_db w) = (Inr rows, d)"
    "reconcile_run R e2 u rows (w\<lparr>aw_db := d\<rparr>) = (Inr snap, w')"
proof -
  obtain r d where r: "record_decision e1 rid sub u (aw_db w) = (r, d)" by force
  obtain v w2 where v: "reconcile_run R e2 u (projr r) (w\<lparr>aw_db := d\<rparr>) = (v, w2)" by force
  have "locked" using assms by (auto simp: submit_agent_approval_def split: if_splits)
  then show thesis
    using assms r v that by (cases r; cases v) (auto simp: submit_agent_approval_def safe_run_result_def)
qed

text \<open>A finished submission is idempotent. When a submission has brought its run to an end, submitting
  the same decision again answers the same snapshot and changes neither a row nor the checkpoint.\<close>

theorem finished_submission_idempotent:
  assumes "domain_runtime R" "graph_deps_ok (runtime_graph R rid u)" "wf_runs (aw_db w)"
    and "\<And>run. get_owned_run rid u (aw_db w) = Some run \<Longrightarrow>
           checkpoint_sound R rid u (aw_checkpoints w (run_thread_id run))"
    and "submit_agent_approval R True e1 e2 rid sub u w = (Inr snap, w')"
    and "pr_status (snap_run snap) \<in> set terminal_run_statuses"
  shows "submit_agent_approval R True e3 e4 rid sub u w' = (Inr snap, w')"
proof -
  obtain rows d1 where rd: "record_decision e1 rid sub u (aw_db w) = (Inr rows, d1)"
    and rec: "reconcile_run R e2 u rows (w\<lparr>aw_db := d1\<rparr>) = (Inr snap, w')"
    using assms(5) by (rule submit_agent_approval_Inr)
  obtain run thread approval where
    first: "record_decision (e1\<lparr>env_commit := Commit_ok\<rparr>) rid sub u (aw_db w) = (Inr (run, thread, approval), d1)"
    and again: "\<And>e' d''. same_runs d1 d'' \<Longrightarrow> record_decision e' rid sub u d'' = (Inr (run, thread, approval), d'')"
    and ids: "run_id run = rid" "run_user_id run = u" "th_id thread = run_thread_id run"
    and same: "same_submission approval sub"
    and run0: "\<exists>run0. get_owned_run rid u (aw_db w) = Some run0 \<and> run_thread_id run0 = run_thread_id run"
    and rows: "wf_runs d1" "get_owned_run rid u d1 = Some run" "get_owned_thread (run_thread_id run) u d1 = Some thread"
      "get_owned_approval rid u (int (sub_revision sub)) d1 = Some approval"
    and eq: "rows = (run, thread, approval)"
    by (rule record_decision_again [OF assms(3) rd]) blast+
  note rec = rec [unfolded eq]
  let ?w1 = "w\<lparr>aw_db := d1\<rparr>"
  have cp: "checkpoint_sound R (run_id run) u (aw_checkpoints ?w1 (th_id thread))"
    using assms(4) run0 ids by auto
  note np = next_progress_again [OF assms(1) _ cp]
  have deps: "graph_deps_ok (runtime_graph R (run_id run) u)" using assms(2) ids by simp
  have av: "rt_available R" if "next_progress R u run thread approval ?w1 = (Inr p, w2)" for p w2
    using that by (auto simp: next_progress_def split: if_splits)
  from rec show ?thesis
  proof (cases rule: reconcile_run_Inr)
    case (matched p w2)
    have "record_decision e3 rid sub u (aw_db w2) = (Inr (run, thread, approval), aw_db w2)"
      using np(2) [OF deps matched(1)] again by simp
    from submit_agent_approval_rows [OF this] show ?thesis
      using matched np(1) [OF deps matched(1)] by (simp add: reconcile_run_def safe_run_result_def)
  next
    case (stored p w2 d)
    have d2: "same_runs d1 (aw_db w2)" using np(2) [OF deps stored(1)] by simp
    let ?run = "updated_run e2 run (run_values p)"
    have "run \<in> set (agent_runs d1)" using rows by (simp add: get_owned_run_iff)
    then have found: "get_owned_run rid u d = Some ?run"
      using rows(1) d2 persist_progress_runs [OF stored(2)] ids
      by (auto simp: get_owned_run_def same_runs_def wf_runs_def intro!: find_replaced [of _ _ run])
    have status: "run_status_col ?run \<in> set terminal_run_statuses"
      using run_snapshot_status [OF stored(4) [unfolded ids] found] assms(6) by simp
    then obtain out where p: "p = Finished out"
      using updated_run_status(1) by (cases p) (auto simp: terminal_run_statuses_def)
    have d: "d = (aw_db w2)\<lparr>agent_runs := replace_row run_id ?run (agent_runs (aw_db w2))\<rparr>"
      using stored(2) persist_progress_Finished unfolding p by blast
    have "record_decision e3 rid sub u d = (Inr (?run, thread, approval), d)"
      using found rows(3,4) d2 same status
      by (intro record_decision_recognizes)
        (auto simp: d get_owned_thread_def get_owned_approval_def same_runs_def same_submission_def)
    moreover have "next_progress R u ?run thread approval w' = (Inr p, w')"
      using np(3) [OF deps stored(1) p] av [OF stored(1)] stored(3) by (simp add: next_progress_def Let_def p)
    ultimately show ?thesis
      using submit_agent_approval_rows [of e3 rid sub u w'] stored(3,4) status updated_run_matches [of e2 run p]
      by (simp add: reconcile_run_def safe_run_result_def is_finished_def p)
  qed
qed

section \<open>Decisions are final\<close>

text \<open>What every request keeps: well-formed tables, and the approvals that have been decided.\<close>

definition keeps_decisions :: "db \<Rightarrow> db \<Rightarrow> bool" where
  "keeps_decisions d d' \<longleftrightarrow>
     (wf_runs d \<longrightarrow> wf_runs d' \<and>
        (\<forall>a \<in> set (agent_approvals d). ap_decision a \<noteq> APPROVAL_PENDING \<longrightarrow> a \<in> set (agent_approvals d')))"

lemma keeps_decisions_refl [simp]: "keeps_decisions d d"
  by (simp add: keeps_decisions_def)

lemma keeps_decisions_trans [trans]: "keeps_decisions d d' \<Longrightarrow> keeps_decisions d' d'' \<Longrightarrow> keeps_decisions d d''"
  by (auto simp: keeps_decisions_def)

lemma same_runs_keeps: "same_runs d d' \<Longrightarrow> keeps_decisions d d'"
  by (simp add: same_runs_def keeps_decisions_def wf_runs_def)

lemma update_run_keeps: "update_run e n r vs d = Inr d' \<Longrightarrow> keeps_decisions d d'"
  by (auto simp: keeps_decisions_def wf_runs_def row_simps simp del: set_map dest!: update_run_Inr)

lemma create_thread_keeps: "create_thread e n i u g d = Inr d' \<Longrightarrow> keeps_decisions d d'"
  by (auto simp: create_thread_def Let_def result_Inr keeps_decisions_def wf_runs_def flush_row_ok new_thread_def
      list_all_iff)

lemma create_run_keeps: "create_run e n i t u v d = Inr d' \<Longrightarrow> keeps_decisions d d'"
  by (auto simp: create_run_def Let_def result_Inr keeps_decisions_def wf_runs_def flush_row_ok new_run_def
      list_all_iff)

lemma create_approval_keeps: "create_approval e n i r u k fp d = Inr d' \<Longrightarrow> keeps_decisions d d'"
  by (auto simp: create_approval_def Let_def result_Inr keeps_decisions_def wf_runs_def flush_row_ok new_approval_def
      approval_constraints_def list_all_iff) (metis image_eqI)

lemma transaction_keeps:
  assumes "\<And>r x. body d = Inr (r, x) \<Longrightarrow> keeps_decisions d x"
  shows "keeps_decisions d (committed (snd (transaction outcome body (open_session d))))"
  using assms by (auto intro!: transaction_preserves [where P = "keeps_decisions d"])

lemma record_decision_keeps: "keeps_decisions d (snd (record_decision e rid sub u d))"
proof -
  obtain res d' where rd: "record_decision e rid sub u d = (res, d')" by force
  then show ?thesis
  proof (cases rule: record_decision_cases)
    case (recorded run thread approval)
    have "keeps_decisions d d'"
      unfolding keeps_decisions_def
    proof (intro impI conjI ballI)
      assume wf: "wf_runs d"
      then have mem: "approval \<in> set (agent_approvals d)" using recorded(3) by (simp add: get_owned_approval_iff)
      then show "wf_runs d'" using wf recorded(8) wf_runs_decided_db by simp
      have inj: "inj_on ap_id (set (agent_approvals d))" using wf by (simp add: wf_runs_def distinct_map)
      fix a assume a: "a \<in> set (agent_approvals d)" "ap_decision a \<noteq> APPROVAL_PENDING"
      then have "ap_id a \<noteq> ap_id approval" using inj_onD [OF inj _ a(1) mem] recorded(4) by auto
      then show "a \<in> set (agent_approvals d')"
        using a recorded(8) by (auto simp: decided_db_def intro: replace_row_other)
    qed
    then show ?thesis by (simp add: rd)
  qed (simp_all add: rd)
qed

lemma workflow_call_db: "aw_db (snd (workflow_call tid w r)) = snd (snd r)"
  by (cases r) (simp add: workflow_call_def)

lemma durable_same_runs:
  assumes "domain_runtime R"
  shows "same_runs d (snd (snd (start_durable (runtime_graph R rid u) goal d)))"
    and "same_runs d (snd (snd (continue_durable (runtime_graph R rid u) cp d)))"
  using run_graph_same_runs [OF assms]
  by (auto simp: start_durable_def continue_durable_def resume_checkpoint_def advance_db split: option.split)

lemma next_progress_same_runs:
  "domain_runtime R \<Longrightarrow> same_runs (aw_db w) (aw_db (snd (next_progress R u run thread approval w)))"
  by (auto simp: next_progress_def Let_def workflow_call_db durable_same_runs resume_durable_same_runs
      split: inspection.split sum.split)

lemma persist_progress_keeps: "persist_progress e u run p d = Inr (r, d') \<Longrightarrow> keeps_decisions d d'"
  by (cases p) (auto simp: persist_progress_def result_Inr dest!: update_run_keeps create_approval_keeps
      intro: keeps_decisions_trans split: option.splits if_splits)

lemma reconcile_run_keeps:
  assumes "domain_runtime R"
  shows "keeps_decisions (aw_db w) (aw_db (snd (reconcile_run R e u (run, thread, approval) w)))"
proof -
  obtain p w2 where np: "next_progress R u run thread approval w = (p, w2)" by force
  then have "keeps_decisions (aw_db w) (aw_db w2)"
    using same_runs_keeps [OF next_progress_same_runs [OF assms]] by (metis snd_conv)
  moreover have "keeps_decisions (aw_db w2)
      (committed (snd (transaction (env_commit e) (persist_progress e u run q) (open_session (aw_db w2)))))" for q
    by (rule transaction_keeps) (rule persist_progress_keeps)
  ultimately show ?thesis
    using keeps_decisions_trans
    by (auto simp: reconcile_run_def np split: sum.split prod.split) (metis snd_conv)+
qed

lemma submit_agent_approval_keeps:
  assumes "domain_runtime R"
  shows "keeps_decisions (aw_db w) (aw_db (snd (submit_agent_approval R locked e1 e2 rid sub u w)))"
proof -
  obtain r d where rd: "record_decision e1 rid sub u (aw_db w) = (r, d)" by force
  then have kd: "keeps_decisions (aw_db w) d" using record_decision_keeps by (metis snd_conv)
  have "keeps_decisions d (aw_db (snd (reconcile_run R e2 u rows (w\<lparr>aw_db := d\<rparr>))))" for rows
    using reconcile_run_keeps [OF assms, of "w\<lparr>aw_db := d\<rparr>"] by (cases rows) simp
  then show ?thesis
    using kd keeps_decisions_trans by (auto simp: submit_agent_approval_def rd snd_map_prod split: sum.split)
qed

lemma start_body_keeps: "start_body e goal u p d = Inr (r, d') \<Longrightarrow> keeps_decisions d d'"
  by (cases p) (auto simp: start_body_def start_records_def result_Inr
      dest!: create_thread_keeps create_run_keeps update_run_keeps create_approval_keeps intro: keeps_decisions_trans)

lemma start_agent_run_keeps:
  assumes "domain_runtime R"
  shows "keeps_decisions (aw_db w) (aw_db (snd (start_agent_run R e goal u w)))"
proof -
  let ?c = "workflow_call (env_ids e 0) w (start_durable (runtime_graph R (env_ids e 1) u) goal (aw_db w))"
  obtain p w2 where c: "?c = (p, w2)" by force
  have "aw_db w2 = snd (snd (start_durable (runtime_graph R (env_ids e 1) u) goal (aw_db w)))"
    using workflow_call_db [of "env_ids e 0" w] c by (metis snd_conv)
  then have "keeps_decisions (aw_db w) (aw_db w2)"
    using same_runs_keeps [OF durable_same_runs(1) [OF assms]] by simp
  moreover have "keeps_decisions (aw_db w2)
      (committed (snd (transaction (env_commit e) (start_body e goal u q) (open_session (aw_db w2)))))" for q
    by (rule transaction_keeps) (rule start_body_keeps)
  moreover obtain r s where t: "transaction (env_commit e) (start_body e goal u (projr p)) (open_session (aw_db w2)) = (r, s)"
    by force
  ultimately have "keeps_decisions (aw_db w) (committed s)" "keeps_decisions (aw_db w) (aw_db w2)"
    using keeps_decisions_trans by (metis snd_conv)+
  then show ?thesis
    using t by (cases p; cases r) (auto simp: start_agent_run_def c simp del: One_nat_def split: sum.split)
qed

text \<open>The requests that write agent records, and what a sequence of them leaves.\<close>

datatype agent_request =
    Start_run env planning_goal uuid
  | Submit_approval bool env env uuid submission uuid
  | Create_thread env string uuid
  | Create_run env uuid uuid

fun serve_agent :: "runtime \<times> agent_request \<Rightarrow> agent_world \<Rightarrow> agent_world" where
  "serve_agent (R, Start_run e goal u) w = snd (start_agent_run R e goal u w)"
| "serve_agent (R, Submit_approval locked e1 e2 rid sub u) w = snd (submit_agent_approval R locked e1 e2 rid sub u w)"
| "serve_agent (R, Create_thread e goal u) w =
     w\<lparr>aw_db := committed (snd (create_agent_thread_with_initial_run e goal u (open_session (aw_db w))))\<rparr>"
| "serve_agent (R, Create_run e tid u) w = w\<lparr>aw_db := committed (snd (create_agent_run e tid u (open_session (aw_db w))))\<rparr>"

lemma serve_agent_keeps: "domain_runtime (fst q) \<Longrightarrow> keeps_decisions (aw_db w) (aw_db (serve_agent q w))"
  by (cases q; cases "snd q")
     (auto simp: start_agent_run_keeps submit_agent_approval_keeps create_agent_thread_with_initial_run_def
        create_agent_run_def result_Inr dest!: create_thread_keeps create_run_keeps
        intro!: transaction_keeps intro: keeps_decisions_trans split: sum.split)

lemma serve_all_keeps:
  "\<forall>q \<in> set qs. domain_runtime (fst q) \<Longrightarrow> keeps_decisions (aw_db w) (aw_db (fold serve_agent qs w))"
  by (induction qs arbitrary: w) (auto intro: keeps_decisions_trans serve_agent_keeps)

text \<open>C10: a decision is final. Whatever requests of whatever users follow, with whatever faults, an
  approval that has been decided keeps its decision, feedback, fingerprint and time of decision; it is
  never reopened, overwritten or removed.\<close>

theorem approval_decision_final:
  assumes "\<forall>q \<in> set qs. domain_runtime (fst q)" "wf_runs (aw_db w)"
    and "get_owned_approval rid u revision (aw_db w) = Some a" "ap_decision a \<noteq> APPROVAL_PENDING"
  shows "get_owned_approval rid u revision (aw_db (fold serve_agent qs w)) = Some a"
  using serve_all_keeps [OF assms(1), of w] assms(2-4) by (auto simp: keeps_decisions_def get_owned_approval_iff)

lemma update_run_Inl: "update_run e n r vs d = Inl x \<Longrightarrow> x \<noteq> AgentRunConflictError"
  by (auto simp: update_run_def Let_def bind_result_eq_Inl dest!: flush_row_Inl)

lemma create_approval_Inl: "create_approval e n i r u k fp d = Inl x \<Longrightarrow> x \<noteq> AgentRunConflictError"
  by (auto simp: create_approval_def Let_def bind_result_eq_Inl dest!: flush_row_Inl)

lemma persist_progress_Inl: "persist_progress e u run p d = Inl x \<Longrightarrow> x \<noteq> AgentRunConflictError"
  by (cases p) (auto simp: persist_progress_def bind_result_eq_Inl dest!: update_run_Inl create_approval_Inl
      split: option.splits if_splits)

lemma run_snapshot_Inl: "run_snapshot rid u d = Inl x \<Longrightarrow> x \<noteq> AgentRunConflictError"
  by (auto simp: run_snapshot_def bind_result_eq_Inl validate_public_thread_def validate_public_run_def
      validate_run_metrics_def validate_public_approval_def Let_def split: option.splits if_splits)

lemma next_progress_Inl: "next_progress R u run thread approval w = (Inl x, w') \<Longrightarrow> x = AgentWorkflowUnavailableError"
  by (auto simp: next_progress_def workflow_call_def Let_def split: if_splits inspection.splits sum.splits prod.splits)

lemma reconcile_run_no_conflict:
  assumes "reconcile_run R e u (run, thread, approval) w = (Inl x, w')"
  shows "x \<noteq> AgentRunConflictError"
proof -
  obtain p w2 where np: "next_progress R u run thread approval w = (p, w2)" by force
  obtain r s where t: "transaction (env_commit e) (persist_progress e u run (projr p)) (open_session (aw_db w2)) = (r, s)"
    by force
  have "y \<noteq> AgentRunConflictError" if "r = Inl y" for y
    using transaction_fst_Inl [of "env_commit e" "persist_progress e u run (projr p)" "open_session (aw_db w2)" y]
      t that persist_progress_Inl by fastforce
  then show ?thesis
    using assms np t next_progress_Inl [of R u run thread approval w] run_snapshot_Inl
    by (cases p; cases r) (auto simp: reconcile_run_def split: if_splits)
qed

text \<open>Refused submissions change nothing. A submission for a run of somebody else, for an unknown
  revision, with a fingerprint other than the recorded one, or contradicting a recorded decision is
  answered as not found or as a conflict, and neither a row nor a checkpoint changes; a submission that
  is answered so never changes anything, for whatever reason.\<close>

theorem refused_submission:
  "(get_owned_run rid u (aw_db w) = None \<longrightarrow>
      submit_agent_approval R True e1 e2 rid sub u w = (Inl AgentRunNotFoundError, w)) \<and>
   (\<forall>run. get_owned_run rid u (aw_db w) = Some run \<and>
      (\<forall>a. get_owned_approval rid u (int (sub_revision sub)) (aw_db w) = Some a \<longrightarrow>
         ap_fingerprint a \<noteq> sub_fingerprint sub \<or>
         ap_decision a \<notin> {APPROVAL_PENDING, decision_status (sub_decision sub)}) \<longrightarrow>
      submit_agent_approval R True e1 e2 rid sub u w = (Inl AgentRunConflictError, w)) \<and>
   (\<forall>w'. submit_agent_approval R locked e1 e2 rid sub u w = (Inl AgentRunConflictError, w') \<longrightarrow> w' = w)"
proof (intro conjI allI impI)
  show "submit_agent_approval R True e1 e2 rid sub u w = (Inl AgentRunNotFoundError, w)"
    if "get_owned_run rid u (aw_db w) = None"
    using that by (simp add: submit_agent_approval_def record_decision_def safe_run_result_def safe_run_error_def)
  show "submit_agent_approval R True e1 e2 rid sub u w = (Inl AgentRunConflictError, w)"
    if "get_owned_run rid u (aw_db w) = Some run \<and>
      (\<forall>a. get_owned_approval rid u (int (sub_revision sub)) (aw_db w) = Some a \<longrightarrow>
         ap_fingerprint a \<noteq> sub_fingerprint sub \<or>
         ap_decision a \<notin> {APPROVAL_PENDING, decision_status (sub_decision sub)})" for run
  proof -
    have "record_decision e1 rid sub u (aw_db w) = (Inl AgentRunConflictError, aw_db w)"
      using that by (auto simp: record_decision_def same_submission_def split: option.split)
    then show ?thesis by (simp add: submit_agent_approval_def safe_run_result_def safe_run_error_def)
  qed
  fix w' assume conflict: "submit_agent_approval R locked e1 e2 rid sub u w = (Inl AgentRunConflictError, w')"
  obtain r d where rd: "record_decision e1 rid sub u (aw_db w) = (r, d)" by force
  obtain v w2 where v: "reconcile_run R e2 u (projr r) (w\<lparr>aw_db := d\<rparr>) = (v, w2)" by force
  have "v \<noteq> Inl AgentRunConflictError"
    using reconcile_run_no_conflict v by (metis prod_cases3)
  then have "r = Inl AgentRunConflictError" "w' = w\<lparr>aw_db := d\<rparr>"
    using conflict rd v
    by (cases r; cases v; auto simp: submit_agent_approval_def safe_run_result_def safe_run_error_def split: if_splits)+
  moreover have "d = aw_db w" using rd calculation(1) by (cases rule: record_decision_cases) auto
  ultimately show "w' = w" by simp
qed

section \<open>Token totals\<close>

text \<open>C19: a run whose provider reports inconsistent token counters can never be stored. The workflow keeps the
  counters as reported (a missing one is stored as 0), while the table demands that the total is the sum;
  so, once the workflow has ended with such counters, every submission of the decision answers that the
  workflow is unavailable, whatever the faults, and the run is never brought to an end.\<close>

theorem inconsistent_usage_unstorable:
  assumes "record_decision e1 rid sub u (aw_db w) = (Inr (run, thread, approval), aw_db w)"
    and "run_total_tokens run = run_input_tokens run + run_output_tokens run"
    and "inspect_durable (rt_digest R) (aw_checkpoints w (th_id thread)) = TERMINAL out" "out_metrics out = Some m"
    and "or_zero (met_total_tokens m) \<noteq> or_zero (met_input_tokens m) + or_zero (met_output_tokens m)"
  shows "submit_agent_approval R locked e1 e2 rid sub u w = (Inl AgentWorkflowUnavailableError, w)"
proof -
  let ?r = "updated_run e2 run (run_values (Finished out))"
  have "\<not> run_already_matches run (Finished out)"
    using assms(2,4,5) by (auto simp: run_already_matches_def)
  moreover have "run_total_tokens ?r \<noteq> run_input_tokens ?r + run_output_tokens ?r"
    using assms(4,5) by (simp add: updated_run_def)
  then have "\<not> list_all snd (run_constraints (aw_db w) ?r)" by (simp add: run_constraints_def)
  then obtain x where x: "update_run e2 0 run (run_values (Finished out)) (aw_db w) = Inl x"
    "x = DatabaseError \<or> (\<exists>c. x = IntegrityError c)"
    using flush_row_ok [of e2 0 "run_lengths ?r" "run_constraints (aw_db w) ?r"] flush_row_Inl
    by (cases "flush_row e2 0 (run_lengths ?r) (run_constraints (aw_db w) ?r)")
       (auto simp: update_run_def Let_def simp del: run_values.simps)
  then have "persist_progress e2 u run (Finished out) (aw_db w) = Inl x"
    by (simp add: persist_progress_def del: run_values.simps)
  then have "transaction (env_commit e2) (persist_progress e2 u run (Finished out)) (open_session (aw_db w)) =
      (Inl x, session_rollback (open_session (aw_db w)))"
    by (simp add: transaction_Inl_body)
  ultimately show ?thesis
    using assms(1,3) x(2)
    by (auto simp: submit_agent_approval_def reconcile_run_def next_progress_def Let_def safe_run_result_def safe_run_error_def)
qed

section \<open>A concrete run\<close>

definition demo_runtime :: runtime where
  "demo_runtime = \<lparr>rt_rules = demo_rules_json, rt_digest = demo_digest, rt_dump = demo_dump, rt_uuid_text = (\<lambda>_. []),
     rt_planner = (\<lambda>_. demo_planner), rt_gateway = demo_gateway, rt_attempts = (\<lambda>_. demo_attempt), rt_available = True\<rparr>"

definition demo_thread :: agent_thread where
  "demo_thread = \<lparr>th_id = 60, th_user_id = 1, th_goal_summary = ''Goal'', th_status = THREAD_ACTIVE,
     th_created_at = 0, th_updated_at = 0\<rparr>"

definition demo_pending :: agent_approval where
  "demo_pending = demo_approval\<lparr>ap_decision := APPROVAL_PENDING, ap_decided_at := None\<rparr>"

definition demo_runs_db :: db where
  "demo_runs_db = demo_tasks_db\<lparr>agent_threads := [demo_thread],
     agent_runs := [demo_run\<lparr>run_status_col := RUN_PENDING_APPROVAL\<rparr>], agent_approvals := [demo_pending]\<rparr>"

definition demo_checkpoint :: "run_metrics option \<Rightarrow> checkpoint" where
  "demo_checkpoint metrics = \<lparr>cp_next = Some REQUEST_APPROVAL, cp_state = demo_validated\<lparr>gs_metrics := metrics\<rparr>,
     cp_interrupt = Some demo_request\<rparr>"

definition demo_agent_world :: "run_metrics option \<Rightarrow> agent_world" where
  "demo_agent_world metrics = \<lparr>aw_db = demo_runs_db, aw_checkpoints = (\<lambda>_. None)(60 := Some (demo_checkpoint metrics))\<rparr>"

definition demo_submission :: submission where
  "demo_submission = \<lparr>sub_revision = 0, sub_fingerprint = replicate 64 CHR ''1'', sub_decision = REJECTED, sub_feedback = None\<rparr>"

definition demo_output :: "run_metrics option \<Rightarrow> graph_output" where
  "demo_output metrics = \<lparr>out_status = TERMINAL_REJECTED, out_plan = Some (proposal_result demo_proposal),
     out_summary = ''Plan was rejected; no task actions were executed.'', out_execution_records = [], out_metrics = metrics\<rparr>"

lemma build_approval_request_metrics:
  "build_approval_request P D R ctx (s\<lparr>gs_metrics := m\<rparr>) = build_approval_request P D R ctx s"
proof -
  have fields: "gs_proposal (s\<lparr>gs_metrics := m\<rparr>) = gs_proposal s" "gs_validation (s\<lparr>gs_metrics := m\<rparr>) = gs_validation s"
    "gs_revision_count (s\<lparr>gs_metrics := m\<rparr>) = gs_revision_count s" by simp_all
  show ?thesis unfolding build_approval_request_def current_validated_fingerprint_def fields ..
qed

lemma demo_checkpoint_inv:
  "checkpoint_inv (runtime_graph demo_runtime 70 1) (Inr (Approval_needed demo_request)) (demo_checkpoint metrics)"
proof -
  have "build_approval_request demo_rules_json demo_digest demo_dump demo_ctx (demo_validated\<lparr>gs_metrics := metrics\<rparr>) =
      build_approval_request demo_rules_json demo_digest demo_dump demo_ctx demo_validated"
    by (rule build_approval_request_metrics)
  then show ?thesis
    using demo_request_built demo_proposal_ok
    by (simp add: checkpoint_inv_def demo_checkpoint_def runtime_graph_def Let_def demo_runtime_def demo_ctx_def
        run_inv_def graph_state_ok_def demo_validated_def initial_state_def)
qed

text \<open>A rejected plan ends its run as rejected, with the counters it had.\<close>

lemma resume_rejected:
  assumes "graph_state_ok s" "gs_workflow_error s = None" "gs_execution_records s = []" "gs_proposal s = Some proposal"
    and "build_approval_request (gd_rules g) (gd_digest g) (gd_dump g) (gd_context g) s = Inr req"
    and "graph_deps_ok g"
  shows "\<exists>s'. resume_durable g \<lparr>resp_decision = REJECTED, resp_feedback = None\<rparr>
       \<lparr>cp_next = Some REQUEST_APPROVAL, cp_state = s, cp_interrupt = Some req\<rparr> d =
     (Inr (Finished \<lparr>out_status = TERMINAL_REJECTED, out_plan = Some (proposal_result proposal),
        out_summary = ''Plan was rejected; no task actions were executed.'', out_execution_records = [],
        out_metrics = gs_metrics s\<rparr>), \<lparr>cp_next = None, cp_state = s', cp_interrupt = None\<rparr>, d)"
    (is "\<exists>s'. resume_durable g ?a ?cp d = (Inr (Finished ?out), _, d)")
proof -
  define s1 where "s1 = apply_approval_response s ?a (req_fingerprint req)"
  define v where "v = \<lparr>ver_status = VERIFICATION_REJECTED, ver_checked = 0, ver_error_code = None\<rparr>"
  define s2 where "s2 = s1\<lparr>gs_verification := Some v, gs_terminal_status := Some TERMINAL_REJECTED\<rparr>"
  define s3 where "s3 = s2\<lparr>gs_terminal_status := Some TERMINAL_REJECTED, gs_summary := Some (out_summary ?out)\<rparr>"
  obtain w where w: "gs_validation s = Some w" "val_status w = VALID" "val_revision w = gs_revision_count s"
    "val_fingerprint w = Some (req_fingerprint req)" "req_fingerprint req = fingerprint_plan_proposal (gd_digest g) proposal"
    using assms(4,5) by (auto elim!: build_approval_request_Inr)
  have node: "approval_node g (Durable (Some ?a)) s = Updated s1"
    using assms(5) by (simp add: approval_node_def interrupt_for_approval_def approval_response_def s1_def)
  have route: "graph_route REQUEST_APPROVAL s1 = Inr (Some VERIFY_RESULT)"
    using assms(2)
    by (simp add: s1_def apply_approval_response_def graph_route_def route_approval_def route_after_approval_def Let_def)
  have verify: "verify_result (gd_digest g) x = (v, TERMINAL_REJECTED)" if "x \<in> {s1, s2, s3}" for x
    using that assms(2-4) w
    by (auto simp: s1_def s2_def s3_def v_def verify_result_def has_current_plan_binding_def apply_approval_response_def Let_def)
  have trim: "strip ''Plan was rejected; no task actions were executed.'' = ''Plan was rejected; no task actions were executed.''"
    by code_simp
  have out: "summarize (gd_digest g) x = Inr ?out" if "x \<in> {s2, s3}" for x
    using that verify [of x] assms(3,4)
    by (auto simp: summarize_def s2_def s3_def s1_def v_def summary_text_def graph_output_def bounded_text_def
        apply_approval_response_def Let_def trim)
  have "bounded 2000 ''Plan was rejected; no task actions were executed.''" by code_simp
  moreover have "digest_format (req_fingerprint req)"
    using assms(6) w(5) by (simp add: graph_deps_ok_def fingerprint_plan_proposal_def)
  ultimately have oks: "graph_state_ok s1" "graph_state_ok s2" "graph_state_ok s3"
    using assms(1) by (simp_all add: graph_state_ok_def s1_def s2_def s3_def apply_approval_response_def Let_def)
  have "verification_node g s1 = s2" "summary_node g s2 = Updated s3"
    using verify [of s1] out [of s2] by (simp_all add: verification_node_def summary_node_def s2_def s3_def)
  then have "run_graph g (Durable (Some ?a)) agent_graph_recursion_limit REQUEST_APPROVAL s d = (Completed s3, d)"
    using node route oks assms(1) by (simp add: agent_graph_recursion_limit_def numeral_eq_Suc run_graph_node_def graph_route_def)
  then show ?thesis
    using out [of s3] oks(3)
    by (simp add: resume_durable_def resume_checkpoint_def advance_def inspect_snapshot_def s3_def [symmetric])
       (simp add: s3_def)
qed

lemma demo_runtime_ok: "domain_runtime demo_runtime" "graph_deps_ok (runtime_graph demo_runtime i u)"
  using demo_graph_ok
  by (auto simp: domain_runtime_def demo_runtime_def demo_gateway_def graph_deps_ok_def runtime_graph_def demo_graph_def Let_def)

lemma demo_runs_wf: "wf_runs demo_runs_db"
  by (simp add: wf_runs_def demo_runs_db_def demo_pending_def demo_approval_def demo_run_def)

lemma demo_sound: "checkpoint_sound demo_runtime 70 1 (aw_checkpoints (demo_agent_world metrics) tid)"
  using demo_checkpoint_inv [of metrics] by (auto simp: checkpoint_sound_def demo_agent_world_def)

lemma demo_resume:
  "\<exists>s. resume_durable (runtime_graph demo_runtime 70 1) \<lparr>resp_decision = REJECTED, resp_feedback = None\<rparr> (demo_checkpoint metrics) d =
     (Inr (Finished (demo_output metrics)), \<lparr>cp_next = None, cp_state = s, cp_interrupt = None\<rparr>, d)"
proof -
  let ?s = "demo_validated\<lparr>gs_metrics := metrics\<rparr>"
  have "graph_state_ok ?s" "gs_workflow_error ?s = None" "gs_execution_records ?s = []" "gs_proposal ?s = Some demo_proposal"
    by (simp_all add: graph_state_ok_def demo_validated_def initial_state_def)
  moreover have "build_approval_request (gd_rules (runtime_graph demo_runtime 70 1)) (gd_digest (runtime_graph demo_runtime 70 1))
      (gd_dump (runtime_graph demo_runtime 70 1)) (gd_context (runtime_graph demo_runtime 70 1)) ?s = Inr demo_request"
    using demo_checkpoint_inv [of metrics] by (auto simp: checkpoint_inv_def demo_checkpoint_def)
  ultimately show ?thesis
    using resume_rejected [OF _ _ _ _ _ demo_runtime_ok(2)] unfolding demo_checkpoint_def demo_output_def
    by fastforce
qed

definition demo_running :: agent_run where
  "demo_running = updated_run demo_env (demo_run\<lparr>run_status_col := RUN_PENDING_APPROVAL\<rparr>) [R_status RUN_RUNNING]"

definition demo_rejected :: agent_approval where
  "demo_rejected = decided_approval demo_env demo_submission demo_pending"

definition demo_decided_db :: db where
  "demo_decided_db = demo_runs_db\<lparr>agent_runs := [demo_running], agent_approvals := [demo_rejected]\<rparr>"

lemma demo_recorded:
  "record_decision demo_env 70 demo_submission 1 demo_runs_db = (Inr (demo_running, demo_thread, demo_rejected), demo_decided_db)"
  "record_decision demo_env 70 demo_submission 1 demo_decided_db = (Inr (demo_running, demo_thread, demo_rejected), demo_decided_db)"
  by code_simp+

lemma demo_progress:
  "\<exists>s. next_progress demo_runtime 1 demo_running demo_thread demo_rejected ((demo_agent_world metrics)\<lparr>aw_db := demo_decided_db\<rparr>) =
     (Inr (Finished (demo_output metrics)), \<lparr>aw_db = demo_decided_db,
        aw_checkpoints = (\<lambda>_. None)(60 := Some \<lparr>cp_next = None, cp_state = s, cp_interrupt = None\<rparr>)\<rparr>)"
proof -
  have "run_id demo_running = 70" "th_id demo_thread = 60" "run_status_col demo_running = RUN_RUNNING"
    "stored_response demo_rejected = Inr \<lparr>resp_decision = REJECTED, resp_feedback = None\<rparr>"
    "ap_revision demo_rejected = int (req_revision demo_request)" "rt_available demo_runtime"
    by code_simp+
  moreover have "ap_fingerprint demo_rejected = req_fingerprint demo_request"
    by (simp add: demo_rejected_def demo_pending_def demo_approval_def demo_request_def demo_fingerprint)
  ultimately show ?thesis
    using demo_resume [of metrics demo_decided_db]
    by (auto simp: next_progress_def Let_def inspect_durable_def demo_agent_world_def inspect_snapshot_def
        demo_checkpoint_def workflow_call_def)
qed


lemma demo_stored:
  "case transaction (env_commit demo_env) (persist_progress demo_env 1 demo_running (Finished (demo_output None)))
      (open_session demo_decided_db) of
     (Inl _, _) \<Rightarrow> False
   | (Inr _, s) \<Rightarrow> (case run_snapshot 70 1 (committed s) of
        Inl _ \<Rightarrow> False | Inr snap \<Rightarrow> pr_status (snap_run snap) = RUN_REJECTED)"
  by code_simp

theorem finished_submission_idempotent_witness:
  "\<exists>snap w. submit_agent_approval demo_runtime True demo_env demo_env 70 demo_submission 1 (demo_agent_world None) = (Inr snap, w) \<and>
     submit_agent_approval demo_runtime True demo_env demo_env 70 demo_submission 1 w = (Inr snap, w)"
proof -
  obtain s where np: "next_progress demo_runtime 1 demo_running demo_thread demo_rejected
      ((demo_agent_world None)\<lparr>aw_db := demo_decided_db\<rparr>) = (Inr (Finished (demo_output None)), \<lparr>aw_db = demo_decided_db,
        aw_checkpoints = (\<lambda>_. None)(60 := Some \<lparr>cp_next = None, cp_state = s, cp_interrupt = None\<rparr>)\<rparr>)" (is "_ = (_, ?w)")
    using demo_progress [of None] by blast
  obtain t where t: "transaction (env_commit demo_env) (persist_progress demo_env 1 demo_running (Finished (demo_output None)))
      (open_session demo_decided_db) = (Inr (), t)"
    and "case run_snapshot 70 1 (committed t) of Inl _ \<Rightarrow> False | Inr snap \<Rightarrow> pr_status (snap_run snap) = RUN_REJECTED"
    using demo_stored by (auto split: prod.splits sum.splits)
  then obtain snap where snap: "run_snapshot 70 1 (committed t) = Inr snap" "pr_status (snap_run snap) = RUN_REJECTED"
    by (auto split: sum.splits)
  have running: "run_id demo_running = 70" "run_status_col demo_running \<notin> set terminal_run_statuses"
    by code_simp+
  have rd: "record_decision demo_env 70 demo_submission 1 (aw_db (demo_agent_world None)) =
      (Inr (demo_running, demo_thread, demo_rejected), demo_decided_db)"
    using demo_recorded by (simp add: demo_agent_world_def)
  have first: "submit_agent_approval demo_runtime True demo_env demo_env 70 demo_submission 1 (demo_agent_world None) =
      (Inr snap, ?w\<lparr>aw_db := committed t\<rparr>)"
    using np t snap running submit_agent_approval_rows [OF rd] by (simp add: reconcile_run_def safe_run_result_def)
  moreover have "wf_runs (aw_db (demo_agent_world None))" using demo_runs_wf by (simp add: demo_agent_world_def)
  ultimately show ?thesis
    using finished_submission_idempotent [OF demo_runtime_ok, of "demo_agent_world None" 70 1 demo_env demo_env demo_submission snap
        "?w\<lparr>aw_db := committed t\<rparr>" demo_env demo_env] demo_sound [of None] snap(2)
    by (auto simp: terminal_run_statuses_def)
qed

theorem approval_decision_final_witness:
  "get_owned_approval 70 1 0 (aw_db (fold serve_agent
     [(demo_runtime, Submit_approval True demo_env demo_env 70 demo_submission 1)]
     ((demo_agent_world None)\<lparr>aw_db := demo_exec_db\<rparr>))) = Some demo_approval"
proof -
  have "get_owned_approval 70 1 0 demo_exec_db = Some demo_approval" "ap_decision demo_approval \<noteq> APPROVAL_PENDING" "wf_runs demo_exec_db"
    by code_simp+
  then show ?thesis
    using approval_decision_final [of "[(demo_runtime, Submit_approval True demo_env demo_env 70 demo_submission 1)]"
        "(demo_agent_world None)\<lparr>aw_db := demo_exec_db\<rparr>" 70 1 0 demo_approval] demo_runtime_ok(1)
    by simp
qed

theorem refused_submission_witness:
  "submit_agent_approval demo_runtime True demo_env demo_env 70 (demo_submission\<lparr>sub_fingerprint := ''other''\<rparr>) 1
     (demo_agent_world None) = (Inl AgentRunConflictError, demo_agent_world None)"
proof -
  have "get_owned_run 70 1 (aw_db (demo_agent_world None)) = Some (demo_run\<lparr>run_status_col := RUN_PENDING_APPROVAL\<rparr>)"
    "get_owned_approval 70 1 (int (sub_revision (demo_submission\<lparr>sub_fingerprint := ''other''\<rparr>))) (aw_db (demo_agent_world None)) =
       Some demo_pending"
    "ap_fingerprint demo_pending \<noteq> ''other''"
    by code_simp+
  then show ?thesis
    using refused_submission [of 70 1 "demo_agent_world None" demo_runtime demo_env demo_env
        "demo_submission\<lparr>sub_fingerprint := ''other''\<rparr>" True] by auto
qed

theorem inconsistent_usage_unstorable_witness:
  "\<exists>w. aw_db w = demo_decided_db \<and>
     submit_agent_approval demo_runtime True demo_env demo_env 70 demo_submission 1 w = (Inl AgentWorkflowUnavailableError, w)"
proof -
  let ?m = "\<lparr>met_prompt_version = ''study-plan.v2'', met_model_round_count = 1, met_provider_attempt_count = 1,
    met_tool_call_count = 0, met_input_tokens = Some 5, met_output_tokens = Some 7, met_total_tokens = None, met_latency_ms = 1\<rparr>"
  obtain s where s: "resume_durable (runtime_graph demo_runtime 70 1) \<lparr>resp_decision = REJECTED, resp_feedback = None\<rparr>
      (demo_checkpoint (Some ?m)) demo_decided_db = (Inr (Finished (demo_output (Some ?m))),
      \<lparr>cp_next = None, cp_state = s, cp_interrupt = None\<rparr>, demo_decided_db)" (is "_ = (_, ?cp, _)")
    using demo_resume by blast
  have inv: "run_inv (runtime_graph demo_runtime 70 1) REQUEST_APPROVAL (cp_state (demo_checkpoint (Some ?m)))"
    "cp_next (demo_checkpoint (Some ?m)) = Some REQUEST_APPROVAL"
    using demo_checkpoint_inv [of "Some ?m"] by (auto simp: checkpoint_inv_def demo_checkpoint_def)
  have "inspect_snapshot demo_digest ?cp = TERMINAL (demo_output (Some ?m))"
    using resume_durable_again [OF demo_runtime_ok(2) inv s] by (simp add: runtime_graph_def demo_runtime_def Let_def)
  then have terminal: "inspect_durable (rt_digest demo_runtime) (((\<lambda>_. None)(60 := Some ?cp)) (th_id demo_thread)) =
      TERMINAL (demo_output (Some ?m))"
    by (simp add: inspect_durable_def demo_runtime_def demo_thread_def)
  let ?w = "\<lparr>aw_db = demo_decided_db, aw_checkpoints = (\<lambda>_. None)(60 := Some ?cp)\<rparr>"
  have "run_total_tokens demo_running = run_input_tokens demo_running + run_output_tokens demo_running" by code_simp
  then have "submit_agent_approval demo_runtime True demo_env demo_env 70 demo_submission 1 ?w = (Inl AgentWorkflowUnavailableError, ?w)"
    using inconsistent_usage_unstorable [of demo_env 70 demo_submission 1 ?w demo_running demo_thread demo_rejected
        demo_runtime "demo_output (Some ?m)" ?m True demo_env] demo_recorded(2) terminal
    by (simp add: demo_output_def or_zero_def)
  then show ?thesis by (intro exI [of _ ?w]) simp
qed

end
