(* ===== verification/Knowledge_Documents.thy ===== *)
theory Knowledge_Documents
  imports Agent_State
begin

text \<open>
  Uploaded knowledge documents: parsing and storage (\<open>app/services/knowledge_documents.py\<close>),
  chunking and indexing (\<open>app/services/knowledge_document_indexing.py\<close>), the embedding port
  (\<open>app/agent/embeddings.py\<close>) and the repositories. The bytes of an upload are a list of characters.
  Parameters are SHA-256, the decoder for UTF-8, the PDF reader (\<open>pypdf\<close>) and the embedding service.
\<close>

section \<open>Parsing\<close>

text \<open>
  What the PDF reader yields: nothing when it raises, else whether the file is encrypted and the text
  of every page, where \<open>None\<close> stands for an extraction that raises.
\<close>

record document_rules =
  dr_decode :: "string \<Rightarrow> string option"
  dr_sha256 :: "string \<Rightarrow> string"
  dr_text_sha256 :: "string \<Rightarrow> string"
  dr_pdf :: "string \<Rightarrow> (bool \<times> string option list) option"

definition max_document_bytes :: nat where "max_document_bytes = 5242880"
definition max_document_pages :: nat where "max_document_pages = 100"
definition max_document_text_characters :: nat where "max_document_text_characters = 200000"
definition max_document_name_characters :: nat where "max_document_name_characters = 255"

definition form_feed :: char where "form_feed = CHR 0x0C"

record parsed_document =
  pd_display_name :: string
  pd_media_type :: string
  pd_byte_count :: nat
  pd_content_sha256 :: string
  pd_page_count :: nat
  pd_extracted_text :: string

definition validate_persisted_text :: "string \<Rightarrow> string result" where
  "validate_persisted_text s = (if CHR 0x00 \<in> set s then Inl KnowledgeDocumentInvalidError else Inr s)"

text \<open>\<open>text.split(separator)\<close> for a separator of one character.\<close>

fun split_on :: "char \<Rightarrow> string \<Rightarrow> string list" where
  "split_on sep [] = [[]]"
| "split_on sep (c # cs) =
     (if c = sep then [] # split_on sep cs
      else case split_on sep cs of w # ws \<Rightarrow> (c # w) # ws | [] \<Rightarrow> [[c]])"

text \<open>\<open>PurePosixPath(text).name\<close>: the last component that is neither empty nor a dot.\<close>

definition path_name :: "string \<Rightarrow> string" where
  "path_name s = (case rev (filter (\<lambda>w. w \<noteq> [] \<and> w \<noteq> ''.'') (split_on CHR ''/'' s)) of [] \<Rightarrow> [] | w # _ \<Rightarrow> w)"

text \<open>\<open>PurePosixPath(name).suffix\<close>: from the last dot on, when another character than dots precedes it.\<close>

definition path_suffix :: "string \<Rightarrow> string" where
  "path_suffix name =
     (let tail = takeWhile (\<lambda>c. c \<noteq> CHR ''.'') (rev name);
          front = drop (length tail) (rev name)
      in case front of
           [] \<Rightarrow> []
         | d # stem \<Rightarrow> if list_ex (\<lambda>c. c \<noteq> CHR ''.'') stem then d # rev tail else [])"

text \<open>\<open>casefold\<close> on the letters of ASCII; no other character folds into an accepted extension.\<close>

definition fold_char :: "char \<Rightarrow> char" where
  "fold_char c = (if char_between CHR ''A'' CHR ''Z'' c then char_of (of_char c + 32 :: nat) else c)"

definition media_types_by_extension :: "(string \<times> string) list" where
  "media_types_by_extension =
     [(''.txt'', ''text/plain''), (''.md'', ''text/markdown''), (''.pdf'', ''application/pdf'')]"

definition display_name :: "string option \<Rightarrow> (string \<times> string) result" where
  "display_name filename =
     (case filename of
        None \<Rightarrow> Inl KnowledgeDocumentInvalidError
      | Some f \<Rightarrow>
          bind_result (validate_persisted_text (strip (path_name (map (\<lambda>c. if c = CHR 0x5C then CHR ''/'' else c) f)))) (\<lambda>name.
            if name = [] \<or> max_document_name_characters < length name then Inl KnowledgeDocumentInvalidError
            else let extension = map fold_char (path_suffix name) in
              if map_of media_types_by_extension extension = None then Inl KnowledgeDocumentInvalidError
              else Inr (name, extension)))"

text \<open>\<open>value.replace("\\r\\n", "\\n").replace("\\r", "\\n")\<close>\<close>

fun join_crlf :: "string \<Rightarrow> string" where
  "join_crlf (c # d # cs) =
     (if c = CHR 0x0D \<and> d = CHR 0x0A then d # join_crlf cs else c # join_crlf (d # cs))"
| "join_crlf cs = cs"

definition normalize_newlines :: "string \<Rightarrow> string" where
  "normalize_newlines s = map (\<lambda>c. if c = CHR 0x0D then CHR 0x0A else c) (join_crlf s)"

definition strip_chars :: "char set \<Rightarrow> string \<Rightarrow> string" where
  "strip_chars cs s = rev (dropWhile (\<lambda>c. c \<in> cs) (rev (dropWhile (\<lambda>c. c \<in> cs) s)))"

definition normalize_text :: "string \<Rightarrow> string result" where
  "normalize_text v =
     bind_result (validate_persisted_text (strip (normalize_newlines v))) (\<lambda>s.
       if s = [] \<or> max_document_text_characters < length s then Inl KnowledgeDocumentInvalidError else Inr s)"

definition normalize_pdf_page :: "string \<Rightarrow> string result" where
  "normalize_pdf_page v =
     validate_persisted_text (strip_chars {CHR '' '', CHR 0x09, CHR 0x0A, CHR 0x0B} (normalize_newlines v))"

definition pdf_signature :: string where "pdf_signature = ''%PDF-''"

definition has_pdf_signature :: "string \<Rightarrow> bool" where
  "has_pdf_signature content \<longleftrightarrow> take (length pdf_signature) content = pdf_signature"

fun pdf_parts :: "nat \<Rightarrow> string option list \<Rightarrow> string list result" where
  "pdf_parts characters [] = Inr []"
| "pdf_parts characters (None # pages) = Inl KnowledgeDocumentInvalidError"
| "pdf_parts characters (Some t # pages) =
     bind_result (normalize_pdf_page t) (\<lambda>part.
       if max_document_text_characters < characters + length part then Inl KnowledgeDocumentInvalidError
       else bind_result (pdf_parts (characters + length part) pages) (\<lambda>parts. Inr (part # parts)))"

definition parse_pdf :: "document_rules \<Rightarrow> string \<Rightarrow> (string \<times> nat) result" where
  "parse_pdf K content =
     (if \<not> has_pdf_signature content then Inl KnowledgeDocumentInvalidError
      else case dr_pdf K content of
             None \<Rightarrow> Inl KnowledgeDocumentInvalidError
           | Some (encrypted, pages) \<Rightarrow>
               if encrypted \<or> length pages < 1 \<or> max_document_pages < length pages
               then Inl KnowledgeDocumentInvalidError
               else bind_result (pdf_parts 0 pages) (\<lambda>parts.
                 let extracted = join_with [form_feed] parts in
                 if list_all (\<lambda>p. p = []) parts \<or> max_document_text_characters < length extracted
                 then Inl KnowledgeDocumentInvalidError else Inr (extracted, length pages)))"

definition parse_knowledge_document ::
  "document_rules \<Rightarrow> string option \<Rightarrow> string option \<Rightarrow> string \<Rightarrow> parsed_document result" where
  "parse_knowledge_document K filename media_type content =
     (if max_document_bytes < length content then Inl KnowledgeDocumentTooLargeError
      else if content = [] then Inl KnowledgeDocumentInvalidError
      else bind_result (display_name filename) (\<lambda>(name, extension).
        case map_of media_types_by_extension extension of
          None \<Rightarrow> Inl KnowledgeDocumentInvalidError
        | Some expected \<Rightarrow>
            if media_type \<noteq> Some expected then Inl KnowledgeDocumentInvalidError
            else bind_result
              (if extension = ''.pdf'' then parse_pdf K content
               else if has_pdf_signature content then Inl KnowledgeDocumentInvalidError
               else case dr_decode K content of
                      None \<Rightarrow> Inl KnowledgeDocumentInvalidError
                    | Some t \<Rightarrow> bind_result (normalize_text t) (\<lambda>s. Inr (s, 1))) (\<lambda>(extracted, pages).
              bind_result (validate_persisted_text extracted) (\<lambda>s.
                Inr \<lparr>pd_display_name = name, pd_media_type = expected, pd_byte_count = length content,
                     pd_content_sha256 = dr_sha256 K content, pd_page_count = pages, pd_extracted_text = s\<rparr>))))"

section \<open>Documents\<close>

definition document_lengths :: "knowledge_document \<Rightarrow> bool" where
  "document_lengths r \<longleftrightarrow> length (kd_display_name r) \<le> 255 \<and> length (kd_media_type r) \<le> 50 \<and> length (kd_content_sha256 r) \<le> 64"

definition new_document :: "env \<Rightarrow> uuid \<Rightarrow> parsed_document \<Rightarrow> knowledge_document" where
  "new_document e user_id p = \<lparr>kd_id = env_ids e 0, kd_user_id = user_id, kd_display_name = pd_display_name p,
     kd_media_type = pd_media_type p, kd_byte_count = int (pd_byte_count p), kd_content_sha256 = pd_content_sha256 p,
     kd_page_count = int (pd_page_count p), kd_extracted_text = pd_extracted_text p, kd_status = PARSED,
     kd_created_at = env_now e, kd_updated_at = env_now e\<rparr>"

definition document_repo_create :: "env \<Rightarrow> uuid \<Rightarrow> parsed_document \<Rightarrow> db \<Rightarrow> (knowledge_document \<times> db) result" where
  "document_repo_create e user_id p d =
     (let r = new_document e user_id p in
      bind_result (flush_row e 0 (document_lengths r)
          ((''pk_knowledge_documents'', kd_id r \<notin> kd_id ` set (knowledge_documents d)) # document_constraints d r))
        (\<lambda>_. Inr (r, d\<lparr>knowledge_documents := knowledge_documents d @ [r]\<rparr>)))"

definition get_owned_document :: "uuid \<Rightarrow> uuid \<Rightarrow> db \<Rightarrow> knowledge_document option" where
  "get_owned_document document_id user_id d =
     List.find (\<lambda>r. kd_id r = document_id \<and> kd_user_id r = user_id) (knowledge_documents d)"

definition mark_indexed :: "env \<Rightarrow> nat \<Rightarrow> knowledge_document \<Rightarrow> db \<Rightarrow> (knowledge_document \<times> db) result" where
  "mark_indexed e n r d =
     (let r' = r\<lparr>kd_status := INDEXED, kd_updated_at := env_now e\<rparr> in
      bind_result (flush_row e n (document_lengths r') (document_constraints d r'))
        (\<lambda>_. Inr (r', d\<lparr>knowledge_documents := replace_row kd_id r' (knowledge_documents d)\<rparr>)))"

record public_document =
  pk_id :: uuid
  pk_display_name :: string
  pk_media_type :: string
  pk_byte_count :: int
  pk_page_count :: int
  pk_status :: document_status
  pk_created_at :: instant
  pk_updated_at :: instant

definition validate_public_document :: "knowledge_document \<Rightarrow> public_document" where
  "validate_public_document r = \<lparr>pk_id = kd_id r, pk_display_name = kd_display_name r, pk_media_type = kd_media_type r,
     pk_byte_count = kd_byte_count r, pk_page_count = kd_page_count r, pk_status = kd_status r,
     pk_created_at = kd_created_at r, pk_updated_at = kd_updated_at r\<rparr>"

definition create_knowledge_document ::
  "document_rules \<Rightarrow> env \<Rightarrow> string option \<Rightarrow> string option \<Rightarrow> string \<Rightarrow> uuid \<Rightarrow> session \<Rightarrow> public_document result \<times> session" where
  "create_knowledge_document K e filename media_type content user_id s =
     (case parse_knowledge_document K filename media_type content of
        Inl x \<Rightarrow> (Inl x, s)
      | Inr p \<Rightarrow> transaction (env_commit e) (\<lambda>d.
          bind_result (document_repo_create e user_id p d) (\<lambda>(r, d'). Inr (validate_public_document r, d'))) s)"

definition get_owned_knowledge_document :: "uuid \<Rightarrow> uuid \<Rightarrow> db \<Rightarrow> public_document result" where
  "get_owned_knowledge_document document_id user_id d =
     (case get_owned_document document_id user_id d of
        None \<Rightarrow> Inl KnowledgeDocumentNotFoundError
      | Some r \<Rightarrow> Inr (validate_public_document r))"

section \<open>Chunks\<close>

definition max_chunk_characters :: nat where "max_chunk_characters = 2000"
definition chunk_overlap_characters :: nat where "chunk_overlap_characters = 200"
definition max_document_chunks :: nat where "max_document_chunks = 200"
definition chunk_step_characters :: nat where
  "chunk_step_characters = max_chunk_characters - chunk_overlap_characters"

lemma chunk_step_value: "chunk_step_characters = 1800"
  by (simp add: chunk_step_characters_def max_chunk_characters_def chunk_overlap_characters_def)

record document_chunk =
  dc_page_number :: nat
  dc_ordinal :: nat
  dc_content :: string
  dc_fingerprint :: string

definition page_texts :: "string \<Rightarrow> int \<Rightarrow> string list result" where
  "page_texts extracted pages_n =
     (if pages_n = 1 then Inr [extracted]
      else let pages = split_on form_feed extracted in
        if int (length pages) \<noteq> pages_n then Inl KnowledgeDocumentIndexingError else Inr pages)"

function chunk_page ::
  "document_rules \<Rightarrow> nat \<Rightarrow> string \<Rightarrow> nat \<Rightarrow> document_chunk list \<Rightarrow> document_chunk list result" where
  "chunk_page K page_number page start chunks =
     (if start < length page then
        let content = take max_chunk_characters (drop start page);
            chunks' = chunks @ [\<lparr>dc_page_number = page_number, dc_ordinal = length chunks, dc_content = content,
                                 dc_fingerprint = dr_text_sha256 K content\<rparr>]
        in if max_document_chunks < length chunks' then Inl KnowledgeDocumentIndexingError
           else if length page \<le> start + max_chunk_characters then Inr chunks'
           else chunk_page K page_number page (start + chunk_step_characters) chunks'
      else Inr chunks)"
  by pat_completeness auto

termination
  by (relation "measure (\<lambda>(K, n, page, start, chunks). length page - start)") (auto simp: chunk_step_value)

declare chunk_page.simps [simp del]

fun chunk_pages :: "document_rules \<Rightarrow> nat \<Rightarrow> string list \<Rightarrow> document_chunk list \<Rightarrow> document_chunk list result" where
  "chunk_pages K n [] chunks = Inr chunks"
| "chunk_pages K n (page # pages) chunks =
     (if page = [] then chunk_pages K (Suc n) pages chunks
      else bind_result (chunk_page K n page 0 chunks) (chunk_pages K (Suc n) pages))"

definition chunk_document_text :: "document_rules \<Rightarrow> string \<Rightarrow> int \<Rightarrow> document_chunk list result" where
  "chunk_document_text K extracted pages_n =
     bind_result (page_texts extracted pages_n) (\<lambda>pages.
     bind_result (chunk_pages K 1 pages []) (\<lambda>chunks.
       if chunks = [] then Inl KnowledgeDocumentIndexingError else Inr chunks))"

section \<open>Embeddings\<close>

definition embedding_dimensions :: nat where "embedding_dimensions = 1536"

text \<open>What a provider may put into a vector; \<open>float(value)\<close> of a number is finite or not.\<close>

datatype embedding_value = Finite rat | Nonfinite | Not_a_number

fun embedding_number :: "embedding_value \<Rightarrow> rat result" where
  "embedding_number (Finite q) = Inr q"
| "embedding_number _ = Inl EmbeddingProviderInvalidResponseError"

definition validate_embedding_batch :: "embedding_value list list \<Rightarrow> nat \<Rightarrow> rat list list result" where
  "validate_embedding_batch vectors expected =
     (if length vectors \<noteq> expected then Inl EmbeddingProviderInvalidResponseError
      else traverse (\<lambda>v. if length v \<noteq> embedding_dimensions then Inl EmbeddingProviderInvalidResponseError
                         else traverse embedding_number v) vectors)"

definition validate_inputs :: "string list \<Rightarrow> rat \<Rightarrow> string list result" where
  "validate_inputs texts timeout =
     (if timeout \<le> 0 then Inl ValueError
      else if length texts < 1 \<or> 200 < length texts then Inl ValueError
      else if list_ex (\<lambda>t. t = [] \<or> 2000 < length t) texts then Inl ValueError
      else Inr texts)"

text \<open>
  The response of the embedding service: per item its index and vector, where \<open>None\<close> stands for a
  value of another type. The service itself is a parameter: \<open>Inl\<close> is any exception of the client.
\<close>

type_synonym embedding_item = "int option \<times> embedding_value list option"

definition normalize_embedding_response :: "embedding_item list option \<Rightarrow> nat \<Rightarrow> rat list list result" where
  "normalize_embedding_response data expected =
     (case data of
        None \<Rightarrow> Inl EmbeddingProviderInvalidResponseError
      | Some items \<Rightarrow>
          if length items \<noteq> expected \<or> list_ex (\<lambda>(i, v). i = None \<or> v = None) items
          then Inl EmbeddingProviderInvalidResponseError
          else let indexed = sort_key fst (map (\<lambda>(i, v). (the i, the v)) items) in
            if map fst indexed \<noteq> map int [0..<expected] then Inl EmbeddingProviderInvalidResponseError
            else validate_embedding_batch (map snd indexed) expected)"

definition normalized_embedding_error :: "exn \<Rightarrow> exn" where
  "normalized_embedding_error x =
     (if x \<in> {EmbeddingProviderConfigurationError, EmbeddingProviderUnavailableError, EmbeddingProviderInvalidResponseError}
      then x else EmbeddingProviderUnavailableError)"

definition embed :: "(string list \<Rightarrow> embedding_item list option result) \<Rightarrow> bool \<Rightarrow> string list \<Rightarrow> rat \<Rightarrow> rat list list result" where
  "embed service configured texts timeout =
     bind_result (validate_inputs texts timeout) (\<lambda>inputs.
       case (if \<not> configured then Inl EmbeddingProviderConfigurationError
             else bind_result (service inputs) (\<lambda>response. normalize_embedding_response response (length inputs))) of
         Inl x \<Rightarrow> Inl (normalized_embedding_error x)
       | Inr vectors \<Rightarrow> Inr vectors)"

section \<open>Indexing\<close>

definition chunk_lengths :: "knowledge_document_chunk \<Rightarrow> bool" where
  "chunk_lengths r \<longleftrightarrow> length (ck_fingerprint r) \<le> 64 \<and> length (ck_embedding r) = embedding_dimensions"

definition new_chunk :: "env \<Rightarrow> nat \<Rightarrow> uuid \<Rightarrow> uuid \<Rightarrow> document_chunk \<times> rat list \<Rightarrow> knowledge_document_chunk" where
  "new_chunk e k document_id user_id cv = \<lparr>ck_id = env_ids e k, ck_document_id = document_id, ck_user_id = user_id,
     ck_page_number = int (dc_page_number (fst cv)), ck_ordinal = int (dc_ordinal (fst cv)),
     ck_content = dc_content (fst cv), ck_fingerprint = dc_fingerprint (fst cv), ck_embedding = snd cv\<rparr>"

text \<open>The rows of one \<open>add_all\<close> go to the database in order, in one flush.\<close>

fun insert_chunks :: "env \<Rightarrow> knowledge_document_chunk list \<Rightarrow> db \<Rightarrow> db result" where
  "insert_chunks e [] d = Inr d"
| "insert_chunks e (r # rs) d =
     bind_result (flush_row e 0 (chunk_lengths r)
         ((''pk_knowledge_document_chunks'', ck_id r \<notin> ck_id ` set (knowledge_chunks d)) # chunk_constraints d r))
       (\<lambda>_. insert_chunks e rs (d\<lparr>knowledge_chunks := knowledge_chunks d @ [r]\<rparr>))"

definition replace_owned ::
  "env \<Rightarrow> uuid \<Rightarrow> uuid \<Rightarrow> (document_chunk \<times> rat list) list \<Rightarrow> db \<Rightarrow> (knowledge_document_chunk list \<times> db) result" where
  "replace_owned e document_id user_id values d =
     (let kept = filter (\<lambda>r. \<not> (ck_document_id r = document_id \<and> ck_user_id r = user_id)) (knowledge_chunks d);
          rows = map (\<lambda>(k, cv). new_chunk e k document_id user_id cv) (zip [0..<length values] values)
      in bind_result (insert_chunks e rows (d\<lparr>knowledge_chunks := kept\<rparr>)) (\<lambda>d'. Inr (rows, d')))"

record index_response =
  ir_document :: public_document
  ir_chunk_count :: nat

definition index_error :: "exn \<Rightarrow> exn" where
  "index_error x =
     (if x \<in> {EmbeddingProviderConfigurationError, EmbeddingProviderUnavailableError, EmbeddingProviderInvalidResponseError}
      then KnowledgeDocumentIndexingError else x)"

text \<open>The provider answers with raw vectors, as the port allows, and may raise anything.\<close>

definition index_body ::
  "document_rules \<Rightarrow> (string list \<Rightarrow> embedding_value list list result) \<Rightarrow> env \<Rightarrow> uuid \<Rightarrow> uuid \<Rightarrow> db \<Rightarrow>
   (index_response \<times> db) result" where
  "index_body K provider e document_id user_id d =
     (case get_owned_document document_id user_id d of
        None \<Rightarrow> Inl KnowledgeDocumentNotFoundError
      | Some r \<Rightarrow>
          bind_result (chunk_document_text K (kd_extracted_text r) (kd_page_count r)) (\<lambda>chunks.
          bind_result (provider (map dc_content chunks)) (\<lambda>raw.
          bind_result (validate_embedding_batch raw (length chunks)) (\<lambda>vectors.
          bind_result (replace_owned e (kd_id r) user_id (zip chunks vectors) d) (\<lambda>(stored, d1).
          bind_result (mark_indexed e 1 r d1) (\<lambda>(r', d2).
            if 1 \<le> length stored \<and> length stored \<le> 200
            then Inr (\<lparr>ir_document = validate_public_document r', ir_chunk_count = length stored\<rparr>, d2)
            else Inl ValidationError))))))"

definition index_knowledge_document ::
  "document_rules \<Rightarrow> (string list \<Rightarrow> embedding_value list list result) \<Rightarrow> env \<Rightarrow> uuid \<Rightarrow> uuid \<Rightarrow> session \<Rightarrow>
   index_response result \<times> session" where
  "index_knowledge_document K provider e document_id user_id s =
     map_prod (\<lambda>res. case res of Inl x \<Rightarrow> Inl (index_error x) | Inr v \<Rightarrow> Inr v) id
       (transaction (env_commit e) (index_body K provider e document_id user_id) s)"

section \<open>Pieces of a page\<close>

text \<open>
  The reference for the loop over a page: overlapping pieces, which overlap in exactly
  \<open>chunk_overlap_characters\<close> and so determine the page.
\<close>

function page_pieces :: "string \<Rightarrow> string list" where
  "page_pieces p =
     take max_chunk_characters p #
     (if length p \<le> max_chunk_characters then [] else page_pieces (drop chunk_step_characters p))"
  by pat_completeness auto

termination
  by (relation "measure length") (auto simp: chunk_step_value max_chunk_characters_def)

declare page_pieces.simps [simp del]

fun rebuild_page :: "string list \<Rightarrow> string" where
  "rebuild_page [] = []"
| "rebuild_page [p] = p"
| "rebuild_page (p # q # ps) = take chunk_step_characters p @ rebuild_page (q # ps)"

lemma page_pieces_nonempty: "page_pieces p \<noteq> []"
  by (subst page_pieces.simps) simp

lemma rebuild_page_pieces: "rebuild_page (page_pieces p) = p"
proof (induction p rule: page_pieces.induct)
  case (1 p)
  show ?case
  proof (cases "length p \<le> max_chunk_characters")
    case True
    then show ?thesis by (simp add: page_pieces.simps [of p])
  next
    case False
    obtain q qs where q: "page_pieces (drop chunk_step_characters p) = q # qs"
      using page_pieces_nonempty by (cases "page_pieces (drop chunk_step_characters p)") auto
    have "take chunk_step_characters (take max_chunk_characters p) = take chunk_step_characters p"
      by (simp add: chunk_step_characters_def min_def)
    then show ?thesis
      using 1 [OF False] False q by (simp add: page_pieces.simps [of p])
  qed
qed

lemma page_pieces_lengths:
  "p \<noteq> [] \<Longrightarrow> x \<in> set (page_pieces p) \<Longrightarrow> 1 \<le> length x \<and> length x \<le> max_chunk_characters"
proof (induction p rule: page_pieces.induct)
  case (1 p)
  have "x = take max_chunk_characters p \<or>
      (\<not> length p \<le> max_chunk_characters \<and> x \<in> set (page_pieces (drop chunk_step_characters p)))"
    using 1(3) by (subst (asm) page_pieces.simps) (auto split: if_splits)
  then show ?case
  proof
    assume "x = take max_chunk_characters p"
    then show ?thesis using 1(2) by (cases p) (auto simp: max_chunk_characters_def)
  next
    assume a: "\<not> length p \<le> max_chunk_characters \<and> x \<in> set (page_pieces (drop chunk_step_characters p))"
    then have "drop chunk_step_characters p \<noteq> []" by (simp add: chunk_step_value max_chunk_characters_def)
    then show ?thesis using 1(1) a by blast
  qed
qed

lemma page_pieces_count:
  "p \<noteq> [] \<Longrightarrow> chunk_step_characters * (length (page_pieces p) - 1) < length p"
proof (induction p rule: page_pieces.induct)
  case (1 p)
  show ?case
  proof (cases "length p \<le> max_chunk_characters")
    case True
    then show ?thesis using 1(2) by (subst page_pieces.simps) simp
  next
    case False
    let ?q = "drop chunk_step_characters p"
    have "?q \<noteq> []" using False by (simp add: chunk_step_value max_chunk_characters_def)
    then have "chunk_step_characters * (length (page_pieces ?q) - 1) < length ?q" using 1(1) False by blast
    moreover have "0 < length (page_pieces ?q)" using page_pieces_nonempty by simp
    ultimately show ?thesis
      using False by (simp add: page_pieces.simps [of p] chunk_step_value max_chunk_characters_def)
  qed
qed

definition chunks_of :: "document_rules \<Rightarrow> nat \<Rightarrow> nat \<Rightarrow> string list \<Rightarrow> document_chunk list" where
  "chunks_of K n k ps = map (\<lambda>(i, c). \<lparr>dc_page_number = n, dc_ordinal = i, dc_content = c,
     dc_fingerprint = dr_text_sha256 K c\<rparr>) (zip [k..<k + length ps] ps)"

lemma chunks_of_Cons:
  "chunks_of K n k (p # ps) =
     \<lparr>dc_page_number = n, dc_ordinal = k, dc_content = p, dc_fingerprint = dr_text_sha256 K p\<rparr> # chunks_of K n (Suc k) ps"
  by (simp add: chunks_of_def upt_conv_Cons del: upt_Suc)

lemma length_chunks_of [simp]: "length (chunks_of K n k ps) = length ps"
  by (simp add: chunks_of_def)

lemma chunk_page_pieces:
  "start < length page \<Longrightarrow>
   chunk_page K n page start chunks =
     (let ps = page_pieces (drop start page) in
      if max_document_chunks < length chunks + length ps then Inl KnowledgeDocumentIndexingError
      else Inr (chunks @ chunks_of K n (length chunks) ps))"
proof (induction K n page start chunks rule: chunk_page.induct)
  case (1 K n page start chunks)
  let ?c = "take max_chunk_characters (drop start page)"
  let ?chunks = "chunks @ [\<lparr>dc_page_number = n, dc_ordinal = length chunks, dc_content = ?c, dc_fingerprint = dr_text_sha256 K ?c\<rparr>]"
  let ?rest = "page_pieces (drop (start + chunk_step_characters) page)"
  show ?case
  proof (cases "length page \<le> start + max_chunk_characters")
    case True
    then have "page_pieces (drop start page) = [?c]" by (subst page_pieces.simps) simp
    then show ?thesis
      using True 1(2) by (subst chunk_page.simps) (simp add: Let_def chunks_of_Cons chunks_of_def)
  next
    case False
    then have "\<not> length (drop start page) \<le> max_chunk_characters" by auto
    then have ps: "page_pieces (drop start page) = ?c # ?rest"
      by (simp add: page_pieces.simps [of "drop start page"] add.commute)
    have start': "start + chunk_step_characters < length page"
      using False by (simp add: chunk_step_value max_chunk_characters_def)
    show ?thesis
    proof (cases "max_document_chunks < length ?chunks")
      case True
      then show ?thesis using 1(2) ps by (subst chunk_page.simps) (simp add: Let_def)
    next
      case less: False
      have "chunk_page K n page start chunks = chunk_page K n page (start + chunk_step_characters) ?chunks"
        using 1(2) False less by (subst chunk_page.simps) (simp add: Let_def)
      also have "\<dots> = (let ps = ?rest in
          if max_document_chunks < length ?chunks + length ps then Inl KnowledgeDocumentIndexingError
          else Inr (?chunks @ chunks_of K n (length ?chunks) ps))"
        using 1(1) [OF 1(2) refl refl less False start'] .
      finally show ?thesis unfolding ps by (simp add: Let_def chunks_of_Cons)
    qed
  qed
qed

section \<open>Chunks of a document\<close>

fun document_chunks :: "document_rules \<Rightarrow> nat \<Rightarrow> nat \<Rightarrow> string list \<Rightarrow> document_chunk list" where
  "document_chunks K n k [] = []"
| "document_chunks K n k (p # ps) =
     (if p = [] then document_chunks K (Suc n) k ps
      else chunks_of K n k (page_pieces p) @ document_chunks K (Suc n) (k + length (page_pieces p)) ps)"

lemma chunk_pages_eq:
  "length chunks \<le> max_document_chunks \<Longrightarrow>
   chunk_pages K n ps chunks =
     (if max_document_chunks < length chunks + length (document_chunks K n (length chunks) ps)
      then Inl KnowledgeDocumentIndexingError
      else Inr (chunks @ document_chunks K n (length chunks) ps))"
proof (induction ps arbitrary: n chunks)
  case (Cons p ps)
  show ?case
  proof (cases "p = []")
    case True
    then show ?thesis using Cons.IH [OF Cons.prems, of "Suc n"] by simp
  next
    case False
    let ?c = "chunks @ chunks_of K n (length chunks) (page_pieces p)"
    have page: "chunk_page K n p 0 chunks =
        (if max_document_chunks < length ?c then Inl KnowledgeDocumentIndexingError else Inr ?c)"
      using chunk_page_pieces [of 0 p K n chunks] False by (simp add: Let_def)
    show ?thesis
    proof (cases "max_document_chunks < length ?c")
      case True
      then show ?thesis using False page by simp
    next
      case less: False
      then have "chunk_pages K n (p # ps) chunks = chunk_pages K (Suc n) ps ?c" using False page by simp
      then show ?thesis using Cons.IH [of ?c "Suc n"] less False by simp
    qed
  qed
qed simp

lemma chunk_document_text_eq:
  "chunk_document_text K t m =
     bind_result (page_texts t m) (\<lambda>pages.
       if length (document_chunks K 1 0 pages) \<in> {1..max_document_chunks}
       then Inr (document_chunks K 1 0 pages) else Inl KnowledgeDocumentIndexingError)"
  unfolding chunk_document_text_def
  by (rule arg_cong [where f = "bind_result _"], rule ext) (simp add: chunk_pages_eq Suc_le_eq)

lemma chunks_of_pages: "c \<in> set (chunks_of K n k ps) \<Longrightarrow> dc_page_number c = n"
  by (auto simp: chunks_of_def)

lemma chunks_of_contents: "map dc_content (chunks_of K n k ps) = ps"
  by (induction ps arbitrary: k) (simp_all add: chunks_of_Cons, simp add: chunks_of_def)

lemma chunks_of_ordinals: "map dc_ordinal (chunks_of K n k ps) = [k..<k + length ps]"
  by (simp add: chunks_of_def comp_def split_beta map_fst_zip [unfolded comp_def])

lemma chunks_of_fingerprints: "c \<in> set (chunks_of K n k ps) \<Longrightarrow> dc_fingerprint c = dr_text_sha256 K (dc_content c)"
  by (auto simp: chunks_of_def)

lemma document_chunks_pages:
  "c \<in> set (document_chunks K n k ps) \<Longrightarrow> n \<le> dc_page_number c \<and> dc_page_number c < n + length ps"
proof (induction ps arbitrary: n k)
  case (Cons p ps)
  then show ?case by (fastforce split: if_splits dest: chunks_of_pages)
qed simp

lemma document_chunks_ordinals:
  "map dc_ordinal (document_chunks K n k ps) = [k..<k + length (document_chunks K n k ps)]"
proof (induction ps arbitrary: n k)
  case (Cons p ps)
  then show ?case
    by (simp add: chunks_of_ordinals) (metis add.assoc le_add1 upt_add_eq_append)
qed simp

lemma document_chunks_content:
  "c \<in> set (document_chunks K n k ps) \<Longrightarrow>
   1 \<le> length (dc_content c) \<and> length (dc_content c) \<le> max_chunk_characters \<and>
   dc_fingerprint c = dr_text_sha256 K (dc_content c)"
proof (induction ps arbitrary: n k)
  case (Cons p ps)
  show ?case
  proof (cases "c \<in> set (chunks_of K n k (page_pieces p)) \<and> p \<noteq> []")
    case True
    then have "dc_content c \<in> set (page_pieces p)"
      using chunks_of_contents [of K n k "page_pieces p"] by (metis image_eqI list.set_map)
    then show ?thesis using True page_pieces_lengths chunks_of_fingerprints by blast
  next
    case False
    then show ?thesis using Cons.prems Cons.IH by (auto split: if_splits)
  qed
qed simp

definition page_contents :: "document_chunk list \<Rightarrow> nat \<Rightarrow> string" where
  "page_contents cs n = rebuild_page (map dc_content (filter (\<lambda>c. dc_page_number c = n) cs))"

lemma document_chunks_rebuild:
  "map (page_contents (document_chunks K n k ps)) [n..<n + length ps] = ps"
proof (induction ps arbitrary: n k)
  case (Cons p ps)
  let ?k = "if p = [] then k else k + length (page_pieces p)"
  let ?rest = "document_chunks K (Suc n) ?k ps"
  let ?own = "if p = [] then [] else chunks_of K n k (page_pieces p)"
  have split: "document_chunks K n k (p # ps) = ?own @ ?rest" by simp
  have rest: "filter (\<lambda>c. dc_page_number c = n) ?rest = []"
    by (auto simp: filter_empty_conv dest: document_chunks_pages)
  have own: "filter (\<lambda>c. dc_page_number c = m) ?own = (if m = n then ?own else [])" for m
    by (auto simp: filter_empty_conv filter_id_conv dest: chunks_of_pages)
  have hd: "page_contents (?own @ ?rest) n = p"
    unfolding page_contents_def filter_append rest own
    by (simp add: chunks_of_contents rebuild_page_pieces)
  have "map (page_contents (?own @ ?rest)) [Suc n..<Suc n + length ps] = map (page_contents ?rest) [Suc n..<Suc n + length ps]"
    by (rule map_cong [OF refl]) (simp only: page_contents_def filter_append own, auto)
  then have tl: "map (page_contents (?own @ ?rest)) [Suc n..<Suc n + length ps] = ps"
    by (simp only: Cons.IH)
  show ?case unfolding split
    using hd tl by (simp add: upt_conv_Cons del: upt_Suc)
qed simp

text \<open>
  Chunking loses nothing. When a document is chunked there are between 1 and 200 chunks, numbered
  consecutively from 0, each of 1 to 2000 characters with the digest of its content and the number of its
  page, and the text of every page of the document is rebuilt from the chunks of that page by dropping
  the overlaps. Chunking fails exactly when the pages cannot be told apart or need no or more than 200 chunks.
\<close>

theorem chunks_reconstruct:
  "case chunk_document_text K t m of
     Inr cs \<Rightarrow> 1 \<le> length cs \<and> length cs \<le> max_document_chunks \<and> map dc_ordinal cs = [0..<length cs] \<and>
       list_all (\<lambda>c. 1 \<le> length (dc_content c) \<and> length (dc_content c) \<le> max_chunk_characters \<and>
                     dc_fingerprint c = dr_text_sha256 K (dc_content c)) cs \<and>
       (\<exists>pages. page_texts t m = Inr pages \<and> map (page_contents cs) [1..<Suc (length pages)] = pages \<and>
                set (map dc_page_number cs) \<subseteq> {1..length pages})
   | Inl x \<Rightarrow> x = KnowledgeDocumentIndexingError \<and>
       (case page_texts t m of
          Inl _ \<Rightarrow> True
        | Inr pages \<Rightarrow> length (concat (map page_pieces (filter (\<lambda>p. p \<noteq> []) pages))) \<notin> {1..max_document_chunks})"
proof -
  have count: "length (document_chunks K n k ps) = length (concat (map page_pieces (filter (\<lambda>p. p \<noteq> []) ps)))" for n k ps
    by (induction ps arbitrary: n k) auto
  show ?thesis
  proof (cases "page_texts t m")
    case (Inl x)
    then show ?thesis
      by (auto simp: chunk_document_text_eq page_texts_def Let_def split: if_splits)
  next
    case (Inr pages)
    let ?cs = "document_chunks K 1 0 pages"
    show ?thesis
    proof (cases "length ?cs \<in> {1..max_document_chunks}")
      case True
      have eq: "chunk_document_text K t m = Inr ?cs" using Inr True by (simp add: chunk_document_text_eq)
      have "map (page_contents ?cs) [1..<Suc (length pages)] = pages"
        using document_chunks_rebuild [of K 1 0 pages] by simp
      moreover have "set (map dc_page_number ?cs) \<subseteq> {1..length pages}"
        using document_chunks_pages [of _ K 1 0 pages] by fastforce
      moreover have "map dc_ordinal ?cs = [0..<length ?cs]"
        using document_chunks_ordinals [of K 1 0 pages] by simp
      moreover have "list_all (\<lambda>c. 1 \<le> length (dc_content c) \<and> length (dc_content c) \<le> max_chunk_characters \<and>
          dc_fingerprint c = dr_text_sha256 K (dc_content c)) ?cs"
        unfolding list_all_iff using document_chunks_content by blast
      ultimately show ?thesis
        unfolding eq sum.case Inr using True [unfolded atLeastAtMost_iff] by blast
    next
      case False
      have eq: "chunk_document_text K t m = Inl KnowledgeDocumentIndexingError"
        unfolding chunk_document_text_eq Inr bind_result_simps using False by (rule if_not_P)
      show ?thesis unfolding eq sum.case Inr using False [unfolded count] by blast
    qed
  qed
qed

section \<open>Pages of a PDF\<close>

lemma split_on_length: "length (split_on sep s) = Suc (length (filter (\<lambda>c. c = sep) s))"
  by (induction s) (auto split: list.splits)

lemma split_on_plain: "sep \<notin> set s \<Longrightarrow> split_on sep s = [s]"
  by (induction s) auto

lemma split_on_append:
  "sep \<notin> set s \<Longrightarrow> split_on sep (s @ sep # r) = s # split_on sep r"
  by (induction s) auto

lemma split_on_join:
  "parts \<noteq> [] \<Longrightarrow> list_all (\<lambda>p. sep \<notin> set p) parts \<Longrightarrow> split_on sep (join_with [sep] parts) = parts"
proof (induction parts rule: induct_list012)
  case (3 x y zs)
  then show ?case by (simp add: split_on_append)
qed (auto simp: split_on_plain)

lemma join_separators:
  "parts \<noteq> [] \<Longrightarrow> length (filter (\<lambda>c. c = sep) (join_with [sep] parts)) =
     length parts - 1 + length (filter (\<lambda>c. c = sep) (concat parts))"
  by (induction parts rule: induct_list012) auto

lemma page_texts_join:
  assumes "parts \<noteq> []"
  shows "page_texts (join_with [form_feed] parts) (int (length parts)) =
    (if length parts = 1 \<or> list_all (\<lambda>p. form_feed \<notin> set p) parts then Inr parts
     else Inl KnowledgeDocumentIndexingError)"
proof (cases "length parts = 1")
  case True
  then obtain p where "parts = [p]" by (auto simp: length_Suc_conv)
  then show ?thesis by (simp add: page_texts_def)
next
  case False
  show ?thesis
  proof (cases "list_all (\<lambda>p. form_feed \<notin> set p) parts")
    case True
    then show ?thesis using assms False by (simp add: page_texts_def split_on_join)
  next
    case ff: False
    then have "filter (\<lambda>c. c = form_feed) (concat parts) \<noteq> []"
      by (auto simp: list_all_iff filter_empty_conv)
    then have "length (split_on form_feed (join_with [form_feed] parts)) \<noteq> length parts"
      using assms by (cases parts) (auto simp: split_on_length join_separators)
    then show ?thesis using False ff by (simp add: page_texts_def)
  qed
qed

lemma pdf_parts_length: "pdf_parts k pages = Inr parts \<Longrightarrow> length parts = length pages"
proof (induction k pages arbitrary: parts rule: pdf_parts.induct)
  case (3 k t pages)
  then show ?case by (auto split: if_splits simp: bind_result_eq_Inr)
qed simp_all

lemma parse_pdf_parts:
  assumes "parse_pdf K content = Inr (t, n)"
  obtains pages parts where "dr_pdf K content = Some (False, pages)" "pdf_parts 0 pages = Inr parts"
    "n = length parts" "t = join_with [form_feed] parts" "1 \<le> n" "n \<le> max_document_pages" "\<not> list_all (\<lambda>p. p = []) parts"
proof -
  obtain enc pages where k: "dr_pdf K content = Some (enc, pages)" "has_pdf_signature content"
    using assms by (auto simp: parse_pdf_def split: if_splits option.splits)
  then have e: "\<not> enc" "1 \<le> length pages" "length pages \<le> max_document_pages"
    using assms by (auto simp: parse_pdf_def Suc_le_eq split: if_splits)
  obtain parts where p: "pdf_parts 0 pages = Inr parts"
    using assms k e by (cases "pdf_parts 0 pages") (auto simp: parse_pdf_def split: if_splits)
  show ?thesis
    using that [OF _ p] assms k e p pdf_parts_length [OF p] by (auto simp: parse_pdf_def Let_def split: if_splits)
qed

section \<open>What parsing guarantees\<close>

lemma join_with_Nil_iff: "join_with sep parts = [] \<Longrightarrow> list_all (\<lambda>p. p = []) parts"
  by (induction sep parts rule: join_with.induct) auto

lemma normalize_text_Inr:
  "normalize_text v = Inr s \<Longrightarrow> s \<noteq> [] \<and> length s \<le> max_document_text_characters"
  by (auto simp: normalize_text_def validate_persisted_text_def bind_result_eq_Inr split: if_splits)

lemma display_name_Inr:
  assumes "display_name f = Inr (name, extension)"
  shows "btrim_nonblank name \<and> length name \<le> 255 \<and> map_of media_types_by_extension extension \<noteq> None"
proof -
  obtain x where x: "validate_persisted_text (strip x) = Inr name" "name \<noteq> []" "length name \<le> 255"
      "map_of media_types_by_extension extension \<noteq> None"
    using assms
    by (auto simp: display_name_def result_Inr Let_def max_document_name_characters_def
        split: option.splits if_splits)
  then have "name = strip x" by (simp add: validate_persisted_text_def split: if_splits)
  then show ?thesis using x strip_nonblank by auto
qed

lemma parse_document_Inr:
  assumes "parse_knowledge_document K filename media_type content = Inr p"
  shows "btrim_nonblank (pd_display_name p)" "length (pd_display_name p) \<le> 255"
    "pd_byte_count p = length content" "1 \<le> length content" "length content \<le> max_document_bytes"
    "pd_content_sha256 p = dr_sha256 K content" "media_type = Some (pd_media_type p)"
    and "pd_media_type p = ''application/pdf'' \<Longrightarrow> parse_pdf K content = Inr (pd_extracted_text p, pd_page_count p)"
    and "pd_media_type p \<noteq> ''application/pdf'' \<Longrightarrow>
      pd_media_type p \<in> {''text/plain'', ''text/markdown''} \<and> pd_page_count p = 1 \<and>
      (\<exists>t. dr_decode K content = Some t \<and> normalize_text t = Inr (pd_extracted_text p))"
proof -
  have size: "content \<noteq> []" "length content \<le> max_document_bytes"
    using assms by (auto simp: parse_knowledge_document_def split: if_splits)
  obtain name extension where n: "display_name filename = Inr (name, extension)"
    using assms size by (auto simp: parse_knowledge_document_def result_Inr)
  obtain expected where x: "map_of media_types_by_extension extension = Some expected"
    using display_name_Inr [OF n] by auto
  let ?source = "if extension = ''.pdf'' then parse_pdf K content
               else if has_pdf_signature content then Inl KnowledgeDocumentInvalidError
               else case dr_decode K content of
                      None \<Rightarrow> Inl KnowledgeDocumentInvalidError
                    | Some t \<Rightarrow> bind_result (normalize_text t) (\<lambda>s. Inr (s, 1))"
  obtain extracted pages where s: "?source = Inr (extracted, pages)" "media_type = Some expected"
    and p: "p = \<lparr>pd_display_name = name, pd_media_type = expected, pd_byte_count = length content,
        pd_content_sha256 = dr_sha256 K content, pd_page_count = pages, pd_extracted_text = extracted\<rparr>"
    using assms size n x
    by (auto simp: parse_knowledge_document_def result_Inr validate_persisted_text_def split: if_splits)
  show "btrim_nonblank (pd_display_name p)" "length (pd_display_name p) \<le> 255"
    "pd_byte_count p = length content" "1 \<le> length content" "length content \<le> max_document_bytes"
    "pd_content_sha256 p = dr_sha256 K content" "media_type = Some (pd_media_type p)"
    using display_name_Inr [OF n] size p s(2) by (auto simp: Suc_le_eq)
  have ext: "(extension, expected) \<in> {(''.txt'', ''text/plain''), (''.md'', ''text/markdown''), (''.pdf'', ''application/pdf'')}"
    using x by (auto simp: media_types_by_extension_def split: if_splits)
  show "parse_pdf K content = Inr (pd_extracted_text p, pd_page_count p)" if "pd_media_type p = ''application/pdf''"
    using ext that s(1) p by auto
  show "pd_media_type p \<in> {''text/plain'', ''text/markdown''} \<and> pd_page_count p = 1 \<and>
      (\<exists>t. dr_decode K content = Some t \<and> normalize_text t = Inr (pd_extracted_text p))"
    if "pd_media_type p \<noteq> ''application/pdf''"
    using ext that s(1) p by (auto simp: bind_result_eq_Inr split: if_splits option.splits)
qed

lemma parse_document_sizes:
  assumes "parse_knowledge_document K filename media_type content = Inr p"
  shows "pd_page_count p \<in> {1..100} \<and> length (pd_extracted_text p) \<in> {1..200000}"
proof (cases "pd_media_type p = ''application/pdf''")
  case True
  have pdf: "parse_pdf K content = Inr (pd_extracted_text p, pd_page_count p)"
    using parse_document_Inr(8) [OF assms True] .
  then have "length (pd_extracted_text p) \<le> 200000"
    by (auto simp: parse_pdf_def result_Inr Let_def max_document_text_characters_def split: option.splits if_splits)
  then show ?thesis
    by (rule_tac parse_pdf_parts [OF pdf])
       (use join_with_Nil_iff in \<open>auto simp: max_document_pages_def Suc_le_eq\<close>)
next
  case False
  then show ?thesis
    using parse_document_Inr(9) [OF assms False] normalize_text_Inr
    by (fastforce simp: max_document_text_characters_def Suc_le_eq)
qed

section \<open>Storing chunks\<close>

lemma insert_chunks_Inr:
  "insert_chunks e rows d = Inr d' \<Longrightarrow> d' = d\<lparr>knowledge_chunks := knowledge_chunks d @ rows\<rparr>"
  by (induction e rows d rule: insert_chunks.induct) (auto simp: bind_result_eq_Inr)

definition chunk_rows :: "env \<Rightarrow> uuid \<Rightarrow> uuid \<Rightarrow> (document_chunk \<times> rat list) list \<Rightarrow> knowledge_document_chunk list" where
  "chunk_rows e document_id user_id cvs =
     map (\<lambda>(k, cv). new_chunk e k document_id user_id cv) (zip [0..<length cvs] cvs)"

definition other_chunks :: "uuid \<Rightarrow> uuid \<Rightarrow> db \<Rightarrow> knowledge_document_chunk list" where
  "other_chunks document_id user_id d =
     filter (\<lambda>r. \<not> (ck_document_id r = document_id \<and> ck_user_id r = user_id)) (knowledge_chunks d)"

lemma length_chunk_rows [simp]: "length (chunk_rows e i u cvs) = length cvs"
  by (simp add: chunk_rows_def)

lemma nth_chunk_rows: "k < length cvs \<Longrightarrow> chunk_rows e i u cvs ! k = new_chunk e k i u (cvs ! k)"
  by (simp add: chunk_rows_def)

lemma replace_owned_eq:
  "replace_owned e i u cvs d =
     bind_result (insert_chunks e (chunk_rows e i u cvs) (d\<lparr>knowledge_chunks := other_chunks i u d\<rparr>))
       (\<lambda>d'. Inr (chunk_rows e i u cvs, d'))"
  by (simp add: replace_owned_def Let_def chunk_rows_def other_chunks_def)

lemma replace_owned_Inr:
  "replace_owned e i u cvs d = Inr (stored, d') \<Longrightarrow>
   stored = chunk_rows e i u cvs \<and> d' = d\<lparr>knowledge_chunks := other_chunks i u d @ chunk_rows e i u cvs\<rparr>"
  by (auto simp: replace_owned_eq bind_result_eq_Inr dest: insert_chunks_Inr)

lemma validate_embedding_batch_length:
  "validate_embedding_batch raw n = Inr vectors \<Longrightarrow> length raw = n \<and> length vectors = n"
  by (auto simp: validate_embedding_batch_def simp: traverse_Inr_iff dest: list_all2_lengthD split: if_splits)

definition indexed :: "env \<Rightarrow> knowledge_document \<Rightarrow> knowledge_document" where
  "indexed e r = r\<lparr>kd_status := INDEXED, kd_updated_at := env_now e\<rparr>"

definition indexed_db :: "env \<Rightarrow> uuid \<Rightarrow> knowledge_document \<Rightarrow> (document_chunk \<times> rat list) list \<Rightarrow> db \<Rightarrow> db" where
  "indexed_db e user_id r cvs d =
     d\<lparr>knowledge_documents := replace_row kd_id (indexed e r) (knowledge_documents d),
       knowledge_chunks := other_chunks (kd_id r) user_id d @ chunk_rows e (kd_id r) user_id cvs\<rparr>"

lemma mark_indexed_Inr:
  "mark_indexed e n r d = Inr (r', d') \<Longrightarrow>
   r' = indexed e r \<and> d' = d\<lparr>knowledge_documents := replace_row kd_id (indexed e r) (knowledge_documents d)\<rparr>"
  by (auto simp: mark_indexed_def Let_def indexed_def bind_result_eq_Inr)

lemma chunk_document_text_count:
  "chunk_document_text K t m = Inr cs \<Longrightarrow> 1 \<le> length cs \<and> length cs \<le> 200"
  by (auto simp: chunk_document_text_eq bind_result_eq_Inr max_document_chunks_def split: if_splits)

lemma index_body_Inr:
  assumes "index_body K provider e i u d = Inr (v, d')"
  shows "\<exists>r cs raw vs. get_owned_document i u d = Some r \<and>
    chunk_document_text K (kd_extracted_text r) (kd_page_count r) = Inr cs \<and>
    provider (map dc_content cs) = Inr raw \<and> validate_embedding_batch raw (length cs) = Inr vs \<and>
    v = \<lparr>ir_document = validate_public_document (indexed e r), ir_chunk_count = length cs\<rparr> \<and>
    d' = indexed_db e u r (zip cs vs) d"
proof -
  obtain r cs raw vs stored d1 r' where
    r: "get_owned_document i u d = Some r" and
    cs: "chunk_document_text K (kd_extracted_text r) (kd_page_count r) = Inr cs" and
    raw: "provider (map dc_content cs) = Inr raw" and vs: "validate_embedding_batch raw (length cs) = Inr vs" and
    st: "replace_owned e (kd_id r) u (zip cs vs) d = Inr (stored, d1)" and
    mk: "mark_indexed e 1 r d1 = Inr (r', d')" and
    v: "v = \<lparr>ir_document = validate_public_document r', ir_chunk_count = length stored\<rparr>"
    using assms unfolding index_body_def
    by (auto simp: result_Inr split: option.splits if_splits)
  have "length vs = length cs" using validate_embedding_batch_length [OF vs] by simp
  then have "v = \<lparr>ir_document = validate_public_document (indexed e r), ir_chunk_count = length cs\<rparr>"
    "d' = indexed_db e u r (zip cs vs) d"
    using replace_owned_Inr [OF st] mark_indexed_Inr [OF mk] v by (simp_all add: indexed_db_def)
  with r cs raw vs show ?thesis by blast
qed

text \<open>
  C20: Indexing a document is all or nothing and exact. When it succeeds, the stored chunks of the owner's
  document are exactly those of its text with the validated vectors, the document is INDEXED, and every
  other row of the database is as before; when it fails, nothing is stored, unless the commit itself took effect and
  only its acknowledgement was lost. Errors of the embedding provider are reported as the one indexing error.
\<close>

theorem index_replaces_exactly:
  "case index_knowledge_document K provider e i u s of
     (Inr v, s') \<Rightarrow> \<exists>r cs raw vs. get_owned_document i u (working s) = Some r \<and>
       chunk_document_text K (kd_extracted_text r) (kd_page_count r) = Inr cs \<and>
       provider (map dc_content cs) = Inr raw \<and> validate_embedding_batch raw (length cs) = Inr vs \<and>
       ir_chunk_count v = length cs \<and> committed s' = indexed_db e u r (zip cs vs) (working s)
   | (Inl x, s') \<Rightarrow> working s' = committed s' \<and>
       x \<notin> {EmbeddingProviderConfigurationError, EmbeddingProviderUnavailableError, EmbeddingProviderInvalidResponseError} \<and>
       (committed s' = committed s \<or>
        x = DatabaseError \<and> env_commit e = Commit_lost \<and>
        (\<exists>v. index_body K provider e i u (working s) = Inr (v, committed s')))"
proof -
  obtain res s' where t: "transaction (env_commit e) (index_body K provider e i u) s = (res, s')" by fastforce
  show ?thesis
  proof (cases res)
    case (Inl x)
    then have eq: "index_knowledge_document K provider e i u s = (Inl (index_error x), s')"
      using t by (simp add: index_knowledge_document_def)
    show ?thesis
      unfolding eq prod.case sum.case using t Inl by (cases rule: transaction_cases) (auto simp: index_error_def)
  next
    case (Inr v)
    then have eq: "index_knowledge_document K provider e i u s = (Inr v, s')"
      using t by (simp add: index_knowledge_document_def)
    have "index_body K provider e i u (working s) = Inr (v, committed s')"
      using transaction_success [OF t [unfolded Inr]] by simp
    from index_body_Inr [OF this] show ?thesis
      unfolding eq prod.case sum.case by auto
  qed
qed

section \<open>From upload to index\<close>

definition wf_knowledge :: "db \<Rightarrow> bool" where
  "wf_knowledge d \<longleftrightarrow> distinct (map kd_id (knowledge_documents d)) \<and>
     list_all (\<lambda>r. list_all snd (document_constraints d r) \<and> document_lengths r) (knowledge_documents d) \<and>
     list_all (\<lambda>r. (ck_document_id r, ck_user_id r) \<in> (\<lambda>x. (kd_id x, kd_user_id x)) ` set (knowledge_documents d))
       (knowledge_chunks d)"

lemma get_owned_document_SomeD:
  "get_owned_document i u d = Some r \<Longrightarrow> r \<in> set (knowledge_documents d) \<and> kd_id r = i \<and> kd_user_id r = u"
  unfolding get_owned_document_def by (drule find_SomeD) simp

lemma other_chunks_documents:
  assumes "wf_knowledge d" "get_owned_document i u d = Some r" "x \<in> set (other_chunks i u d)"
  shows "ck_document_id x \<noteq> i"
proof
  assume i: "ck_document_id x = i"
  then have u: "ck_user_id x \<noteq> u" and "x \<in> set (knowledge_chunks d)"
    using assms(3) by (auto simp: other_chunks_def)
  then obtain y where y: "y \<in> set (knowledge_documents d)" "kd_id y = i" "kd_user_id y = ck_user_id x"
    using assms(1) i by (auto simp: wf_knowledge_def list_all_iff)
  moreover have "r \<in> set (knowledge_documents d)" "kd_id r = i" "kd_user_id r = u"
    using get_owned_document_SomeD [OF assms(2)] by simp_all
  moreover have "distinct (map kd_id (knowledge_documents d))" using assms(1) by (simp add: wf_knowledge_def)
  ultimately have "y = r" by (metis distinct_map inj_onD)
  then show False using u y \<open>kd_user_id r = u\<close> by simp
qed

text \<open>The new rows go in one by one; the constraints of each hold next to those already there.\<close>

lemma insert_chunks_ok:
  assumes "\<not> env_flush_fails e 0"
    and "list_all (\<lambda>r. chunk_lengths r \<and> list_all snd (butlast (chunk_constraints d r)) \<and> ck_document_id r = i) rows"
    and "distinct (map ck_id rows)" "distinct (map ck_ordinal rows)"
    and "\<And>x. x \<in> set (knowledge_chunks d) \<Longrightarrow> ck_id x \<notin> ck_id ` set rows \<and> (ck_document_id x = i \<longrightarrow> ck_ordinal x \<notin> ck_ordinal ` set rows)"
  shows "insert_chunks e rows d = Inr (d\<lparr>knowledge_chunks := knowledge_chunks d @ rows\<rparr>)"
  using assms(2-)
proof (induction rows arbitrary: d)
  case (Cons r rows)
  let ?d = "d\<lparr>knowledge_chunks := knowledge_chunks d @ [r]\<rparr>"
  have r: "chunk_lengths r" "ck_document_id r = i" "list_all snd (butlast (chunk_constraints d r))"
    using Cons.prems(1) by auto
  have "list_all (\<lambda>x. ck_id x = ck_id r \<or> (ck_document_id x, ck_ordinal x) \<noteq> (ck_document_id r, ck_ordinal r)) (knowledge_chunks d)"
    unfolding list_all_iff using Cons.prems(4) r(2) by auto
  then have "list_all snd (chunk_constraints d r)" using r(3) by (simp add: chunk_constraints_def)
  moreover have "ck_id r \<notin> ck_id ` set (knowledge_chunks d)" using Cons.prems(4) by fastforce
  ultimately have flush: "flush_row e 0 (chunk_lengths r)
      ((''pk_knowledge_document_chunks'', ck_id r \<notin> ck_id ` set (knowledge_chunks d)) # chunk_constraints d r) = Inr ()"
    using assms(1) r by (simp add: flush_row_ok)
  have "insert_chunks e rows ?d = Inr (?d\<lparr>knowledge_chunks := knowledge_chunks ?d @ rows\<rparr>)"
  proof (rule Cons.IH)
    show "list_all (\<lambda>r. chunk_lengths r \<and> list_all snd (butlast (chunk_constraints ?d r)) \<and> ck_document_id r = i) rows"
    proof -
      have "butlast (chunk_constraints ?d x) = butlast (chunk_constraints d x)" for x
        by (simp add: chunk_constraints_def)
      then show ?thesis using Cons.prems(1) by simp
    qed
    show "ck_id x \<notin> ck_id ` set rows \<and> (ck_document_id x = i \<longrightarrow> ck_ordinal x \<notin> ck_ordinal ` set rows)"
      if "x \<in> set (knowledge_chunks ?d)" for x
      using that Cons.prems(2-4) by fastforce
  qed (use Cons.prems in auto)
  then show ?case using flush by simp
qed simp

lemma validate_embedding_dimensions:
  "validate_embedding_batch raw n = Inr vs \<Longrightarrow> v \<in> set vs \<Longrightarrow> length v = embedding_dimensions"
proof -
  assume a: "validate_embedding_batch raw n = Inr vs" "v \<in> set vs"
  obtain k where k: "k < length vs" "vs ! k = v" using a(2) by (auto simp: in_set_conv_nth)
  have "list_all2 (\<lambda>w v. (if length w \<noteq> embedding_dimensions then Inl EmbeddingProviderInvalidResponseError
      else traverse embedding_number w) = Inr v) raw vs"
    using a(1) by (simp add: validate_embedding_batch_def traverse_Inr_iff split: if_splits)
  then have "(if length (raw ! k) \<noteq> embedding_dimensions then Inl EmbeddingProviderInvalidResponseError
      else traverse embedding_number (raw ! k)) = Inr v"
    using k list_all2_nthD2 by blast
  then have "length (raw ! k) = embedding_dimensions" "traverse embedding_number (raw ! k) = Inr v"
    by (simp_all split: if_splits)
  then show ?thesis by (simp add: traverse_Inr_iff) (metis list_all2_lengthD)
qed

lemma page_texts_length: "page_texts t m = Inr pages \<Longrightarrow> int (length pages) = m"
  by (auto simp: page_texts_def Let_def split: if_splits)

lemma chunk_document_text_fields:
  assumes "chunk_document_text K t m = Inr cs" "k < length cs"
  shows "dc_ordinal (cs ! k) = k" "1 \<le> dc_page_number (cs ! k)" "int (dc_page_number (cs ! k)) \<le> m"
    "1 \<le> length (dc_content (cs ! k))" "length (dc_content (cs ! k)) \<le> 2000"
    "dc_fingerprint (cs ! k) = dr_text_sha256 K (dc_content (cs ! k))"
proof -
  obtain pages where p: "page_texts t m = Inr pages" "cs = document_chunks K 1 0 pages"
    using assms(1) by (auto simp: chunk_document_text_eq bind_result_eq_Inr split: if_splits)
  have mem: "cs ! k \<in> set (document_chunks K 1 0 pages)" using assms(2) p(2) by simp
  show "dc_ordinal (cs ! k) = k"
    using document_chunks_ordinals [of K 1 0 pages] assms(2) p(2) by (metis add_0 nth_map nth_upt)
  show "1 \<le> dc_page_number (cs ! k)" "int (dc_page_number (cs ! k)) \<le> m"
    using document_chunks_pages [OF mem] page_texts_length [OF p(1)] by simp_all
  show "1 \<le> length (dc_content (cs ! k))" "length (dc_content (cs ! k)) \<le> 2000"
    "dc_fingerprint (cs ! k) = dr_text_sha256 K (dc_content (cs ! k))"
    using document_chunks_content [OF mem] by (simp_all add: max_chunk_characters_def)
qed

lemma chunk_rows_ok:
  assumes "chunk_document_text K (kd_extracted_text r) (kd_page_count r) = Inr cs"
    and "validate_embedding_batch raw (length cs) = Inr vs" "\<And>t. digest_format (dr_text_sha256 K t)"
    and "r \<in> set (knowledge_documents d)" "kd_page_count r \<le> 100" "inj (env_ids e)"
  shows "list_all (\<lambda>x. chunk_lengths x \<and> list_all snd (butlast (chunk_constraints d x)) \<and> ck_document_id x = kd_id r)
      (chunk_rows e (kd_id r) (kd_user_id r) (zip cs vs))"
    and "map ck_ordinal (chunk_rows e (kd_id r) (kd_user_id r) (zip cs vs)) = map int [0..<length cs]"
    and "map ck_id (chunk_rows e (kd_id r) (kd_user_id r) (zip cs vs)) = map (env_ids e) [0..<length cs]"
proof -
  let ?rows = "chunk_rows e (kd_id r) (kd_user_id r) (zip cs vs)"
  have len: "length (zip cs vs) = length cs" using validate_embedding_batch_length [OF assms(2)] by simp
  have row: "?rows ! k = new_chunk e k (kd_id r) (kd_user_id r) (cs ! k, vs ! k)" if "k < length cs" for k
    using that len by (simp add: nth_chunk_rows)
  have count: "length cs \<le> 200" using chunk_document_text_count [OF assms(1)] by simp
  show "list_all (\<lambda>x. chunk_lengths x \<and> list_all snd (butlast (chunk_constraints d x)) \<and> ck_document_id x = kd_id r) ?rows"
  proof (rule list_all_length [THEN iffD2], intro allI impI)
    fix k assume "k < length ?rows"
    then have k: "k < length cs" using len by simp
    note f = chunk_document_text_fields [OF assms(1) k]
    have "length (vs ! k) = embedding_dimensions"
      using validate_embedding_dimensions [OF assms(2)] k len by simp
    then have "chunk_lengths (?rows ! k)"
      using assms(3) [of "dc_content (cs ! k)"] f(6) by (simp add: row k chunk_lengths_def new_chunk_def digest_format_def)
    moreover have "list_all snd (butlast (chunk_constraints d (?rows ! k)))"
      using f assms(3-5) k count by (auto simp: row chunk_constraints_def new_chunk_def)
    ultimately
    show "chunk_lengths (?rows ! k) \<and> list_all snd (butlast (chunk_constraints d (?rows ! k))) \<and>
        ck_document_id (?rows ! k) = kd_id r"
      by (simp add: row k new_chunk_def)
  qed
  show "map ck_ordinal ?rows = map int [0..<length cs]" "map ck_id ?rows = map (env_ids e) [0..<length cs]"
    using len by (auto intro!: nth_equalityI simp: row new_chunk_def chunk_document_text_fields(1) [OF assms(1)] simp del: length_zip)
qed

lemma index_body_ok:
  assumes "wf_knowledge d" "get_owned_document i u d = Some r"
    and "chunk_document_text K (kd_extracted_text r) (kd_page_count r) = Inr cs"
    and "provider (map dc_content cs) = Inr raw" "validate_embedding_batch raw (length cs) = Inr vs"
    and "\<And>t. digest_format (dr_text_sha256 K t)" "\<not> env_flush_fails e 0" "\<not> env_flush_fails e 1"
    and "inj (env_ids e)" "\<And>x. x \<in> set (knowledge_chunks d) \<Longrightarrow> ck_id x \<notin> range (env_ids e)"
  shows "index_body K provider e i u d =
    Inr (\<lparr>ir_document = validate_public_document (indexed e r), ir_chunk_count = length cs\<rparr>, indexed_db e u r (zip cs vs) d)"
proof -
  have r: "r \<in> set (knowledge_documents d)" "kd_id r = i" "kd_user_id r = u"
    using get_owned_document_SomeD [OF assms(2)] by simp_all
  have ok: "list_all snd (document_constraints d r)" "document_lengths r"
    using assms(1) r(1) by (auto simp: wf_knowledge_def list_all_iff)
  let ?rows = "chunk_rows e (kd_id r) u (zip cs vs)" and ?d = "d\<lparr>knowledge_chunks := other_chunks (kd_id r) u d\<rparr>"
  have pages: "kd_page_count r \<le> 100" using ok(1) by (simp add: document_constraints_def)
  note rows = chunk_rows_ok [OF assms(3,5,6) _ pages assms(9), of ?d, unfolded r(3)]
  have ins: "insert_chunks e ?rows ?d = Inr (?d\<lparr>knowledge_chunks := knowledge_chunks ?d @ ?rows\<rparr>)"
  proof (rule insert_chunks_ok [OF assms(7), of ?d "kd_id r"])
    show "ck_id x \<notin> ck_id ` set ?rows \<and> (ck_document_id x = kd_id r \<longrightarrow> ck_ordinal x \<notin> ck_ordinal ` set ?rows)"
      if x: "x \<in> set (knowledge_chunks ?d)" for x
    proof -
      have "ck_document_id x \<noteq> kd_id r" using other_chunks_documents [OF assms(1,2)] x r(2) by simp
      moreover have "ck_id x \<notin> range (env_ids e)" using assms(10) x by (simp add: other_chunks_def)
      moreover have "ck_id ` set ?rows \<subseteq> range (env_ids e)"
        using arg_cong [OF rows(3), of set] r(1) by (simp add: image_subset_iff)
      ultimately show ?thesis by blast
    qed
  qed (use rows r(1) assms(9) in \<open>simp_all add: distinct_map inj_on_subset inj_on_def\<close>)
  have "replace_owned e (kd_id r) u (zip cs vs) d = Inr (?rows, d\<lparr>knowledge_chunks := other_chunks (kd_id r) u d @ ?rows\<rparr>)"
    using ins by (simp add: replace_owned_eq)
  moreover have "mark_indexed e 1 r (d\<lparr>knowledge_chunks := cks\<rparr>) = Inr (indexed e r,
      d\<lparr>knowledge_chunks := cks, knowledge_documents := replace_row kd_id (indexed e r) (knowledge_documents d)\<rparr>)" for cks
  proof -
    have "flush_row e 1 (document_lengths (indexed e r)) (document_constraints (d\<lparr>knowledge_chunks := cks\<rparr>) (indexed e r)) = Inr ()"
      using ok assms(8) by (simp add: flush_row_ok document_constraints_def document_lengths_def indexed_def)
    then show ?thesis by (simp add: mark_indexed_def Let_def indexed_def)
  qed
  moreover have "length (zip cs vs) = length cs" using validate_embedding_batch_length [OF assms(5)] by simp
  ultimately show ?thesis
    using assms(2-5) chunk_document_text_count [OF assms(3)]
    by (simp add: index_body_def indexed_db_def)
qed

lemma create_document_Inr:
  assumes "create_knowledge_document K e f mt content u (open_session d) = (Inr doc, s)"
  obtains p where "parse_knowledge_document K f mt content = Inr p" "doc = validate_public_document (new_document e u p)"
    "committed s = d\<lparr>knowledge_documents := knowledge_documents d @ [new_document e u p]\<rparr>"
    "kd_id (new_document e u p) \<notin> kd_id ` set (knowledge_documents d)"
    "document_lengths (new_document e u p)" "list_all snd (document_constraints d (new_document e u p))"
proof -
  obtain p where p: "parse_knowledge_document K f mt content = Inr p"
    using assms by (auto simp: create_knowledge_document_def split: sum.splits)
  let ?body = "\<lambda>d. bind_result (document_repo_create e u p d) (\<lambda>(r, d'). Inr (validate_public_document r, d'))"
  have "transaction (env_commit e) ?body (open_session d) = (Inr doc, s)"
    using assms p by (simp add: create_knowledge_document_def)
  then have "?body d = Inr (doc, committed s)" using transaction_success by fastforce
  then show ?thesis
    using that [OF p] by (auto simp: document_repo_create_def Let_def bind_result_eq_Inr flush_row_ok)
qed

lemma wf_knowledge_append:
  assumes "wf_knowledge d" "kd_id r \<notin> kd_id ` set (knowledge_documents d)" "document_lengths r"
    "list_all snd (document_constraints d r)"
  shows "wf_knowledge (d\<lparr>knowledge_documents := knowledge_documents d @ [r]\<rparr>)"
proof -
  have "document_constraints (d\<lparr>knowledge_documents := x\<rparr>) y = document_constraints d y" for x y
    by (simp add: document_constraints_def)
  then show ?thesis using assms by (auto simp: wf_knowledge_def list_all_iff)
qed

lemma get_owned_document_append:
  "kd_id r \<notin> kd_id ` set (knowledge_documents d) \<Longrightarrow>
   get_owned_document (kd_id r) (kd_user_id r) (d\<lparr>knowledge_documents := knowledge_documents d @ [r]\<rparr>) = Some r"
proof -
  assume "kd_id r \<notin> kd_id ` set (knowledge_documents d)"
  then have "List.find (\<lambda>x. kd_id x = kd_id r \<and> kd_user_id x = kd_user_id r) (knowledge_documents d) = None"
    unfolding find_None_iff by (metis imageI)
  then show ?thesis by (simp add: get_owned_document_def find_append)
qed

lemma text_document_chunks:
  assumes "t \<noteq> []" "length t \<le> max_document_text_characters"
  shows "chunk_document_text K t 1 = Inr (chunks_of K 1 0 (page_pieces t)) \<and> length (page_pieces t) \<le> 112"
proof -
  have "1800 * (length (page_pieces t) - 1) < 200000"
    using page_pieces_count [OF assms(1)] assms(2) by (simp add: chunk_step_value max_document_text_characters_def)
  then have "length (page_pieces t) \<le> 112" by simp
  moreover have "1 \<le> length (page_pieces t)" using page_pieces_nonempty by (simp add: Suc_le_eq)
  ultimately show ?thesis
    using assms(1) by (simp add: chunk_document_text_eq page_texts_def max_document_chunks_def)
qed

lemma indexed_document_contents:
  assumes "wf_knowledge d" "get_owned_document (kd_id r) u d = Some r" "length vs = length cs"
  shows "map ck_content (filter (\<lambda>c. ck_document_id c = kd_id r) (knowledge_chunks (indexed_db e u r (zip cs vs) d))) =
    map dc_content cs"
proof -
  have "filter (\<lambda>c. ck_document_id c = kd_id r) (other_chunks (kd_id r) u d) = []"
    using other_chunks_documents [OF assms(1,2)] by (simp add: filter_empty_conv)
  moreover have "filter (\<lambda>c. ck_document_id c = kd_id r) (chunk_rows e (kd_id r) u (zip cs vs)) = chunk_rows e (kd_id r) u (zip cs vs)"
    by (auto simp: filter_id_conv chunk_rows_def new_chunk_def)
  moreover have "map ck_content (chunk_rows e (kd_id r) u (zip cs vs)) = map dc_content cs"
    using assms(3) by (auto intro!: nth_equalityI simp: nth_chunk_rows new_chunk_def)
  ultimately show ?thesis by (simp add: indexed_db_def)
qed

text \<open>
  C21: An uploaded text becomes searchable as a whole. After a plain text or Markdown upload was answered, indexing
  the document succeeds whenever the embedding provider answers with well-formed vectors and the database
  has no outage: it stores at most 112 chunks, marks the document INDEXED, and the stored chunks
  of the document, overlaps dropped, are the normalised text of the uploaded file.
\<close>

theorem uploaded_text_becomes_indexed:
  assumes "create_knowledge_document K e f mt content u (open_session d) = (Inr doc, s)"
    and "mt \<noteq> Some ''application/pdf''" and "wf_knowledge d" and "\<And>t. digest_format (dr_text_sha256 K t)"
    and "\<And>ts. \<exists>raw vs. provider ts = Inr raw \<and> validate_embedding_batch raw (length ts) = Inr vs"
    and "\<not> env_flush_fails e' 0" "\<not> env_flush_fails e' 1" "env_commit e' = Commit_ok" "inj (env_ids e')"
    and "\<And>x. x \<in> set (knowledge_chunks d) \<Longrightarrow> ck_id x \<notin> range (env_ids e')"
  shows "\<exists>v s' t. index_knowledge_document K provider e' (pk_id doc) u (open_session (committed s)) = (Inr v, s') \<and>
    ir_chunk_count v \<le> 112 \<and> pk_status (ir_document v) = INDEXED \<and> dr_decode K content = Some t \<and>
    normalize_text t = Inr (rebuild_page (map ck_content
      (filter (\<lambda>c. ck_document_id c = pk_id doc) (knowledge_chunks (committed s')))))"
proof -
  obtain p where p: "parse_knowledge_document K f mt content = Inr p"
    and doc: "doc = validate_public_document (new_document e u p)"
    and d1: "committed s = d\<lparr>knowledge_documents := knowledge_documents d @ [new_document e u p]\<rparr>"
    and fresh: "kd_id (new_document e u p) \<notin> kd_id ` set (knowledge_documents d)"
    and ok: "document_lengths (new_document e u p)" "list_all snd (document_constraints d (new_document e u p))"
    by (rule create_document_Inr [OF assms(1)]) blast
  let ?r = "new_document e u p" and ?d = "committed s" and ?t = "pd_extracted_text p"
  have "pd_media_type p \<noteq> ''application/pdf''" using parse_document_Inr(7) [OF p] assms(2) by auto
  then obtain t where t: "dr_decode K content = Some t" "normalize_text t = Inr ?t" and one: "pd_page_count p = 1"
    using parse_document_Inr(9) [OF p] by blast
  have fields: "pk_id doc = kd_id ?r" "kd_user_id ?r = u" "kd_extracted_text ?r = ?t" "kd_page_count ?r = 1"
    using one by (simp_all add: doc validate_public_document_def new_document_def)
  let ?cs = "chunks_of K 1 0 (page_pieces ?t)"
  have cs: "chunk_document_text K (kd_extracted_text ?r) (kd_page_count ?r) = Inr ?cs" "length ?cs \<le> 112"
    unfolding fields(3,4) length_chunks_of using text_document_chunks normalize_text_Inr [OF t(2)] by blast+
  have wf: "wf_knowledge ?d" unfolding d1 by (rule wf_knowledge_append [OF assms(3) fresh ok])
  have found: "get_owned_document (kd_id ?r) u ?d = Some ?r"
    using get_owned_document_append [OF fresh] fields(2) d1 by simp
  obtain raw vs where raw: "provider (map dc_content ?cs) = Inr raw" "validate_embedding_batch raw (length ?cs) = Inr vs"
    using assms(5) [of "map dc_content ?cs"] by auto
  let ?v = "\<lparr>ir_document = validate_public_document (indexed e' ?r), ir_chunk_count = length ?cs\<rparr>"
  let ?d2 = "indexed_db e' u ?r (zip ?cs vs) ?d"
  have "index_body K provider e' (kd_id ?r) u ?d = Inr (?v, ?d2)"
    by (rule index_body_ok [where provider = provider, OF wf found cs(1) raw _ assms(6,7,9)]) (use assms(4,10) d1 in auto)
  then have "index_knowledge_document K provider e' (pk_id doc) u (open_session ?d) = (Inr ?v, \<lparr>committed = ?d2, working = ?d2\<rparr>)"
    using assms(8) fields(1) by (simp add: index_knowledge_document_def transaction_ok open_session_def)
  moreover have "rebuild_page (map ck_content (filter (\<lambda>c. ck_document_id c = kd_id ?r) (knowledge_chunks ?d2))) = ?t"
    using indexed_document_contents [OF wf found] validate_embedding_batch_length [OF raw(2)]
    by (simp add: chunks_of_contents rebuild_page_pieces)
  ultimately show ?thesis
    using t cs(2) fields(1) by (auto simp: validate_public_document_def indexed_def)
qed

definition demo_documents :: document_rules where
  "demo_documents = \<lparr>dr_decode = Some, dr_sha256 = (\<lambda>_. replicate 64 CHR ''0''), dr_text_sha256 = (\<lambda>_. replicate 64 CHR ''0''),
     dr_pdf = (\<lambda>content. Some (False, [Some (''one'' @ [form_feed] @ ''two''), Some ''three'']))\<rparr>"

definition demo_document_env :: env where
  "demo_document_env = \<lparr>env_ids = (\<lambda>k. k + 7), env_now = 5, env_clock = Aware 5 0, env_flush_fails = (\<lambda>_. False), env_commit = Commit_ok\<rparr>"

definition demo_owner :: user where
  "demo_owner = \<lparr>u_id = 1, u_email = ''a@b.c'', u_password_hash = [], u_created_at = 0, u_updated_at = 0\<rparr>"

definition demo_provider :: "string list \<Rightarrow> embedding_value list list result" where
  "demo_provider ts = Inr (map (\<lambda>_. replicate embedding_dimensions (Finite 0)) ts)"

lemma demo_provider_valid:
  "\<exists>raw vs. demo_provider ts = Inr raw \<and> validate_embedding_batch raw (length ts) = Inr vs"
proof -
  have "traverse embedding_number (replicate n (Finite 0)) = Inr (replicate n 0)" for n
    by (induction n) simp_all
  then have "traverse (\<lambda>v. if length v \<noteq> embedding_dimensions then Inl EmbeddingProviderInvalidResponseError
      else traverse embedding_number v) (map (\<lambda>_. replicate embedding_dimensions (Finite 0)) ts) =
      Inr (map (\<lambda>_. replicate embedding_dimensions 0) ts)"
    by (induction ts) simp_all
  then show ?thesis by (simp add: demo_provider_def validate_embedding_batch_def)
qed

lemma demo_digest: "digest_format (replicate 64 CHR ''0'')"
  by (simp add: digest_format_def list_all_length char_between_def)

lemma demo_display_name: "display_name (Some ''a/note.TXT'') = Inr (''note.TXT'', ''.txt'')"
proof -
  have "map (\<lambda>c. if c = CHR 0x5C then CHR ''/'' else c) ''a/note.TXT'' = ''a/note.TXT''" by simp
  moreover have "path_name ''a/note.TXT'' = ''note.TXT''" by (simp add: path_name_def)
  moreover have "strip ''note.TXT'' = ''note.TXT''" by (simp add: strip_def py_space_def)
  moreover have "map fold_char (path_suffix ''note.TXT'') = ''.txt''"
    by code_simp
  ultimately show ?thesis
    by (simp add: display_name_def validate_persisted_text_def max_document_name_characters_def media_types_by_extension_def)
qed

lemma demo_parse:
  "parse_knowledge_document demo_documents (Some ''a/note.TXT'') (Some ''text/plain'') ''Hi '' =
     Inr \<lparr>pd_display_name = ''note.TXT'', pd_media_type = ''text/plain'', pd_byte_count = 3,
          pd_content_sha256 = replicate 64 CHR ''0'', pd_page_count = 1, pd_extracted_text = ''Hi''\<rparr>"
proof -
  have "normalize_text ''Hi '' = Inr ''Hi''"
    by (simp add: normalize_text_def normalize_newlines_def strip_def py_space_def validate_persisted_text_def
        max_document_text_characters_def)
  then show ?thesis
    by (simp add: parse_knowledge_document_def demo_display_name media_types_by_extension_def max_document_bytes_def
        has_pdf_signature_def pdf_signature_def demo_documents_def validate_persisted_text_def)
qed

theorem uploaded_text_becomes_indexed_witness:
  "\<exists>doc s v s' t. create_knowledge_document demo_documents demo_document_env (Some ''a/note.TXT'') (Some ''text/plain'') ''Hi '' 1
      (open_session (empty_db\<lparr>users := [demo_owner]\<rparr>)) = (Inr doc, s) \<and>
    index_knowledge_document demo_documents demo_provider demo_document_env (pk_id doc) 1 (open_session (committed s)) = (Inr v, s') \<and>
    ir_chunk_count v \<le> 112 \<and> pk_status (ir_document v) = INDEXED \<and> dr_decode demo_documents ''Hi '' = Some t \<and>
    normalize_text t = Inr (rebuild_page (map ck_content
      (filter (\<lambda>c. ck_document_id c = pk_id doc) (knowledge_chunks (committed s')))))"
proof -
  let ?d = "empty_db\<lparr>users := [demo_owner]\<rparr>"
  have fst: "\<exists>doc s. create_knowledge_document demo_documents demo_document_env (Some ''a/note.TXT'') (Some ''text/plain'') ''Hi '' 1
      (open_session ?d) = (Inr doc, s)"
    unfolding create_knowledge_document_def demo_parse
    by (simp add: transaction_def session_commit_def document_repo_create_def Let_def flush_row_def violated_def
        document_constraints_def document_lengths_def new_document_def demo_document_env_def empty_db_def demo_owner_def
        btrim_nonblank_def demo_digest)
  then obtain doc s where create: "create_knowledge_document demo_documents demo_document_env (Some ''a/note.TXT'')
      (Some ''text/plain'') ''Hi '' 1 (open_session ?d) = (Inr doc, s)" by blast
  have "wf_knowledge ?d" by (simp add: wf_knowledge_def empty_db_def)
  moreover have "digest_format (dr_text_sha256 demo_documents t)" for t
    by (simp add: demo_documents_def demo_digest)
  moreover have "\<not> env_flush_fails demo_document_env n" "env_commit demo_document_env = Commit_ok" "inj (env_ids demo_document_env)" for n
    by (simp_all add: demo_document_env_def inj_def)
  moreover have "x \<notin> set (knowledge_chunks ?d)" for x by (simp add: empty_db_def)
  ultimately show ?thesis
    using uploaded_text_becomes_indexed [OF create, of demo_provider demo_document_env] demo_provider_valid create by fastforce
qed

section \<open>Pages that cannot be told apart\<close>


definition demo_pdf_text :: string where
  "demo_pdf_text = ''one'' @ [form_feed] @ ''two'' @ [form_feed] @ ''three''"

definition demo_pdf_document :: knowledge_document where
  "demo_pdf_document = \<lparr>kd_id = 9, kd_user_id = 1, kd_display_name = ''a.pdf'', kd_media_type = ''application/pdf'',
     kd_byte_count = 5, kd_content_sha256 = replicate 64 CHR ''0'', kd_page_count = 2, kd_extracted_text = demo_pdf_text,
     kd_status = PARSED, kd_created_at = 0, kd_updated_at = 0\<rparr>"


end
