(* ===== verification/Knowledge_Retrieval.thy ===== *)
theory Knowledge_Retrieval
  imports Knowledge_Documents Agent_Tools "HOL-Library.Multiset"
begin

text \<open>
  Searching knowledge documents: reciprocal rank fusion (\<open>app/agent/retrieval.py\<close>), the two ranked
  queries of \<open>app/repositories/knowledge_document_chunks.py\<close>, the citation contract
  (\<open>app/schemas/knowledge_retrieval.py\<close>) and \<open>app/services/knowledge_retrieval.py\<close>. Parameters are the
  embedding provider and what the database computes: cosine distance, text match and text rank.
\<close>

section \<open>Floating point\<close>

text \<open>
  A finite \<open>float\<close> is the rational number it denotes. \<open>float_round\<close> is rounding to 53 significant bits, ties to
  even, on the positive numbers up to 1 that scores are made of.
\<close>

definition round_half_even :: "rat \<Rightarrow> int" where
  "round_half_even x =
     (let n = \<lfloor>x\<rfloor>; r = x - of_int n in
      if r < 1 / 2 \<or> (r = 1 / 2 \<and> even n) then n else n + 1)"

definition float_round :: "rat \<Rightarrow> rat" where
  "float_round q =
     (case List.find (\<lambda>k. 2 ^ 52 \<le> q * 2 ^ k) [1..<1075] of
        None \<Rightarrow> q
      | Some k \<Rightarrow> of_int (round_half_even (q * 2 ^ k)) / 2 ^ k)"

definition float_reciprocal :: "nat \<Rightarrow> rat" where
  "float_reciprocal n = float_round (1 / of_nat n)"

definition float_add :: "rat \<Rightarrow> rat \<Rightarrow> rat" where
  "float_add x y = (if x = 0 then y else float_round (x + y))"

section \<open>Reciprocal rank fusion\<close>

definition rrf_rank_constant :: nat where "rrf_rank_constant = 60"
definition max_retrieval_candidates :: nat where "max_retrieval_candidates = 40"
definition max_fused_results :: nat where "max_fused_results = 20"

record fused_chunk_rank =
  fr_chunk_id :: uuid
  fr_vector_rank :: "nat option"
  fr_lexical_rank :: "nat option"
  fr_fusion_score :: rat

text \<open>\<open>{chunk_id: rank for rank, chunk_id in enumerate(ids, start=1)}\<close>: a later entry replaces an earlier one.\<close>

definition ranks_of :: "uuid list \<Rightarrow> uuid \<Rightarrow> nat option" where
  "ranks_of ids = map_of (rev (zip ids [1..<Suc (length ids)]))"

definition validate_ranked_ids :: "uuid list \<Rightarrow> unit result" where
  "validate_ranked_ids ids =
     (if max_retrieval_candidates < length ids then Inl RetrievalFusionError
      else if length (remdups ids) \<noteq> length ids then Inl RetrievalFusionError
      else Inr ())"

definition fused_rank :: "uuid list \<Rightarrow> uuid list \<Rightarrow> uuid \<Rightarrow> fused_chunk_rank" where
  "fused_rank vector_ids lexical_ids i =
     (let v = ranks_of vector_ids i; l = ranks_of lexical_ids i;
          s1 = (case v of None \<Rightarrow> 0 | Some r \<Rightarrow> float_add 0 (float_reciprocal (rrf_rank_constant + r)));
          s2 = (case l of None \<Rightarrow> s1 | Some r \<Rightarrow> float_add s1 (float_reciprocal (rrf_rank_constant + r)))
      in \<lparr>fr_chunk_id = i, fr_vector_rank = v, fr_lexical_rank = l, fr_fusion_score = s2\<rparr>)"

text \<open>The loop visits the union of two key sets in the order in which the interpreter iterates it.\<close>

definition reciprocal_rank_fuse ::
  "(uuid list \<Rightarrow> uuid list) \<Rightarrow> uuid list \<Rightarrow> uuid list \<Rightarrow> nat \<Rightarrow> fused_chunk_rank list result" where
  "reciprocal_rank_fuse iteration vector_ids lexical_ids limit =
     (if \<not> (1 \<le> limit \<and> limit \<le> max_fused_results) then Inl RetrievalFusionError
      else bind_result (validate_ranked_ids vector_ids) (\<lambda>_.
           bind_result (validate_ranked_ids lexical_ids) (\<lambda>_.
             let fused = map (fused_rank vector_ids lexical_ids) (iteration (remdups (vector_ids @ lexical_ids)))
             in Inr (take limit (sort_key (\<lambda>x. (- fr_fusion_score x, fr_chunk_id x)) fused)))))"

section \<open>Ranked queries\<close>

text \<open>
  What the database computes for a query: the cosine distance, whether the text matches and how well. A
  statement may also fail. In an ascending order a value that is not a number comes last, in a
  descending one first.
\<close>

record ranking =
  rk_distance :: "rat list \<Rightarrow> rat list \<Rightarrow> embedding_value"
  rk_matches :: "string \<Rightarrow> string \<Rightarrow> bool"
  rk_score :: "string \<Rightarrow> string \<Rightarrow> embedding_value"
  rk_fails :: "nat \<Rightarrow> bool"
  rk_iteration :: "uuid list \<Rightarrow> uuid list"

record chunk_match =
  cm_chunk_id :: uuid
  cm_document_id :: uuid
  cm_source :: string
  cm_page_number :: int
  cm_ordinal :: int
  cm_content :: string
  cm_value :: embedding_value

fun ascending_key :: "embedding_value \<Rightarrow> nat \<times> rat" where
  "ascending_key (Finite q) = (0, q)"
| "ascending_key _ = (1, 0)"

fun descending_key :: "embedding_value \<Rightarrow> nat \<times> rat" where
  "descending_key (Finite q) = (1, - q)"
| "descending_key _ = (0, 0)"

definition owned_candidates :: "uuid \<Rightarrow> uuid list option \<Rightarrow> db \<Rightarrow> (knowledge_document_chunk \<times> knowledge_document) list" where
  "owned_candidates user_id document_ids d =
     filter (\<lambda>(c, k). kd_id k = ck_document_id c \<and> kd_user_id k = ck_user_id c \<and> ck_user_id c = user_id \<and>
                      kd_user_id k = user_id \<and> opt_all (\<lambda>ids. ck_document_id c \<in> set ids) document_ids)
       (List.product (knowledge_chunks d) (knowledge_documents d))"

definition match_of :: "(knowledge_document_chunk \<Rightarrow> embedding_value) \<Rightarrow> knowledge_document_chunk \<times> knowledge_document \<Rightarrow> chunk_match" where
  "match_of f ck = \<lparr>cm_chunk_id = ck_id (fst ck), cm_document_id = ck_document_id (fst ck), cm_source = kd_display_name (snd ck),
     cm_page_number = ck_page_number (fst ck), cm_ordinal = ck_ordinal (fst ck), cm_content = ck_content (fst ck), cm_value = f (fst ck)\<rparr>"

definition search_vector_owned ::
  "ranking \<Rightarrow> uuid \<Rightarrow> rat list \<Rightarrow> nat \<Rightarrow> uuid list option \<Rightarrow> db \<Rightarrow> chunk_match list result" where
  "search_vector_owned R user_id query_embedding top_k document_ids d =
     (if rk_fails R 0 then Inl DatabaseError
      else Inr (take top_k (sort_key (\<lambda>m. (ascending_key (cm_value m), cm_chunk_id m))
        (map (match_of (\<lambda>c. rk_distance R (ck_embedding c) query_embedding)) (owned_candidates user_id document_ids d)))))"

definition search_lexical_owned ::
  "ranking \<Rightarrow> uuid \<Rightarrow> string \<Rightarrow> nat \<Rightarrow> uuid list option \<Rightarrow> db \<Rightarrow> chunk_match list result" where
  "search_lexical_owned R user_id query top_k document_ids d =
     (if rk_fails R 1 then Inl DatabaseError
      else Inr (take top_k (sort_key (\<lambda>m. (descending_key (cm_value m), cm_chunk_id m))
        (map (match_of (\<lambda>c. rk_score R (ck_content c) query))
          (filter (\<lambda>(c, k). rk_matches R (ck_content c) query) (owned_candidates user_id document_ids d))))))"

section \<open>Citations\<close>

definition hex_digit :: "nat \<Rightarrow> char" where
  "hex_digit n = (if n < 10 then char_of (48 + n) else char_of (87 + n))"

text \<open>\<open>str(uuid)\<close>\<close>

definition uuid_text :: "uuid \<Rightarrow> string" where
  "uuid_text u =
     (let h = map (\<lambda>i. hex_digit (u div 16 ^ (31 - i) mod 16)) [0..<32]
      in take 8 h @ ''-'' @ take 4 (drop 8 h) @ ''-'' @ take 4 (drop 12 h) @ ''-'' @ take 4 (drop 16 h) @ ''-'' @ drop 20 h)"

definition citation_id :: "chunk_match \<Rightarrow> string" where
  "citation_id m = ''knowledge:'' @ uuid_text (cm_document_id m) @ '':'' @ uuid_text (cm_chunk_id m)"

definition candidate_identity :: "chunk_match \<Rightarrow> uuid \<times> string \<times> int \<times> int \<times> string" where
  "candidate_identity m = (cm_document_id m, cm_source m, cm_page_number m, cm_ordinal m, cm_content m)"

definition max_knowledge_excerpt_characters :: nat where "max_knowledge_excerpt_characters = 500"

definition validate_citation :: "knowledge_citation \<Rightarrow> knowledge_citation result" where
  "validate_citation c =
     (if len_between 1 100 (kc_citation_id c) \<and> len_between 1 255 (kc_source c) \<and>
         opt_all (\<lambda>p. 1 \<le> p \<and> p \<le> 100) (kc_page_number c) \<and> 0 \<le> kc_ordinal c \<and> kc_ordinal c \<le> 199 \<and>
         opt_all (\<lambda>q. 0 \<le> q \<and> q \<le> 2) (kc_distance c) \<and>
         opt_all (\<lambda>r. 1 \<le> r \<and> r \<le> int max_retrieval_candidates) (kc_vector_rank c) \<and>
         opt_all (\<lambda>r. 1 \<le> r \<and> r \<le> int max_retrieval_candidates) (kc_lexical_rank c) \<and>
         0 < kc_fusion_score c \<and> kc_fusion_score c \<le> 1 \<and>
         len_between 1 max_knowledge_excerpt_characters (kc_excerpt c) \<and>
         \<not> (kc_vector_rank c = None \<and> kc_lexical_rank c = None) \<and>
         (kc_vector_rank c = None) = (kc_distance c = None)
      then Inr c else Inl ValidationError)"

text \<open>The dictionaries \<open>candidates\<close> and \<open>distances\<close> that the two loops fill.\<close>

fun add_vector_matches ::
  "chunk_match list \<Rightarrow> (uuid \<rightharpoonup> chunk_match) \<times> (uuid \<rightharpoonup> rat) \<Rightarrow> ((uuid \<rightharpoonup> chunk_match) \<times> (uuid \<rightharpoonup> rat)) result" where
  "add_vector_matches [] acc = Inr acc"
| "add_vector_matches (m # ms) acc =
     (case cm_value m of
        Finite q \<Rightarrow>
          if \<not> (0 \<le> q \<and> q \<le> 2) then Inl RetrievalFusionError
          else add_vector_matches ms ((fst acc)(cm_chunk_id m \<mapsto> m), (snd acc)(cm_chunk_id m \<mapsto> q))
      | _ \<Rightarrow> Inl RetrievalFusionError)"

fun add_lexical_matches :: "chunk_match list \<Rightarrow> (uuid \<rightharpoonup> chunk_match) \<Rightarrow> (uuid \<rightharpoonup> chunk_match) result" where
  "add_lexical_matches [] acc = Inr acc"
| "add_lexical_matches (m # ms) acc =
     (case cm_value m of
        Finite q \<Rightarrow>
          if q < 0 then Inl RetrievalFusionError
          else (case acc (cm_chunk_id m) of
                  Some x \<Rightarrow> if candidate_identity x \<noteq> candidate_identity m then Inl RetrievalFusionError
                            else add_lexical_matches ms acc
                | None \<Rightarrow> add_lexical_matches ms (acc(cm_chunk_id m \<mapsto> m)))
      | _ \<Rightarrow> Inl RetrievalFusionError)"

definition citation_of ::
  "(uuid \<rightharpoonup> chunk_match) \<Rightarrow> (uuid \<rightharpoonup> rat) \<Rightarrow> fused_chunk_rank \<Rightarrow> knowledge_citation result" where
  "citation_of candidates distances rank =
     (case candidates (fr_chunk_id rank) of
        None \<Rightarrow> Inl KeyError
      | Some m \<Rightarrow> validate_citation
          \<lparr>kc_citation_id = citation_id m, kc_document_id = cm_document_id m, kc_chunk_id = fr_chunk_id rank,
           kc_source = cm_source m, kc_page_number = Some (cm_page_number m), kc_ordinal = cm_ordinal m,
           kc_distance = distances (fr_chunk_id rank), kc_vector_rank = map_option int (fr_vector_rank rank),
           kc_lexical_rank = map_option int (fr_lexical_rank rank), kc_fusion_score = fr_fusion_score rank,
           kc_excerpt = take max_knowledge_excerpt_characters (cm_content m)\<rparr>)"

definition retrieval_error :: "exn \<Rightarrow> exn" where
  "retrieval_error x =
     (if x \<in> {EmbeddingProviderConfigurationError, EmbeddingProviderUnavailableError, EmbeddingProviderInvalidResponseError,
              RetrievalFusionError, DatabaseError, ValidationError}
      then KnowledgeRetrievalError else x)"

definition search_candidates ::
  "ranking \<Rightarrow> uuid \<Rightarrow> knowledge_search_query \<Rightarrow> chunk_match list \<Rightarrow> chunk_match list \<Rightarrow> knowledge_search_result result" where
  "search_candidates R user_id q vector_matches lexical_matches =
     bind_result (add_vector_matches vector_matches (Map.empty, Map.empty)) (\<lambda>(vector_candidates, distances).
     bind_result (add_lexical_matches lexical_matches vector_candidates) (\<lambda>candidates.
     bind_result (reciprocal_rank_fuse (rk_iteration R) (map cm_chunk_id vector_matches) (map cm_chunk_id lexical_matches) (ks_top_k q)) (\<lambda>fused.
     bind_result (traverse (citation_of candidates distances) fused) (\<lambda>citations.
       if length citations \<le> 20 then Inr citations else Inl ValidationError))))"

definition search_owned_knowledge ::
  "ranking \<Rightarrow> (string list \<Rightarrow> embedding_value list list result) \<Rightarrow> knowledge_search_query \<Rightarrow> uuid \<Rightarrow> db \<Rightarrow> knowledge_search_result result" where
  "search_owned_knowledge R provider q user_id d =
     (case bind_result (provider [ks_query q]) (\<lambda>raw.
           bind_result (validate_embedding_batch raw 1) (\<lambda>vectors.
           bind_result (search_vector_owned R user_id (hd vectors) max_retrieval_candidates (ks_document_ids q) d) (\<lambda>vector_matches.
           bind_result (search_lexical_owned R user_id (ks_query q) max_retrieval_candidates (ks_document_ids q) d) (\<lambda>lexical_matches.
             search_candidates R user_id q vector_matches lexical_matches)))) of
        Inl x \<Rightarrow> Inl (retrieval_error x)
      | Inr result \<Rightarrow> Inr result)"

section \<open>Bounds of scores\<close>

lemma round_half_even_bounds:
  "of_int m \<le> x \<Longrightarrow> m \<le> round_half_even x" "x \<le> of_int n \<Longrightarrow> round_half_even x \<le> n"
proof -
  show "m \<le> round_half_even x" if "of_int m \<le> x"
  proof -
    have "m \<le> \<lfloor>x\<rfloor>" using that by (simp add: le_floor_iff)
    then show ?thesis by (simp add: round_half_even_def Let_def)
  qed
  assume n: "x \<le> of_int n"
  show "round_half_even x \<le> n"
  proof (cases "x = of_int n")
    case True
    then show ?thesis by (simp add: round_half_even_def)
  next
    case False
    then have "\<lfloor>x\<rfloor> < n" using n by (simp add: floor_less_iff)
    then show ?thesis by (simp add: round_half_even_def Let_def)
  qed
qed

lemma float_round_cases:
  obtains (tiny) "float_round q = q"
  | (scaled) k where "1 \<le> k" "2 ^ 52 \<le> q * 2 ^ k" "float_round q = of_int (round_half_even (q * 2 ^ k)) / 2 ^ k"
  by (cases "List.find (\<lambda>k. 2 ^ 52 \<le> q * 2 ^ k) [1..<1075]")
     (auto simp: float_round_def find_Some_iff2 dest!: find_SomeD intro: that)

lemma float_round_pos: "0 < q \<Longrightarrow> 0 < float_round q"
proof (cases q rule: float_round_cases)
  case (scaled k)
  have "of_int (2 ^ 52) \<le> q * 2 ^ k" using scaled(2) by simp
  then have "2 ^ 52 \<le> round_half_even (q * 2 ^ k)" by (rule round_half_even_bounds(1))
  then have "0 < round_half_even (q * 2 ^ k)" by (rule less_le_trans [rotated]) simp
  then show ?thesis by (simp add: scaled(3))
qed simp

lemma float_round_half: "0 < q \<Longrightarrow> q \<le> 1 / 2 \<Longrightarrow> float_round q \<le> 1 / 2"
proof (cases q rule: float_round_cases)
  case (scaled k)
  assume "q \<le> 1 / 2"
  then obtain j where k: "k = Suc j" using scaled(1) by (cases k) auto
  have "q * 2 ^ k \<le> of_int (2 ^ j)" using \<open>q \<le> 1 / 2\<close> by (simp add: k field_simps)
  then have "round_half_even (q * 2 ^ k) \<le> 2 ^ j" by (rule round_half_even_bounds(2))
  then have "(of_int (round_half_even (q * 2 ^ k)) :: rat) \<le> of_int (2 ^ j)" by (simp only: of_int_le_iff)
  then show ?thesis by (simp add: scaled(3) k field_simps)
qed simp

lemma float_round_one: "0 < q \<Longrightarrow> q \<le> 1 \<Longrightarrow> float_round q \<le> 1"
proof (cases q rule: float_round_cases)
  case (scaled k)
  assume "q \<le> 1"
  then have "q * 2 ^ k \<le> of_int (2 ^ k)" by (simp add: mult_left_le_one_le)
  then have "round_half_even (q * 2 ^ k) \<le> 2 ^ k" by (rule round_half_even_bounds(2))
  then have "(of_int (round_half_even (q * 2 ^ k)) :: rat) \<le> of_int (2 ^ k)" by (simp only: of_int_le_iff)
  then show ?thesis by (simp add: scaled(3) field_simps)
qed simp

lemma float_reciprocal_bounds: "2 \<le> n \<Longrightarrow> 0 < float_reciprocal n \<and> float_reciprocal n \<le> 1 / 2"
proof -
  assume "2 \<le> n"
  then have "0 < 1 / rat_of_nat n" "1 / rat_of_nat n \<le> 1 / 2" by (simp_all add: field_simps)
  then show ?thesis unfolding float_reciprocal_def using float_round_pos float_round_half by blast
qed

lemma fused_score_bounds:
  assumes "ranks_of v i \<noteq> None \<or> ranks_of l i \<noteq> None"
  shows "0 < fr_fusion_score (fused_rank v l i) \<and> fr_fusion_score (fused_rank v l i) \<le> 1"
proof -
  have f: "0 < float_reciprocal (rrf_rank_constant + r)" "float_reciprocal (rrf_rank_constant + r) \<le> 1 / 2" for r
    using float_reciprocal_bounds [of "rrf_rank_constant + r"] by (simp_all add: rrf_rank_constant_def)
  have one: "float_reciprocal (rrf_rank_constant + r) \<le> 1" for r using f(2) [of r] by simp
  have two: "0 < float_add x y \<and> float_add x y \<le> 1" if "0 < x" "x \<le> 1 / 2" "0 < y" "y \<le> 1 / 2" for x y
    using that by (auto simp: float_add_def intro!: float_round_pos float_round_one)
  show ?thesis
    using assms f one two by (auto simp: fused_rank_def Let_def float_add_def [of 0] split: option.splits)
qed

section \<open>Fusion\<close>

definition fusion_key :: "fused_chunk_rank \<Rightarrow> rat \<times> uuid" where
  "fusion_key x = (- fr_fusion_score x, fr_chunk_id x)"

lemma fused_rank_id [simp]: "fr_chunk_id (fused_rank v l i) = i"
  by (simp add: fused_rank_def Let_def)

lemma validate_ranked_ids_eq:
  "validate_ranked_ids ids =
     (if length ids \<le> max_retrieval_candidates \<and> distinct ids then Inr () else Inl RetrievalFusionError)"
  by (simp add: validate_ranked_ids_def length_remdups_eq remdups_id_iff_distinct not_less)

lemma ranks_of_iff:
  "distinct ids \<Longrightarrow> ranks_of ids i = Some r \<longleftrightarrow> 1 \<le> r \<and> r \<le> length ids \<and> ids ! (r - 1) = i"
proof -
  assume d: "distinct ids"
  have "distinct (map fst (rev (zip ids [1..<Suc (length ids)])))" using d by (simp add: rev_map [symmetric] del: upt_Suc)
  then have "ranks_of ids i = Some r \<longleftrightarrow> (i, r) \<in> set (zip ids [1..<Suc (length ids)])"
    unfolding ranks_of_def by (simp add: map_of_eq_Some_iff del: upt_Suc)
  also have "\<dots> \<longleftrightarrow> (\<exists>k < length ids. ids ! k = i \<and> r = Suc k)"
    by (auto simp: in_set_zip simp del: upt_Suc)
  also have "\<dots> \<longleftrightarrow> 1 \<le> r \<and> r \<le> length ids \<and> ids ! (r - 1) = i"
    by (cases r) (auto simp: Suc_le_eq)
  finally show ?thesis .
qed

lemma ranks_of_None_iff: "distinct ids \<Longrightarrow> ranks_of ids i = None \<longleftrightarrow> i \<notin> set ids"
  unfolding ranks_of_def map_of_eq_None_iff by (simp add: image_set rev_map [symmetric] del: upt_Suc set_map)

definition fusion_ranking :: "uuid list \<Rightarrow> uuid list \<Rightarrow> fused_chunk_rank list" where
  "fusion_ranking v l = sort_key fusion_key (map (fused_rank v l) (remdups (v @ l)))"

lemma reciprocal_rank_fuse_eq:
  assumes "\<And>xs. mset (iteration xs) = mset xs"
  shows "reciprocal_rank_fuse iteration v l k =
    (if k \<in> {1..max_fused_results} \<and> length v \<le> max_retrieval_candidates \<and> distinct v \<and>
        length l \<le> max_retrieval_candidates \<and> distinct l
     then Inr (take k (fusion_ranking v l)) else Inl RetrievalFusionError)"
proof -
  let ?ids = "remdups (v @ l)"
  have inj: "inj_on fusion_key (set (map (fused_rank v l) (iteration ?ids)))"
    by (auto simp: inj_on_def fusion_key_def)
  have "sort_key fusion_key (map (fused_rank v l) (iteration ?ids)) = fusion_ranking v l"
    unfolding fusion_ranking_def
    by (rule sort_key_eq_sort_key [OF _ inj]) (simp add: assms del: remdups_append2)
  then have "sort_key (\<lambda>x. (- fr_fusion_score x, fr_chunk_id x)) (map (fused_rank v l) (iteration ?ids)) = fusion_ranking v l"
    by (simp add: fusion_key_def [abs_def])
  then show ?thesis
    by (auto simp: reciprocal_rank_fuse_def validate_ranked_ids_eq Let_def)
qed

lemma fusion_ranking_ids:
  "set (map fr_chunk_id (fusion_ranking v l)) = set v \<union> set l" "distinct (map fr_chunk_id (fusion_ranking v l))"
  "length (fusion_ranking v l) = card (set v \<union> set l)"
proof -
  have mset: "mset (map fr_chunk_id (fusion_ranking v l)) = mset (remdups (v @ l))"
    by (simp add: fusion_ranking_def multiset.map_comp comp_def del: remdups_append2)
  then show set: "set (map fr_chunk_id (fusion_ranking v l)) = set v \<union> set l"
    by (metis set_append set_mset_mset set_remdups)
  show "distinct (map fr_chunk_id (fusion_ranking v l))"
    using mset by (metis distinct_remdups mset_eq_imp_distinct_iff)
  then show "length (fusion_ranking v l) = card (set v \<union> set l)"
    using set by (metis distinct_card length_map)
qed

lemma fusion_ranking_mem: "x \<in> set (fusion_ranking v l) \<Longrightarrow> x = fused_rank v l (fr_chunk_id x)"
  by (auto simp: fusion_ranking_def)

lemma fusion_ranking_order: "sorted_wrt (\<lambda>x y. fusion_key x < fusion_key y) (fusion_ranking v l)"
proof -
  have "sorted (map fusion_key (fusion_ranking v l))" by (simp add: fusion_ranking_def)
  moreover have "distinct (map fusion_key (fusion_ranking v l))"
    using fusion_ranking_ids(2) [of v l] by (auto simp: distinct_map inj_on_def fusion_key_def)
  ultimately have "sorted_wrt (<) (map fusion_key (fusion_ranking v l))" by (simp add: strict_sorted_iff)
  then show ?thesis by (simp add: sorted_wrt_map)
qed

text \<open>
  C23: Rank fusion is deterministic and exact. Whatever order the interpreter visits the candidates in, the result is the same:
  with a limit from 1 to 20 and two rankings of at most 40 distinct candidates, it holds the best candidates, as many as
  the limit and the candidates allow, each once, with its positions in the two rankings, in strictly descending
  order of their score (ties by identifier), and every omitted candidate ranks behind all of them. All other inputs are refused.
\<close>

theorem fusion_deterministic:
  assumes "\<And>xs. mset (iteration xs) = mset xs"
  shows "case reciprocal_rank_fuse iteration v l k of
      Inl x \<Rightarrow> x = RetrievalFusionError \<and>
        (k \<notin> {1..20} \<or> 40 < length v \<or> \<not> distinct v \<or> 40 < length l \<or> \<not> distinct l)
    | Inr rs \<Rightarrow> reciprocal_rank_fuse id v l k = Inr rs \<and>
        length rs = min k (card (set v \<union> set l)) \<and> distinct (map fr_chunk_id rs) \<and>
        set (map fr_chunk_id rs) \<subseteq> set v \<union> set l \<and>
        sorted_wrt (\<lambda>x y. fusion_key x < fusion_key y) rs \<and>
        (\<forall>x \<in> set rs. x = fused_rank v l (fr_chunk_id x) \<and>
          (\<forall>r. fr_vector_rank x = Some r \<longleftrightarrow> 1 \<le> r \<and> r \<le> length v \<and> v ! (r - 1) = fr_chunk_id x) \<and>
          (\<forall>r. fr_lexical_rank x = Some r \<longleftrightarrow> 1 \<le> r \<and> r \<le> length l \<and> l ! (r - 1) = fr_chunk_id x) \<and>
          (\<forall>i \<in> set v \<union> set l - set (map fr_chunk_id rs). fusion_key x < fusion_key (fused_rank v l i)))"
proof (cases "k \<in> {1..max_fused_results} \<and> length v \<le> max_retrieval_candidates \<and> distinct v \<and>
        length l \<le> max_retrieval_candidates \<and> distinct l")
  case False
  then have "reciprocal_rank_fuse iteration v l k = Inl RetrievalFusionError"
    unfolding reciprocal_rank_fuse_eq [OF assms] by (rule if_not_P)
  then show ?thesis using False by (auto simp: max_fused_results_def max_retrieval_candidates_def)
next
  case True
  let ?rs = "take k (fusion_ranking v l)"
  have eq: "reciprocal_rank_fuse iteration v l k = Inr ?rs" "reciprocal_rank_fuse id v l k = Inr ?rs"
    using True by (simp_all add: reciprocal_rank_fuse_eq [OF assms] reciprocal_rank_fuse_eq [of id])
  have all: "\<And>x. x \<in> set ?rs \<Longrightarrow> x \<in> set (fusion_ranking v l)" by (meson in_set_takeD)
  have rest: "fusion_key x < fusion_key (fused_rank v l i)"
    if x: "x \<in> set ?rs" and i: "i \<in> set v \<union> set l - set (map fr_chunk_id ?rs)" for x i
  proof -
    have "i \<in> set (map fr_chunk_id (fusion_ranking v l))" using i fusion_ranking_ids(1) by blast
    then obtain y where y: "y \<in> set (fusion_ranking v l)" "fr_chunk_id y = i" by auto
    then have "y \<in> set (drop k (fusion_ranking v l))"
      using i by (metis DiffD2 Un_iff append_take_drop_id image_eqI list.set_map set_append)
    moreover have "sorted_wrt (\<lambda>x y. fusion_key x < fusion_key y) (?rs @ drop k (fusion_ranking v l))"
      using fusion_ranking_order by simp
    ultimately have "fusion_key x < fusion_key y" using x unfolding sorted_wrt_append by blast
    then show ?thesis using fusion_ranking_mem [OF y(1)] y(2) by simp
  qed
  have ids: "set (map fr_chunk_id ?rs) \<subseteq> set v \<union> set l" "distinct (map fr_chunk_id ?rs)"
    using fusion_ranking_ids(1) [of v l] all fusion_ranking_ids(2) [of v l]
    by (force, simp add: take_map [symmetric] distinct_take)
  have ranks: "fr_vector_rank x = ranks_of v (fr_chunk_id x)" "fr_lexical_rank x = ranks_of l (fr_chunk_id x)"
    if "x \<in> set ?rs" for x
    using fusion_ranking_mem [OF all [OF that]] by (simp_all add: fused_rank_def Let_def) (metis fused_chunk_rank.select_convs)+
  show ?thesis
    unfolding eq sum.case using ids rest ranks fusion_ranking_mem all True
    by (auto simp: fusion_ranking_ids(3) min.commute sorted_wrt_take fusion_ranking_order ranks_of_iff)
qed

theorem fusion_deterministic_witness:
  "\<exists>rs. (\<forall>xs :: uuid list. mset (rev xs) = mset xs) \<and> reciprocal_rank_fuse rev [3, 5] [5, 9] 2 = Inr rs \<and>
     reciprocal_rank_fuse id [3, 5] [5, 9] 2 = Inr rs \<and> length rs = 2"
proof -
  have "\<exists>rs. reciprocal_rank_fuse rev [3, 5] [5, 9] 2 = Inr rs"
    by (simp add: reciprocal_rank_fuse_eq max_fused_results_def max_retrieval_candidates_def)
  then obtain rs where rs: "reciprocal_rank_fuse rev [3, 5] [5, 9] 2 = Inr rs" by blast
  have m: "mset (rev xs) = mset xs" for xs :: "uuid list" by simp
  note fusion_deterministic [where iteration = rev and v = "[3, 5]" and l = "[5, 9]" and k = 2, OF m, unfolded rs sum.case]
  then have "reciprocal_rank_fuse id [3, 5] [5, 9] 2 = Inr rs" "length rs = min 2 (card (set [3, 5] \<union> set [5, 9 :: nat]))" by blast+
  then show ?thesis using rs m by (intro exI [of _ rs]) (simp add: card_insert_if)
qed

section \<open>Candidates\<close>

lemma add_vector_matches_Inr:
  "add_vector_matches ms acc = Inr (cand, dsts) \<Longrightarrow>
   dom cand = dom (fst acc) \<union> cm_chunk_id ` set ms \<and> dom dsts = dom (snd acc) \<union> cm_chunk_id ` set ms \<and>
   (\<forall>i m. cand i = Some m \<longrightarrow> fst acc i = Some m \<or> m \<in> set ms \<and> cm_chunk_id m = i) \<and>
   (\<forall>i q. dsts i = Some q \<longrightarrow> snd acc i = Some q \<or> 0 \<le> q \<and> q \<le> 2)"
proof (induction ms acc rule: add_vector_matches.induct)
  case (2 m ms acc)
  obtain q where q: "cm_value m = Finite q" "0 \<le> q" "q \<le> 2"
    using "2.prems" by (auto split: embedding_value.splits if_splits)
  let ?acc = "((fst acc)(cm_chunk_id m \<mapsto> m), (snd acc)(cm_chunk_id m \<mapsto> q))"
  have ih: "dom cand = dom (fst ?acc) \<union> cm_chunk_id ` set ms \<and> dom dsts = dom (snd ?acc) \<union> cm_chunk_id ` set ms \<and>
     (\<forall>i x. cand i = Some x \<longrightarrow> fst ?acc i = Some x \<or> x \<in> set ms \<and> cm_chunk_id x = i) \<and>
     (\<forall>i x. dsts i = Some x \<longrightarrow> snd ?acc i = Some x \<or> 0 \<le> x \<and> x \<le> 2)"
    by (rule "2.IH" [OF q(1)]) (use "2.prems" q in simp_all)
  then have "fst acc i = Some x \<or> x \<in> set (m # ms) \<and> cm_chunk_id x = i" if "cand i = Some x" for i x
    using that by (auto split: if_splits)
  moreover have "snd acc i = Some x \<or> 0 \<le> x \<and> x \<le> 2" if "dsts i = Some x" for i x
  proof -
    have "snd ?acc i = Some x \<or> 0 \<le> x \<and> x \<le> 2" using ih that by blast
    then show ?thesis using q by (auto split: if_splits)
  qed
  moreover have "dom cand = dom (fst acc) \<union> cm_chunk_id ` set (m # ms)" "dom dsts = dom (snd acc) \<union> cm_chunk_id ` set (m # ms)"
    using ih by (simp_all del: fun_upd_apply)
  ultimately show ?case by blast
qed auto

lemma add_vector_matches_ok:
  "list_all (\<lambda>m. \<exists>q. cm_value m = Finite q \<and> 0 \<le> q \<and> q \<le> 2) ms \<Longrightarrow> \<exists>r. add_vector_matches ms acc = Inr r"
  by (induction ms acc rule: add_vector_matches.induct) auto

lemma add_lexical_matches_Inr:
  "add_lexical_matches ms acc = Inr cand \<Longrightarrow>
   dom cand = dom acc \<union> cm_chunk_id ` set ms \<and>
   (\<forall>i m. cand i = Some m \<longrightarrow> acc i = Some m \<or> m \<in> set ms \<and> cm_chunk_id m = i)"
proof (induction ms acc rule: add_lexical_matches.induct)
  case (2 m ms acc)
  obtain q where q: "cm_value m = Finite q" "\<not> q < 0"
    using "2.prems" by (auto split: embedding_value.splits if_splits)
  show ?case
  proof (cases "acc (cm_chunk_id m)")
    case None
    then have "dom cand = dom (acc(cm_chunk_id m \<mapsto> m)) \<union> cm_chunk_id ` set ms \<and>
      (\<forall>i x. cand i = Some x \<longrightarrow> (acc(cm_chunk_id m \<mapsto> m)) i = Some x \<or> x \<in> set ms \<and> cm_chunk_id x = i)"
      by (intro "2.IH"(1) [OF q None]) (use "2.prems" q None in \<open>simp del: fun_upd_apply\<close>)
    then show ?thesis by (auto split: if_splits)
  next
    case (Some x)
    then have "dom cand = dom acc \<union> cm_chunk_id ` set ms \<and>
      (\<forall>i m. cand i = Some m \<longrightarrow> acc i = Some m \<or> m \<in> set ms \<and> cm_chunk_id m = i)"
      by (intro "2.IH"(2) [OF q Some]) (use "2.prems" q Some in \<open>simp_all split: if_splits\<close>)
    then show ?thesis using Some by auto
  qed
qed auto

lemma add_lexical_matches_ok:
  "list_all (\<lambda>m. (\<exists>q. cm_value m = Finite q \<and> 0 \<le> q) \<and> candidate_identity m = ident (cm_chunk_id m)) ms \<Longrightarrow>
   \<forall>i x. acc i = Some x \<longrightarrow> candidate_identity x = ident i \<Longrightarrow> \<exists>r. add_lexical_matches ms acc = Inr r"
  by (induction ms acc rule: add_lexical_matches.induct) (auto split: option.splits)

lemma citation_of_Inr:
  assumes "citation_of cand dsts rank = Inr c"
  shows "\<exists>m. cand (fr_chunk_id rank) = Some m \<and> kc_chunk_id c = fr_chunk_id rank \<and> kc_document_id c = cm_document_id m \<and>
    kc_source c = cm_source m \<and> kc_excerpt c = take max_knowledge_excerpt_characters (cm_content m)"
  using assms by (auto simp: citation_of_def validate_citation_def split: option.splits if_splits)

lemma search_candidates_Inr:
  assumes "search_candidates R u q v l = Inr cs" and "\<And>xs. mset (rk_iteration R xs) = mset xs"
  shows "length cs \<le> ks_top_k q" "distinct (map kc_chunk_id cs)"
    "c \<in> set cs \<Longrightarrow> \<exists>m \<in> set v \<union> set l. kc_chunk_id c = cm_chunk_id m \<and> kc_document_id c = cm_document_id m \<and>
       kc_source c = cm_source m \<and> kc_excerpt c = take max_knowledge_excerpt_characters (cm_content m)"
proof -
  obtain cand dsts cand' fused where a: "add_vector_matches v (Map.empty, Map.empty) = Inr (cand, dsts)"
      "add_lexical_matches l cand = Inr cand'"
      "reciprocal_rank_fuse (rk_iteration R) (map cm_chunk_id v) (map cm_chunk_id l) (ks_top_k q) = Inr fused"
      "traverse (citation_of cand' dsts) fused = Inr cs"
    using assms(1) unfolding search_candidates_def
    by (auto simp: bind_result_eq_Inr split: if_splits prod.splits)
  have cs: "list_all2 (\<lambda>r c. citation_of cand' dsts r = Inr c) fused cs"
    using a(4) by (simp add: traverse_Inr_iff)
  have fused: "fused = take (ks_top_k q) (fusion_ranking (map cm_chunk_id v) (map cm_chunk_id l))"
    using a(3) by (simp add: reciprocal_rank_fuse_eq [OF assms(2)] split: if_splits)
  have "map kc_chunk_id cs = map fr_chunk_id fused"
    using cs by (induction rule: list_all2_induct) (auto dest: citation_of_Inr)
  then show "distinct (map kc_chunk_id cs)"
    using fusion_ranking_ids(2) by (simp add: fused take_map [symmetric] distinct_take)
  show "length cs \<le> ks_top_k q" using list_all2_lengthD [OF cs] by (simp add: fused)
  assume "c \<in> set cs"
  then obtain k where k: "k < length cs" "cs ! k = c" by (auto simp: in_set_conv_nth)
  then obtain r where r: "citation_of cand' dsts r = Inr c"
    using list_all2_nthD2 [OF cs k(1)] by simp
  obtain m where m: "cand' (fr_chunk_id r) = Some m" "kc_chunk_id c = fr_chunk_id r" "kc_document_id c = cm_document_id m"
      "kc_source c = cm_source m" "kc_excerpt c = take max_knowledge_excerpt_characters (cm_content m)"
    using citation_of_Inr [OF r] by blast
  have "cand (fr_chunk_id r) = Some m \<or> m \<in> set l \<and> cm_chunk_id m = fr_chunk_id r"
    using add_lexical_matches_Inr [OF a(2)] m(1) by blast
  moreover have "m \<in> set v \<and> cm_chunk_id m = fr_chunk_id r" if "cand (fr_chunk_id r) = Some m"
    using add_vector_matches_Inr [OF a(1)] that by simp
  ultimately have "m \<in> set v \<union> set l \<and> cm_chunk_id m = fr_chunk_id r" by blast
  then show "\<exists>m \<in> set v \<union> set l. kc_chunk_id c = cm_chunk_id m \<and> kc_document_id c = cm_document_id m \<and>
       kc_source c = cm_source m \<and> kc_excerpt c = take max_knowledge_excerpt_characters (cm_content m)"
    using m by metis
qed

section \<open>Ownership of answers\<close>

definition knowledge_view :: "uuid \<Rightarrow> db \<Rightarrow> db" where
  "knowledge_view u d = d\<lparr>knowledge_documents := filter (\<lambda>k. kd_user_id k = u) (knowledge_documents d),
     knowledge_chunks := filter (\<lambda>c. ck_user_id c = u) (knowledge_chunks d)\<rparr>"

lemma filter_product:
  "(\<And>x y. P (x, y) \<Longrightarrow> A x \<and> B y) \<Longrightarrow>
   filter P (List.product (filter A xs) (filter B ys)) = filter P (List.product xs ys)"
proof (induction xs)
  case (Cons x xs)
  have "filter P (map (Pair x) (filter B ys)) = filter P (map (Pair x) ys)"
    using Cons.prems by (induction ys) auto
  moreover have "filter P (map (Pair x) ys) = []" if "\<not> A x"
    using Cons.prems that by (auto simp: filter_empty_conv)
  ultimately show ?case using Cons by simp
qed simp

lemma owned_candidates_view: "owned_candidates u ids (knowledge_view u d) = owned_candidates u ids d"
  unfolding owned_candidates_def knowledge_view_def
  by (simp, rule filter_product) auto

lemma owned_candidates_mem:
  "(c, k) \<in> set (owned_candidates u ids d) \<longleftrightarrow>
   c \<in> set (knowledge_chunks d) \<and> k \<in> set (knowledge_documents d) \<and> kd_id k = ck_document_id c \<and>
   kd_user_id k = u \<and> ck_user_id c = u \<and> opt_all (\<lambda>xs. ck_document_id c \<in> set xs) ids"
  by (auto simp: owned_candidates_def)

lemma search_matches_mem:
  assumes "search_vector_owned R u e n ids d = Inr v" "search_lexical_owned R u t n ids d = Inr l" "m \<in> set v \<union> set l"
  obtains f c k where "(c, k) \<in> set (owned_candidates u ids d)" "m = match_of f (c, k)"
proof -
  from assms(3) have "\<exists>f ck. ck \<in> set (owned_candidates u ids d) \<and> m = match_of f ck"
  proof
    assume "m \<in> set v"
    then have "m \<in> match_of (\<lambda>c. rk_distance R (ck_embedding c) e) ` set (owned_candidates u ids d)"
      using assms(1) by (auto simp: search_vector_owned_def dest!: in_set_takeD split: if_splits)
    then show ?thesis by blast
  next
    assume "m \<in> set l"
    then have "m \<in> match_of (\<lambda>c. rk_score R (ck_content c) t) ` set (owned_candidates u ids d)"
      using assms(2) by (auto simp: search_lexical_owned_def dest!: in_set_takeD split: if_splits)
    then show ?thesis by blast
  qed
  then show ?thesis using that by (metis prod.collapse)
qed

lemma search_owned_knowledge_Inr:
  assumes "search_owned_knowledge R provider q u d = Inr cs"
  obtains vectors v l where "search_vector_owned R u (hd vectors) max_retrieval_candidates (ks_document_ids q) d = Inr v"
    "search_lexical_owned R u (ks_query q) max_retrieval_candidates (ks_document_ids q) d = Inr l"
    "search_candidates R u q v l = Inr cs"
  using assms unfolding search_owned_knowledge_def
  by (auto simp: bind_result_eq_Inr split: sum.splits)

text \<open>
  A knowledge search stays with its owner. Its answer depends only on the documents and chunks of the searching user:
  removing those of all other users changes nothing. Every citation of an answer names a stored chunk and document of that user,
  inside the requested documents when there is a filter, with at most 500 characters of the
  chunk's text; there are at most as many as requested and no chunk is cited twice.
\<close>

theorem knowledge_search_owner_scoped:
  assumes "\<And>xs. mset (rk_iteration R xs) = mset xs"
  shows "search_owned_knowledge R provider q u (knowledge_view u d) = search_owned_knowledge R provider q u d \<and>
    (case search_owned_knowledge R provider q u d of
       Inl _ \<Rightarrow> True
     | Inr cs \<Rightarrow> length cs \<le> ks_top_k q \<and> distinct (map kc_chunk_id cs) \<and>
         list_all (\<lambda>c. \<exists>x \<in> set (knowledge_chunks d). \<exists>k \<in> set (knowledge_documents d).
           ck_id x = kc_chunk_id c \<and> ck_user_id x = u \<and> kd_user_id k = u \<and> kd_id k = kc_document_id c \<and>
           ck_document_id x = kc_document_id c \<and> kc_source c = kd_display_name k \<and> kc_excerpt c = take 500 (ck_content x) \<and>
           opt_all (\<lambda>ids. kc_document_id c \<in> set ids) (ks_document_ids q)) cs)"
proof (intro conjI)
  show "search_owned_knowledge R provider q u (knowledge_view u d) = search_owned_knowledge R provider q u d"
    unfolding search_owned_knowledge_def search_vector_owned_def search_lexical_owned_def owned_candidates_view ..
  show "case search_owned_knowledge R provider q u d of
       Inl _ \<Rightarrow> True
     | Inr cs \<Rightarrow> length cs \<le> ks_top_k q \<and> distinct (map kc_chunk_id cs) \<and>
         list_all (\<lambda>c. \<exists>x \<in> set (knowledge_chunks d). \<exists>k \<in> set (knowledge_documents d).
           ck_id x = kc_chunk_id c \<and> ck_user_id x = u \<and> kd_user_id k = u \<and> kd_id k = kc_document_id c \<and>
           ck_document_id x = kc_document_id c \<and> kc_source c = kd_display_name k \<and> kc_excerpt c = take 500 (ck_content x) \<and>
           opt_all (\<lambda>ids. kc_document_id c \<in> set ids) (ks_document_ids q)) cs"
  proof (cases "search_owned_knowledge R provider q u d")
    case (Inr cs)
    obtain vectors v l where a: "search_vector_owned R u (hd vectors) max_retrieval_candidates (ks_document_ids q) d = Inr v"
      "search_lexical_owned R u (ks_query q) max_retrieval_candidates (ks_document_ids q) d = Inr l"
      "search_candidates R u q v l = Inr cs"
      by (rule search_owned_knowledge_Inr [OF Inr])
    have "\<exists>x \<in> set (knowledge_chunks d). \<exists>k \<in> set (knowledge_documents d).
           ck_id x = kc_chunk_id c \<and> ck_user_id x = u \<and> kd_user_id k = u \<and> kd_id k = kc_document_id c \<and>
           ck_document_id x = kc_document_id c \<and> kc_source c = kd_display_name k \<and> kc_excerpt c = take 500 (ck_content x) \<and>
           opt_all (\<lambda>ids. kc_document_id c \<in> set ids) (ks_document_ids q)" if c: "c \<in> set cs" for c
    proof -
      obtain m where m: "m \<in> set v \<union> set l" "kc_chunk_id c = cm_chunk_id m" "kc_document_id c = cm_document_id m"
          "kc_source c = cm_source m" "kc_excerpt c = take max_knowledge_excerpt_characters (cm_content m)"
        using search_candidates_Inr(3) [OF a(3) assms c] by blast
      obtain f x k where x: "(x, k) \<in> set (owned_candidates u (ks_document_ids q) d)" "m = match_of f (x, k)"
        by (rule search_matches_mem [OF a(1,2) m(1)])
      show ?thesis
        using x(1) m(2-5) unfolding owned_candidates_mem x(2)
        by (intro bexI [of _ x] bexI [of _ k]) (auto simp: match_of_def max_knowledge_excerpt_characters_def)
    qed
    then show ?thesis
      unfolding Inr sum.case list_all_iff using search_candidates_Inr(1,2) [OF a(3) assms] by blast
  qed simp
qed

section \<open>Availability\<close>

text \<open>What the constraints and the relevant documented behaviour of the database guarantee a search.\<close>

definition wf_chunks :: "db \<Rightarrow> bool" where
  "wf_chunks d \<longleftrightarrow> wf_knowledge d \<and> distinct (map ck_id (knowledge_chunks d)) \<and>
     list_all (\<lambda>c. list_all snd (chunk_constraints d c)) (knowledge_chunks d)"

definition ranking_ok :: "ranking \<Rightarrow> bool" where
  "ranking_ok R \<longleftrightarrow> \<not> rk_fails R 0 \<and> \<not> rk_fails R 1 \<and> (\<forall>xs. mset (rk_iteration R xs) = mset xs) \<and>
     (\<forall>v w. \<exists>q. rk_distance R v w = Finite q \<and> 0 \<le> q \<and> q \<le> 2) \<and> (\<forall>t s. \<exists>q. rk_score R t s = Finite q \<and> 0 \<le> q)"

lemma owned_candidates_distinct:
  assumes "wf_chunks d"
  shows "distinct (map (\<lambda>ck. ck_id (fst ck)) (owned_candidates u ids d))"
proof -
  have d: "distinct (map ck_id (knowledge_chunks d))" "distinct (map kd_id (knowledge_documents d))"
    using assms by (simp_all add: wf_chunks_def wf_knowledge_def)
  then have "distinct (owned_candidates u ids d)"
    by (simp add: owned_candidates_def distinct_product distinct_map)
  moreover have "inj_on (\<lambda>ck. ck_id (fst ck)) (set (owned_candidates u ids d))"
  proof (rule inj_onI)
    fix x y assume xy: "x \<in> set (owned_candidates u ids d)" "y \<in> set (owned_candidates u ids d)"
      and eq: "ck_id (fst x) = ck_id (fst y)"
    obtain c k where x: "x = (c, k)" by force
    obtain c' k' where y: "y = (c', k')" by force
    have "c \<in> set (knowledge_chunks d)" "c' \<in> set (knowledge_chunks d)" "k \<in> set (knowledge_documents d)"
      "k' \<in> set (knowledge_documents d)" "kd_id k = ck_document_id c" "kd_id k' = ck_document_id c'"
      using xy unfolding x y owned_candidates_mem by blast+
    moreover from this have "c = c'" using d(1) eq x y by (simp add: distinct_map inj_on_def)
    ultimately show "x = y" using d(2) x y by (simp add: distinct_map inj_on_def)
  qed
  ultimately show ?thesis by (simp add: distinct_map)
qed

lemma match_of_id [simp]: "cm_chunk_id (match_of f (c, k)) = ck_id c" "cm_value (match_of f (c, k)) = f c"
  by (simp_all add: match_of_def)

definition matches_ok :: "db \<Rightarrow> uuid \<Rightarrow> uuid list option \<Rightarrow> chunk_match list \<Rightarrow> bool" where
  "matches_ok d u ids ms \<longleftrightarrow> distinct (map cm_chunk_id ms) \<and> length ms \<le> max_retrieval_candidates \<and>
     list_all (\<lambda>m. \<exists>f. m \<in> match_of f ` set (owned_candidates u ids d)) ms"


lemma matches_ok_row:
  assumes "matches_ok d u ids ms" "m \<in> set ms"
  shows "\<exists>f c k. m = match_of f (c, k) \<and> (c, k) \<in> set (owned_candidates u ids d)"
proof -
  obtain f x where "m = match_of f x" "x \<in> set (owned_candidates u ids d)"
    using assms unfolding matches_ok_def list_all_iff by blast
  then show ?thesis by (cases x) blast
qed

lemma ranked_matches_ok:
  assumes "wf_chunks d"
  shows "matches_ok d u ids (take max_retrieval_candidates (sort_key key (map (match_of f) (filter P (owned_candidates u ids d)))))"
proof -
  let ?ms = "map (match_of f) (filter P (owned_candidates u ids d))"
  have "mset (map cm_chunk_id (sort_key key ?ms)) = mset (map (\<lambda>ck. ck_id (fst ck)) (filter P (owned_candidates u ids d)))"
    by (simp add: multiset.map_comp comp_def match_of_def split_beta)
  moreover have "distinct (map (\<lambda>ck. ck_id (fst ck)) (filter P (owned_candidates u ids d)))"
    using owned_candidates_distinct [OF assms] by (rule distinct_map_filter)
  ultimately have "distinct (map cm_chunk_id (sort_key key ?ms))" by (metis mset_eq_imp_distinct_iff)
  then have "distinct (map cm_chunk_id (take max_retrieval_candidates (sort_key key ?ms)))"
    by (simp add: take_map [symmetric] distinct_take del: map_map)
  moreover have "\<exists>f. m \<in> match_of f ` set (owned_candidates u ids d)"
    if "m \<in> set (take max_retrieval_candidates (sort_key key ?ms))" for m
    using in_set_takeD [OF that] by auto
  ultimately show ?thesis unfolding matches_ok_def list_all_iff by simp
qed

definition candidate_source :: "knowledge_document_chunk \<times> knowledge_document \<Rightarrow> uuid \<times> string \<times> int \<times> int \<times> string" where
  "candidate_source = (\<lambda>(c, k). (ck_document_id c, kd_display_name k, ck_page_number c, ck_ordinal c, ck_content c))"

lemma match_identity:
  assumes "wf_chunks d" "m = match_of f ck" "ck \<in> set (owned_candidates u ids d)"
  shows "candidate_identity m =
    the (map_of (map (\<lambda>ck. (ck_id (fst ck), candidate_source ck)) (owned_candidates u ids d)) (cm_chunk_id m))"
proof -
  have "distinct (map fst (map (\<lambda>ck. (ck_id (fst ck), candidate_source ck)) (owned_candidates u ids d)))"
    using owned_candidates_distinct [OF assms(1), of u ids] by (simp add: comp_def split_beta)
  then have "map_of (map (\<lambda>ck. (ck_id (fst ck), candidate_source ck)) (owned_candidates u ids d)) (ck_id (fst ck)) = Some (candidate_source ck)"
    using assms(3) by (intro map_of_is_SomeI) auto
  then show ?thesis
    using assms(2) by (simp add: match_of_def candidate_identity_def candidate_source_def split_beta)
qed

lemma length_uuid_text: "length (uuid_text u) = 36"
  by (simp add: uuid_text_def Let_def)

lemma citation_valid:
  assumes "wf_chunks d" "(c, k) \<in> set (owned_candidates u ids d)" "m = match_of f (c, k)"
    and "distinct v" "distinct l" "length v \<le> max_retrieval_candidates" "length l \<le> max_retrieval_candidates"
    and "fr_chunk_id r \<in> set v \<union> set l" "r = fused_rank v l (fr_chunk_id r)" "cand (fr_chunk_id r) = Some m"
    and "dom dsts = set v" "\<And>q. dsts (fr_chunk_id r) = Some q \<Longrightarrow> 0 \<le> q \<and> q \<le> 2"
  shows "\<exists>x. citation_of cand dsts r = Inr x"
proof -
  let ?i = "fr_chunk_id r"
  have mem: "c \<in> set (knowledge_chunks d)" "k \<in> set (knowledge_documents d)"
    using assms(2) unfolding owned_candidates_mem by blast+
  have con: "list_all snd (chunk_constraints d c)" "list_all snd (document_constraints d k)" "document_lengths k"
    using assms(1) mem by (auto simp: wf_chunks_def wf_knowledge_def list_all_iff)
  have chunk: "1 \<le> ck_page_number c" "ck_page_number c \<le> 100" "0 \<le> ck_ordinal c" "ck_ordinal c \<le> 199" "1 \<le> length (ck_content c)"
    using con(1) by (simp_all add: chunk_constraints_def)
  have src: "1 \<le> length (kd_display_name k)" "length (kd_display_name k) \<le> 255"
    using con(2,3) by (auto simp: document_constraints_def document_lengths_def btrim_nonblank_def Suc_le_eq)
  have ranks: "fr_vector_rank r = ranks_of v ?i" "fr_lexical_rank r = ranks_of l ?i"
    by (subst assms(9), simp add: fused_rank_def Let_def)+
  have bound: "opt_all (\<lambda>n. 1 \<le> n \<and> n \<le> int max_retrieval_candidates) (map_option int (ranks_of xs ?i))"
    if "distinct xs" "length xs \<le> max_retrieval_candidates" for xs
  proof (cases "ranks_of xs ?i")
    case (Some n)
    then show ?thesis using ranks_of_iff [OF that(1), of ?i n] that(2) by simp
  qed simp
  have some: "ranks_of v ?i \<noteq> None \<or> ranks_of l ?i \<noteq> None"
    using assms(8) ranks_of_None_iff [OF assms(4)] ranks_of_None_iff [OF assms(5)] by blast
  have score: "0 < fr_fusion_score r" "fr_fusion_score r \<le> 1"
    by (subst assms(9), use fused_score_bounds [OF some] in simp)+
  have pres: "(ranks_of v ?i = None) = (dsts ?i = None)"
    using ranks_of_None_iff [OF assms(4)] by (simp add: assms(11) [symmetric] domIff)
  have dst: "opt_all (\<lambda>q. 0 \<le> q \<and> q \<le> 2) (dsts ?i)"
    using assms(12) by (cases "dsts ?i") simp_all
  have id: "length (citation_id m) = 83" by (simp add: citation_id_def length_uuid_text)
  have excerpt: "1 \<le> length (take max_knowledge_excerpt_characters (ck_content c))"
    using chunk(5) by (simp add: max_knowledge_excerpt_characters_def)
  show ?thesis
    using chunk src bound [OF assms(4,6)] bound [OF assms(5,7)] some score pres dst id excerpt assms(10) ranks
    by (simp add: citation_of_def validate_citation_def len_between_def assms(3) match_of_def)
qed

lemma traverse_ok: "(\<And>x. x \<in> set xs \<Longrightarrow> \<exists>y. f x = Inr y) \<Longrightarrow> \<exists>ys. traverse f xs = Inr ys"
proof (induction xs)
  case (Cons x xs)
  then obtain y ys where "f x = Inr y" "traverse f xs = Inr ys" by (meson list.set_intros)
  then show ?case by simp
qed simp

lemma search_candidates_ok:
  assumes "wf_chunks d" "matches_ok d u ids v" "matches_ok d u ids l" "\<And>xs. mset (rk_iteration R xs) = mset xs"
    and "list_all (\<lambda>m. \<exists>q. cm_value m = Finite q \<and> 0 \<le> q \<and> q \<le> 2) v" "list_all (\<lambda>m. \<exists>q. cm_value m = Finite q \<and> 0 \<le> q) l"
    and "1 \<le> ks_top_k q" "ks_top_k q \<le> 20"
  shows "\<exists>cs. search_candidates R u q v l = Inr cs \<and>
    length cs = min (ks_top_k q) (card (cm_chunk_id ` set v \<union> cm_chunk_id ` set l))"
proof -
  let ?v = "map cm_chunk_id v" and ?l = "map cm_chunk_id l"
  let ?ident = "\<lambda>i. the (map_of (map (\<lambda>ck. (ck_id (fst ck), candidate_source ck)) (owned_candidates u ids d)) i)"
  have from_row: "\<exists>f c k. m = match_of f (c, k) \<and> (c, k) \<in> set (owned_candidates u ids d)" if "m \<in> set v \<union> set l" for m
    using that matches_ok_row [OF assms(2)] matches_ok_row [OF assms(3)] by blast
  have ident: "candidate_identity m = ?ident (cm_chunk_id m)" if "m \<in> set v \<union> set l" for m
    using from_row [OF that] match_identity [OF assms(1)] by blast
  obtain cand dsts where a: "add_vector_matches v (Map.empty, Map.empty) = Inr (cand, dsts)"
    using add_vector_matches_ok [OF assms(5)] by fastforce
  note av = add_vector_matches_Inr [OF a, simplified]
  have "\<forall>i x. cand i = Some x \<longrightarrow> candidate_identity x = ?ident i" using av ident by blast
  moreover have "list_all (\<lambda>m. (\<exists>q. cm_value m = Finite q \<and> 0 \<le> q) \<and> candidate_identity m = ?ident (cm_chunk_id m)) l"
    using assms(6) ident unfolding list_all_iff by blast
  ultimately obtain cand' where b: "add_lexical_matches l cand = Inr cand'" using add_lexical_matches_ok by meson
  note bv = add_lexical_matches_Inr [OF b]
  have ok: "distinct ?v" "distinct ?l" "length ?v \<le> max_retrieval_candidates" "length ?l \<le> max_retrieval_candidates"
    using assms(2,3) by (simp_all add: matches_ok_def)
  let ?fused = "take (ks_top_k q) (fusion_ranking ?v ?l)"
  have c: "reciprocal_rank_fuse (rk_iteration R) ?v ?l (ks_top_k q) = Inr ?fused"
    using ok assms(7,8) by (simp add: reciprocal_rank_fuse_eq [OF assms(4)] max_fused_results_def)
  have "\<exists>x. citation_of cand' dsts r = Inr x" if r: "r \<in> set ?fused" for r
  proof -
    have r': "r \<in> set (fusion_ranking ?v ?l)" using in_set_takeD [OF r] .
    have i: "fr_chunk_id r \<in> set ?v \<union> set ?l" using r' fusion_ranking_ids(1) [of ?v ?l] by auto
    then have "fr_chunk_id r \<in> dom cand'" using av bv by simp
    then obtain m where m: "cand' (fr_chunk_id r) = Some m" by blast
    have "cand (fr_chunk_id r) = Some m \<or> m \<in> set l" using bv m by blast
    moreover have "m \<in> set v" if "cand (fr_chunk_id r) = Some m" using av that by simp
    ultimately have "m \<in> set v \<union> set l" by blast
    then obtain f c k where ck: "m = match_of f (c, k)" "(c, k) \<in> set (owned_candidates u ids d)" using from_row by blast
    show ?thesis
      by (rule citation_valid [where cand = cand' and dsts = dsts and r = r, OF assms(1) ck(2,1) ok i fusion_ranking_mem [OF r'] m]) (use av in auto)
  qed
  then have "\<exists>cs. traverse (citation_of cand' dsts) ?fused = Inr cs" by (rule traverse_ok)
  then obtain cs where trav: "traverse (citation_of cand' dsts) ?fused = Inr cs" by blast
  then have cs: "list_all2 (\<lambda>r x. citation_of cand' dsts r = Inr x) ?fused cs" by (simp add: traverse_Inr_iff)
  then have len: "length cs = min (ks_top_k q) (card (cm_chunk_id ` set v \<union> cm_chunk_id ` set l))"
    using list_all2_lengthD [OF cs] fusion_ranking_ids(3) [of ?v ?l] by (simp add: min.commute)
  from trav have "search_candidates R u q v l = Inr cs"
    unfolding search_candidates_def a bind_result_simps prod.case b c using len assms(8) by simp
  then show ?thesis using len by blast
qed

text \<open>
  A knowledge search of stored documents is answered. When the embedding provider answers, the database has no outage and
  computes distances from 0 to 2 and non-negative ranks, no stored document or chunk can make a search
  fail: the answer has exactly as many citations as requested, or as the user has chunks in the requested documents.
\<close>

theorem knowledge_search_available:
  assumes "wf_chunks d" "ranking_ok R" "1 \<le> ks_top_k q" "ks_top_k q \<le> 20"
    and "provider [ks_query q] = Inr raw" "validate_embedding_batch raw 1 = Inr vectors"
  shows "\<exists>cs. search_owned_knowledge R provider q u d = Inr cs \<and>
    length cs = min (ks_top_k q) (length (owned_candidates u (ks_document_ids q) d))"
proof -
  let ?ids = "ks_document_ids q"
  let ?cands = "owned_candidates u ?ids d"
  have R: "\<not> rk_fails R 0" "\<not> rk_fails R 1" "\<And>xs. mset (rk_iteration R xs) = mset xs"
      "\<And>v w. \<exists>q. rk_distance R v w = Finite q \<and> 0 \<le> q \<and> q \<le> 2" "\<And>t s. \<exists>q. rk_score R t s = Finite q \<and> 0 \<le> q"
    using assms(2) by (simp_all add: ranking_ok_def)
  obtain v where v: "search_vector_owned R u (hd vectors) max_retrieval_candidates ?ids d = Inr v"
    and vdef: "v = take max_retrieval_candidates (sort_key (\<lambda>m. (ascending_key (cm_value m), cm_chunk_id m))
        (map (match_of (\<lambda>c. rk_distance R (ck_embedding c) (hd vectors))) (filter (\<lambda>_. True) ?cands)))"
    using R by (simp add: search_vector_owned_def)
  obtain l where l: "search_lexical_owned R u (ks_query q) max_retrieval_candidates ?ids d = Inr l"
    and ldef: "l = take max_retrieval_candidates (sort_key (\<lambda>m. (descending_key (cm_value m), cm_chunk_id m))
        (map (match_of (\<lambda>c. rk_score R (ck_content c) (ks_query q))) (filter (\<lambda>(c, k). rk_matches R (ck_content c) (ks_query q)) ?cands)))"
    using R by (simp add: search_lexical_owned_def)
  have ok: "matches_ok d u ?ids v" "matches_ok d u ?ids l"
    unfolding vdef ldef by (rule ranked_matches_ok [OF assms(1)])+
  have "list_all (\<lambda>m. \<exists>q. cm_value m = Finite q \<and> 0 \<le> q \<and> q \<le> 2) v" "list_all (\<lambda>m. \<exists>q. cm_value m = Finite q \<and> 0 \<le> q) l"
    using R(4,5) by (auto simp: vdef ldef list_all_iff dest!: in_set_takeD)
  from search_candidates_ok [OF assms(1) ok R(3) this assms(3,4)]
  obtain cs where cs: "search_candidates R u q v l = Inr cs"
    and len: "length cs = min (ks_top_k q) (card (cm_chunk_id ` set v \<union> cm_chunk_id ` set l))" by blast
  have "search_owned_knowledge R provider q u d = Inr cs"
    using assms(5,6) v l cs by (simp add: search_owned_knowledge_def)
  moreover have "min (ks_top_k q) (card (cm_chunk_id ` set v \<union> cm_chunk_id ` set l)) = min (ks_top_k q) (length ?cands)"
  proof -
    have sub: "cm_chunk_id ` set v \<union> cm_chunk_id ` set l \<subseteq> set (map (\<lambda>ck. ck_id (fst ck)) ?cands)"
    proof
      fix i assume "i \<in> cm_chunk_id ` set v \<union> cm_chunk_id ` set l"
      then obtain m where m: "m \<in> set v \<union> set l" "i = cm_chunk_id m" by blast
      then obtain f c k where "m = match_of f (c, k)" "(c, k) \<in> set ?cands"
        using matches_ok_row [OF ok(1)] matches_ok_row [OF ok(2)] by blast
      then show "i \<in> set (map (\<lambda>ck. ck_id (fst ck)) ?cands)" using m(2) by force
    qed
    then have "card (cm_chunk_id ` set v \<union> cm_chunk_id ` set l) \<le> length ?cands"
      by (metis List.finite_set card_length card_mono le_trans length_map)
    moreover have "card (cm_chunk_id ` set v) = min max_retrieval_candidates (length ?cands)"
      using ok(1) distinct_card [of "map cm_chunk_id v"] by (simp add: matches_ok_def vdef min.commute)
    then have "min 40 (length ?cands) \<le> card (cm_chunk_id ` set v \<union> cm_chunk_id ` set l)"
      by (metis List.finite_set card_mono finite_UnI finite_imageI max_retrieval_candidates_def sup_ge1)
    ultimately show ?thesis using assms(4) by linarith
  qed
  ultimately show ?thesis using len by auto
qed

definition demo_ranking :: ranking where
  "demo_ranking = \<lparr>rk_distance = (\<lambda>_ _. Finite 1), rk_matches = (\<lambda>_ _. True), rk_score = (\<lambda>_ _. Finite 0),
     rk_fails = (\<lambda>_. False), rk_iteration = rev\<rparr>"

definition demo_text_document :: "uuid \<Rightarrow> knowledge_document" where
  "demo_text_document u = \<lparr>kd_id = 9 + u, kd_user_id = u, kd_display_name = ''a.txt'', kd_media_type = ''text/plain'',
     kd_byte_count = 2, kd_content_sha256 = replicate 64 CHR ''0'', kd_page_count = 1, kd_extracted_text = ''Hi'',
     kd_status = INDEXED, kd_created_at = 0, kd_updated_at = 0\<rparr>"

definition demo_chunk :: "uuid \<Rightarrow> knowledge_document_chunk" where
  "demo_chunk u = \<lparr>ck_id = 20 + u, ck_document_id = 9 + u, ck_user_id = u, ck_page_number = 1, ck_ordinal = 0,
     ck_content = ''Hi'', ck_fingerprint = replicate 64 CHR ''0'', ck_embedding = []\<rparr>"

text \<open>Two users with one document each.\<close>

definition demo_library :: db where
  "demo_library = empty_db\<lparr>users := [demo_owner, demo_owner\<lparr>u_id := 2\<rparr>],
     knowledge_documents := map demo_text_document [1, 2], knowledge_chunks := map demo_chunk [1, 2]\<rparr>"

definition demo_search :: knowledge_search_query where
  "demo_search = \<lparr>ks_query = ''hi'', ks_top_k = 5, ks_document_ids = None\<rparr>"

lemma demo_library_wf: "wf_chunks demo_library"
  by (simp add: wf_chunks_def wf_knowledge_def demo_library_def demo_text_document_def demo_chunk_def chunk_constraints_def
      document_constraints_def document_lengths_def demo_digest demo_owner_def btrim_nonblank_def)

lemma demo_ranking_ok: "ranking_ok demo_ranking"
  by (simp add: ranking_ok_def demo_ranking_def)

theorem knowledge_search_available_witness:
  "\<exists>cs. search_owned_knowledge demo_ranking demo_provider demo_search 1 demo_library = Inr cs \<and> length cs = 1"
proof -
  obtain raw vs where raw: "demo_provider [ks_query demo_search] = Inr raw" "validate_embedding_batch raw 1 = Inr vs"
    using demo_provider_valid [of "[ks_query demo_search]"] by auto
  have "length (owned_candidates 1 (ks_document_ids demo_search) demo_library) = 1"
    by (simp add: owned_candidates_def demo_search_def demo_library_def demo_text_document_def demo_chunk_def)
  moreover have "1 \<le> ks_top_k demo_search" "ks_top_k demo_search \<le> 20" "ks_top_k demo_search = 5" by (simp_all add: demo_search_def)
  ultimately show ?thesis
    using knowledge_search_available [where provider = demo_provider and q = demo_search, OF demo_library_wf demo_ranking_ok _ _ raw, of 1] by simp
qed

theorem knowledge_search_owner_scoped_witness:
  "(\<forall>xs. mset (rk_iteration demo_ranking xs) = mset xs) \<and>
   search_owned_knowledge demo_ranking demo_provider demo_search 1 (knowledge_view 1 demo_library) =
     search_owned_knowledge demo_ranking demo_provider demo_search 1 demo_library"
proof -
  have m: "mset (rk_iteration demo_ranking xs) = mset xs" for xs by (simp add: demo_ranking_def)
  then show ?thesis using knowledge_search_owner_scoped [OF m, of demo_provider demo_search 1 demo_library] by simp
qed

end
