(* ===== verification/Agent_Events.thy ===== *)
theory Agent_Events
  imports Agent_Runs Knowledge_Retrieval
begin

text \<open>
  The public event stream of a run: \<open>app/services/agent_events.py\<close>, \<open>app/schemas/agent_events.py\<close> and
  \<open>app/schemas/agent_tool_execution.py\<close>. A snapshot is projected from the stored run, its approvals and executions, cut
  at a cursor and framed as server-sent events. The JSON text of an event is a parameter.
\<close>

section \<open>Payloads and events\<close>

record public_tool_execution =
  px_id :: uuid
  px_run_id :: uuid
  px_revision :: int
  px_action_key :: string
  px_tool_name :: string
  px_status :: execution_status
  px_attempt_count :: int
  px_result_task_id :: "uuid option"
  px_result_summary :: "string option"
  px_error_code :: "string option"
  px_started_at :: instant
  px_completed_at :: "instant option"
  px_created_at :: instant
  px_updated_at :: instant

definition validate_public_execution :: "agent_tool_execution \<Rightarrow> public_tool_execution result" where
  "validate_public_execution x =
     (if 0 \<le> ex_revision x \<and> ex_revision x \<le> 2 \<and> action_key_format (ex_action_key x) \<and>
         ex_tool_name x \<in> {''create_task'', ''update_task'', ''batch_create_tasks'', ''delete_task''} \<and>
         1 \<le> ex_attempt_count x \<and> ex_attempt_count x \<le> 100 \<and>
         opt_all (\<lambda>s. length s \<le> 300) (ex_result_summary x) \<and> opt_all error_code_format (ex_error_code x)
      then Inr \<lparr>px_id = ex_id x, px_run_id = ex_run_id x, px_revision = ex_revision x, px_action_key = ex_action_key x,
                px_tool_name = ex_tool_name x, px_status = ex_status x, px_attempt_count = ex_attempt_count x,
                px_result_task_id = ex_result_task_id x, px_result_summary = ex_result_summary x, px_error_code = ex_error_code x,
                px_started_at = ex_started_at x, px_completed_at = ex_completed_at x,
                px_created_at = ex_created_at x, px_updated_at = ex_updated_at x\<rparr>
      else Inl ValidationError)"

datatype event_payload =
    Run_status_payload run_status
  | Node_status_payload run_node
  | Tool_started_payload string
  | Tool_result_payload string execution_status string
  | Approval_required_payload int string
  | Metrics_payload run_metrics_snapshot
  | Heartbeat_payload
  | Terminal_result_payload run_status "string option"
  | Safe_error_payload string

fun event_type :: "event_payload \<Rightarrow> string" where
  "event_type (Run_status_payload _) = ''run_status''"
| "event_type (Node_status_payload _) = ''node_status''"
| "event_type (Tool_started_payload _) = ''tool_started''"
| "event_type (Tool_result_payload _ _ _) = ''tool_result''"
| "event_type (Approval_required_payload _ _) = ''approval_required''"
| "event_type (Metrics_payload _) = ''metrics''"
| "event_type Heartbeat_payload = ''heartbeat''"
| "event_type (Terminal_result_payload _ _) = ''terminal_result''"
| "event_type (Safe_error_payload _) = ''safe_error''"

record public_event =
  pe_event_id :: string
  pe_sequence :: nat
  pe_run_id :: uuid
  pe_occurred_at :: instant
  pe_payload :: event_payload

record draft =
  dr_occurred_at :: instant
  dr_order :: nat
  dr_stable_key :: string
  dr_payload :: event_payload

definition event_terminal_statuses :: "run_status list" where
  "event_terminal_statuses = [RUN_SUCCEEDED, RUN_REJECTED, RUN_PARTIAL_FAILURE, RUN_FAILED]"

text \<open>\<open>f"{run_id}:{sequence:08d}"\<close>\<close>

definition padded_digits :: "nat \<Rightarrow> string" where
  "padded_digits n = replicate (8 - length (digits_of n)) CHR ''0'' @ digits_of n"

definition event_id :: "uuid \<Rightarrow> nat \<Rightarrow> string" where
  "event_id rid n = uuid_text rid @ '':'' @ padded_digits n"

text \<open>The pattern of the event identifier leaves eight digits for the sequence number.\<close>

definition event_of :: "uuid \<Rightarrow> nat \<Rightarrow> draft \<Rightarrow> public_event result" where
  "event_of rid n x =
     (if 1 \<le> n \<and> length (padded_digits n) = 8
      then Inr \<lparr>pe_event_id = event_id rid n, pe_sequence = n, pe_run_id = rid, pe_occurred_at = dr_occurred_at x, pe_payload = dr_payload x\<rparr>
      else Inl ValidationError)"

definition execution_drafts :: "public_tool_execution \<Rightarrow> draft list result" where
  "execution_drafts x =
     (let started = \<lparr>dr_occurred_at = px_started_at x, dr_order = 30, dr_stable_key = uuid_text (px_id x) @ '':started'',
                     dr_payload = Tool_started_payload (px_tool_name x)\<rparr> in
      case px_status x of
        EXEC_IN_PROGRESS \<Rightarrow> Inr [started]
      | EXEC_COMPLETED \<Rightarrow>
          (case (px_completed_at x, px_result_summary x) of
             (Some t, Some summary) \<Rightarrow>
               if len_between 1 300 summary
               then Inr [started, \<lparr>dr_occurred_at = t, dr_order = 40, dr_stable_key = uuid_text (px_id x) @ '':result'',
                          dr_payload = Tool_result_payload (px_tool_name x) (px_status x) summary\<rparr>]
               else Inl ValidationError
           | _ \<Rightarrow> Inl AssertionError)
      | _ \<Rightarrow>
          (case (px_completed_at x, px_error_code x) of
             (Some t, Some code) \<Rightarrow>
               Inr [started, \<lparr>dr_occurred_at = t, dr_order = 40, dr_stable_key = uuid_text (px_id x) @ '':error'',
                     dr_payload = Safe_error_payload code\<rparr>]
           | _ \<Rightarrow> Inl AssertionError))"

definition run_drafts :: "public_agent_run \<Rightarrow> draft list" where
  "run_drafts r =
     \<lparr>dr_occurred_at = pr_updated_at r, dr_order = 10, dr_stable_key = ''run-status'', dr_payload = Run_status_payload (pr_status r)\<rparr> #
     (case pr_current_node r of None \<Rightarrow> []
      | Some node \<Rightarrow> [\<lparr>dr_occurred_at = pr_updated_at r, dr_order = 20, dr_stable_key = ''node-status'', dr_payload = Node_status_payload node\<rparr>])"

definition approval_drafts :: "public_agent_approval list \<Rightarrow> draft list" where
  "approval_drafts approvals =
     map (\<lambda>a. \<lparr>dr_occurred_at = pa_created_at a, dr_order = 25, dr_stable_key = ''approval:'' @ uuid_text (pa_id a),
               dr_payload = Approval_required_payload (pa_revision a) (pa_fingerprint a)\<rparr>)
       (filter (\<lambda>a. pa_decision a = APPROVAL_PENDING) approvals)"

definition closing_drafts :: "public_agent_run \<Rightarrow> draft list" where
  "closing_drafts r =
     [\<lparr>dr_occurred_at = pr_updated_at r, dr_order = 80, dr_stable_key = ''metrics'', dr_payload = Metrics_payload (pr_metrics r)\<rparr>,
      if pr_status r \<in> set event_terminal_statuses
      then \<lparr>dr_occurred_at = pr_updated_at r, dr_order = 90, dr_stable_key = ''terminal'',
            dr_payload = Terminal_result_payload (pr_status r) (pr_summary r)\<rparr>
      else \<lparr>dr_occurred_at = pr_updated_at r, dr_order = 90, dr_stable_key = ''heartbeat'', dr_payload = Heartbeat_payload\<rparr>]"

definition draft_key :: "draft \<Rightarrow> instant \<times> nat \<times> string" where
  "draft_key x = (dr_occurred_at x, dr_order x, dr_stable_key x)"

definition build_public_agent_events ::
  "public_agent_run \<Rightarrow> public_agent_approval list \<Rightarrow> public_tool_execution list \<Rightarrow> public_event list result" where
  "build_public_agent_events r approvals executions =
     bind_result (traverse execution_drafts executions) (\<lambda>tool_drafts.
       let drafts = sort_key draft_key (run_drafts r @ approval_drafts approvals @ concat tool_drafts @ closing_drafts r)
       in traverse (\<lambda>(n, x). event_of (pr_id r) n x) (zip [1..<Suc (length drafts)] drafts))"

definition max_public_tool_executions :: nat where "max_public_tool_executions = 50"

definition get_owned_agent_events :: "uuid \<Rightarrow> uuid \<Rightarrow> db \<Rightarrow> public_event list result" where
  "get_owned_agent_events rid user_id d =
     (case get_owned_run rid user_id d of
        None \<Rightarrow> Inl AgentRunNotFoundError
      | Some r \<Rightarrow>
          bind_result (traverse validate_public_approval (list_owned_approvals rid user_id d)) (\<lambda>approvals.
          bind_result (traverse validate_public_execution (list_owned_run_actions rid user_id max_public_tool_executions d)) (\<lambda>executions.
          bind_result (validate_public_run r) (\<lambda>run. build_public_agent_events run approvals executions))))"

section \<open>Cursor and framing\<close>

fun find_event :: "string \<Rightarrow> public_event list \<Rightarrow> public_event list result" where
  "find_event i [] = Inl AgentEventCursorError"
| "find_event i (x # xs) = (if pe_event_id x = i then Inr xs else find_event i xs)"

definition resume_after_event :: "public_event list \<Rightarrow> string option \<Rightarrow> public_event list result" where
  "resume_after_event events last_event_id =
     (case last_event_id of
        None \<Rightarrow> Inr events
      | Some i \<Rightarrow>
          if events = [] then Inl AgentEventCursorError
          else let pre = uuid_text (pe_run_id (hd events)) @ '':'' in
            if take (length pre) i \<noteq> pre then Inl AgentEventCursorError else find_event i events)"

definition newline :: string where "newline = [CHR 0x0A]"

definition sse_frame :: "(public_event \<Rightarrow> string) \<Rightarrow> public_event \<Rightarrow> string" where
  "sse_frame dump x = ''id: '' @ pe_event_id x @ newline @ ''event: '' @ event_type (pe_payload x) @ newline @
     ''data: '' @ dump x @ newline @ newline"

definition iter_sse_events :: "(public_event \<Rightarrow> string) \<Rightarrow> public_event list \<Rightarrow> string list" where
  "iter_sse_events dump events = map (sse_frame dump) events"

definition stream_run_events ::
  "(public_event \<Rightarrow> string) \<Rightarrow> uuid \<Rightarrow> uuid \<Rightarrow> string option \<Rightarrow> db \<Rightarrow> (nat \<times> string list)" where
  "stream_run_events dump rid user_id last_event_id d =
     (if \<not> opt_all (\<lambda>i. length i \<le> 128) last_event_id then (422, [])
      else case bind_result (get_owned_agent_events rid user_id d) (\<lambda>events. resume_after_event events last_event_id) of
             Inr events \<Rightarrow> (200, iter_sse_events dump events)
           | Inl x \<Rightarrow> (if x = AgentRunNotFoundError then 404 else if x = AgentEventCursorError then 409 else 500, []))"

section \<open>Identifiers of events\<close>

definition digits_value :: "string \<Rightarrow> nat" where
  "digits_value s = foldl (\<lambda>a c. a * 10 + (of_char c - 48)) 0 s"

lemma digit_char: "n < 10 \<Longrightarrow> (of_char (char_of (48 + n) :: char) :: nat) = 48 + n"
  by simp

lemma digits_value_digits_of: "digits_value (digits_of n) = n"
proof (induction n rule: digits_of.induct)
  case (1 n)
  show ?case
  proof (cases "n < 10")
    case True
    then show ?thesis by (subst digits_of.simps) (simp add: digits_value_def)
  next
    case False
    then have "digits_value (digits_of n) = digits_value (digits_of (n div 10)) * 10 + n mod 10"
      by (subst digits_of.simps) (simp add: digits_value_def)
    then show ?thesis using 1 False by simp
  qed
qed

lemma padded_digits_value: "digits_value (padded_digits n) = n"
proof -
  have "foldl (\<lambda>a c. a * 10 + (of_char c - 48)) 0 (replicate k CHR ''0'' @ s) = foldl (\<lambda>a c. a * 10 + (of_char c - 48)) (0 :: nat) s" for k s
    by (induction k) simp_all
  then show ?thesis
    using digits_value_digits_of [of n] by (simp add: padded_digits_def digits_value_def)
qed

lemma event_id_inject: "event_id rid n = event_id rid m \<longleftrightarrow> n = m"
  by (simp add: event_id_def) (metis padded_digits_value)

lemma length_digits_of: "n < 10 ^ k \<Longrightarrow> 0 < k \<Longrightarrow> length (digits_of n) \<le> k"
proof (induction k arbitrary: n)
  case (Suc k)
  show ?case
  proof (cases "n < 10")
    case True
    then show ?thesis by (subst digits_of.simps) simp
  next
    case False
    then have "n div 10 < 10 ^ k" "0 < k" using Suc.prems by (auto simp: less_mult_imp_div_less mult.commute) (cases k; simp)
    then show ?thesis using Suc.IH False by (subst digits_of.simps) simp
  qed
qed simp

lemma length_padded_digits: "n < 100000000 \<Longrightarrow> length (padded_digits n) = 8"
  using length_digits_of [of n 8] by (simp add: padded_digits_def)

section \<open>Snapshots\<close>

definition numbered :: "uuid \<Rightarrow> public_event list \<Rightarrow> bool" where
  "numbered rid es \<longleftrightarrow> (\<forall>k < length es. pe_event_id (es ! k) = event_id rid (Suc k) \<and> pe_sequence (es ! k) = Suc k \<and> pe_run_id (es ! k) = rid)"

definition all_drafts :: "public_agent_run \<Rightarrow> public_agent_approval list \<Rightarrow> draft list list \<Rightarrow> draft list" where
  "all_drafts r approvals tools = sort_key draft_key (run_drafts r @ approval_drafts approvals @ concat tools @ closing_drafts r)"

lemma build_events_Inr:
  assumes "build_public_agent_events r approvals executions = Inr es"
  obtains tools where "traverse execution_drafts executions = Inr tools" "numbered (pr_id r) es"
    "map pe_payload es = map dr_payload (all_drafts r approvals tools)"
    "map pe_occurred_at es = map dr_occurred_at (all_drafts r approvals tools)"
proof -
  obtain tools where t: "traverse execution_drafts executions = Inr tools"
    using assms by (auto simp: build_public_agent_events_def bind_result_eq_Inr)
  let ?d = "all_drafts r approvals tools"
  have "list_all2 (\<lambda>p y. event_of (pr_id r) (fst p) (snd p) = Inr y) (zip [1..<Suc (length ?d)] ?d) es"
    using assms t by (simp add: build_public_agent_events_def all_drafts_def traverse_Inr_iff split_beta del: upt_Suc)
  then have len: "length es = length ?d"
    and nth: "\<And>k. k < length ?d \<Longrightarrow> event_of (pr_id r) (Suc k) (?d ! k) = Inr (es ! k)"
    by (auto simp: list_all2_conv_all_nth simp del: upt_Suc)
  have fields: "es ! k = \<lparr>pe_event_id = event_id (pr_id r) (Suc k), pe_sequence = Suc k, pe_run_id = pr_id r,
      pe_occurred_at = dr_occurred_at (?d ! k), pe_payload = dr_payload (?d ! k)\<rparr>" if "k < length ?d" for k
    using nth [OF that] by (simp add: event_of_def split: if_splits)
  show ?thesis
    by (rule that [OF t]) (auto simp: numbered_def len fields intro!: nth_equalityI)
qed

lemma find_event_numbered:
  "(\<And>k. k < length es \<Longrightarrow> pe_event_id (es ! k) = event_id rid (Suc (m + k))) \<Longrightarrow>
   find_event (event_id rid n) es =
     (if m < n \<and> n \<le> m + length es then Inr (drop (n - m) es) else Inl AgentEventCursorError)"
proof (induction es arbitrary: m)
  case (Cons x xs)
  have hd: "pe_event_id x = event_id rid (Suc m)" using Cons.prems [of 0] by simp
  have tl: "find_event (event_id rid n) xs =
      (if Suc m < n \<and> n \<le> Suc m + length xs then Inr (drop (n - Suc m) xs) else Inl AgentEventCursorError)"
    by (rule Cons.IH) (use Cons.prems [of "Suc _"] in auto)
  show ?case
    using hd tl by (auto simp: event_id_inject drop_Cons')
qed simp

lemma find_event_unknown: "(\<And>x. x \<in> set es \<Longrightarrow> pe_event_id x \<noteq> i) \<Longrightarrow> find_event i es = Inl AgentEventCursorError"
  by (induction es) auto

lemma resume_numbered:
  assumes "numbered rid es" "es \<noteq> []"
  shows "resume_after_event es (Some (event_id rid n)) =
    (if 1 \<le> n \<and> n \<le> length es then Inr (drop n es) else Inl AgentEventCursorError)"
proof -
  have "pe_run_id (hd es) = rid" using assms by (cases es) (auto simp: numbered_def)
  moreover have "find_event (event_id rid n) es = (if 0 < n \<and> n \<le> 0 + length es then Inr (drop (n - 0) es) else Inl AgentEventCursorError)"
    by (rule find_event_numbered) (use assms(1) in \<open>simp add: numbered_def\<close>)
  ultimately show ?thesis using assms(2) by (simp add: resume_after_event_def event_id_def Suc_le_eq)
qed

lemma numbered_sequences: "numbered rid es \<Longrightarrow> map pe_sequence es = [1..<Suc (length es)]"
  by (rule nth_equalityI) (simp_all add: numbered_def del: upt_Suc)

lemma numbered_distinct: "numbered rid es \<Longrightarrow> distinct (map pe_event_id es)"
  by (auto simp: distinct_conv_nth numbered_def event_id_inject)

lemma execution_drafts_payloads:
  "execution_drafts x = Inr ds \<Longrightarrow> length ds \<le> 2 \<and> list_all (\<lambda>y. event_type (dr_payload y) \<noteq> ''terminal_result'') ds"
  by (auto simp: execution_drafts_def Let_def split: execution_status.splits option.splits if_splits)

lemma tool_drafts_bounds:
  assumes "traverse execution_drafts xs = Inr tools"
  shows "length (concat tools) \<le> 2 * length xs \<and> list_all (\<lambda>y. event_type (dr_payload y) \<noteq> ''terminal_result'') (concat tools)"
proof -
  have "list_all2 (\<lambda>x ds. execution_drafts x = Inr ds) xs tools" using assms by (simp add: traverse_Inr_iff)
  then show ?thesis
    by (induction rule: list_all2_induct) (auto dest!: execution_drafts_payloads simp: list_all_iff)
qed

lemma sort_filter_length: "length (filter P (sort_key f xs)) = length (filter P xs)"
  by (metis mset_filter mset_sort size_mset)

lemma sorted_fst: "sorted (xs :: ('a :: linorder \<times> 'b :: linorder) list) \<Longrightarrow> sorted (map fst xs)"
  by (induction xs) (fastforce simp: less_eq_prod_def less_imp_le)+

lemma get_owned_agent_events_Inr:
  assumes "get_owned_agent_events rid u d = Inr es"
  obtains r run approvals executions where "get_owned_run rid u d = Some r" "validate_public_run r = Inr run"
    "length approvals \<le> 3" "length executions \<le> 50" "build_public_agent_events run approvals executions = Inr es"
    "pr_id run = rid" "pr_status run = run_status_col r"
proof -
  obtain r where r: "get_owned_run rid u d = Some r"
    using assms by (auto simp: get_owned_agent_events_def split: option.splits)
  obtain approvals executions run where
    a: "traverse validate_public_approval (list_owned_approvals rid u d) = Inr approvals" and
    x: "traverse validate_public_execution (list_owned_run_actions rid u max_public_tool_executions d) = Inr executions" and
    run: "validate_public_run r = Inr run" and es: "build_public_agent_events run approvals executions = Inr es"
    using assms r by (auto simp: get_owned_agent_events_def bind_result_eq_Inr)
  have "length approvals \<le> 3" "length executions \<le> 50"
    using a x list_all2_lengthD
    by (fastforce simp: traverse_Inr_iff list_owned_approvals_def list_owned_run_actions_def max_public_tool_executions_def)+
  moreover have "run_id r = rid" using r find_SomeD unfolding get_owned_run_def by fastforce
  moreover have "pr_id run = run_id r" "pr_status run = run_status_col r"
    using run by (auto simp: validate_public_run_def bind_result_eq_Inr split: if_splits)
  ultimately show ?thesis using that r run es by simp
qed

lemma all_drafts_count:
  assumes "traverse execution_drafts executions = Inr tools" "length approvals \<le> 3" "length executions \<le> 50"
  shows "length (all_drafts r approvals tools) \<le> 107" "3 \<le> length (all_drafts r approvals tools)"
    "length (filter (\<lambda>x. event_type (dr_payload x) = ''terminal_result'') (all_drafts r approvals tools)) =
       (if pr_status r \<in> set event_terminal_statuses then 1 else 0)"
proof -
  note t = tool_drafts_bounds [OF assms(1)]
  have len: "length (approval_drafts approvals) \<le> 3"
    unfolding approval_drafts_def length_map using length_filter_le assms(2) by (rule le_trans)
  have ne: "filter (\<lambda>x. event_type (dr_payload x) = ''terminal_result'') (concat tools) = []"
    "filter (\<lambda>x. event_type (dr_payload x) = ''terminal_result'') (approval_drafts approvals) = []"
    using t by (auto simp: filter_empty_conv list_all_iff approval_drafts_def)
  show "length (all_drafts r approvals tools) \<le> 107" "3 \<le> length (all_drafts r approvals tools)"
    using t len assms(3) by (auto simp: all_drafts_def run_drafts_def closing_drafts_def split: option.splits)
  show "length (filter (\<lambda>x. event_type (dr_payload x) = ''terminal_result'') (all_drafts r approvals tools)) =
       (if pr_status r \<in> set event_terminal_statuses then 1 else 0)"
    unfolding all_drafts_def sort_filter_length filter_append ne
    by (auto simp: run_drafts_def closing_drafts_def split: option.splits)
qed

text \<open>
  C24: The event stream of a stored run. The events are numbered from 1 without gaps, with distinct identifiers, in the order of
  their times, between 3 and 107 of them, and exactly one of them is a terminal result when the run has ended and none
  before. A client that read the first events and reconnects with the identifier of the last one
  receives exactly the others of that snapshot; any cursor that is not an event of it is refused.
\<close>

theorem event_stream_exact:
  assumes "get_owned_agent_events rid u d = Inr es"
  shows "map pe_sequence es = [1..<Suc (length es)] \<and> distinct (map pe_event_id es) \<and> sorted (map pe_occurred_at es) \<and>
    3 \<le> length es \<and> length es \<le> 107 \<and>
    length (filter (\<lambda>x. event_type (pe_payload x) = ''terminal_result'') es) =
      (case get_owned_run rid u d of Some r \<Rightarrow> if run_status_col r \<in> set event_terminal_statuses then 1 else 0 | None \<Rightarrow> 0) \<and>
    resume_after_event es None = Inr es \<and>
    (\<forall>n \<in> {1..length es}. resume_after_event es (Some (pe_event_id (es ! (n - 1)))) = Inr (drop n es)) \<and>
    (\<forall>i. i \<notin> pe_event_id ` set es \<longrightarrow> resume_after_event es (Some i) = Inl AgentEventCursorError)"
proof -
  obtain r run approvals executions where r: "get_owned_run rid u d = Some r" "validate_public_run r = Inr run"
    and sizes: "length approvals \<le> 3" "length executions \<le> 50"
    and build: "build_public_agent_events run approvals executions = Inr es"
    and run: "pr_id run = rid" "pr_status run = run_status_col r"
    by (rule get_owned_agent_events_Inr [OF assms])
  obtain tools where t: "traverse execution_drafts executions = Inr tools" and num: "numbered rid es"
    and pay: "map pe_payload es = map dr_payload (all_drafts run approvals tools)"
    and occ: "map pe_occurred_at es = map dr_occurred_at (all_drafts run approvals tools)"
    by (rule build_events_Inr [OF build, unfolded run(1)])
  note count = all_drafts_count [OF t sizes, of run]
  have len: "length es = length (all_drafts run approvals tools)" using pay by (metis length_map)
  have "length (filter (\<lambda>x. event_type (pe_payload x) = ''terminal_result'') es) =
      length (filter (\<lambda>p. event_type p = ''terminal_result'') (map pe_payload es))"
    by (simp add: filter_map comp_def)
  also have "\<dots> = length (filter (\<lambda>x. event_type (dr_payload x) = ''terminal_result'') (all_drafts run approvals tools))"
    unfolding pay by (simp add: filter_map comp_def)
  finally have one: "length (filter (\<lambda>x. event_type (pe_payload x) = ''terminal_result'') es) =
      (case get_owned_run rid u d of Some r \<Rightarrow> if run_status_col r \<in> set event_terminal_statuses then 1 else 0 | None \<Rightarrow> 0)"
    unfolding count(3) by (simp add: r run(2))
  have "sorted (map draft_key (all_drafts run approvals tools))" by (simp add: all_drafts_def)
  then have "sorted (map fst (map draft_key (all_drafts run approvals tools)))"
    by (rule sorted_fst)
  then have srt: "sorted (map pe_occurred_at es)" unfolding occ by (simp add: comp_def draft_key_def)
  have ne: "es \<noteq> []" using count(2) len by auto
  have resume: "resume_after_event es (Some (pe_event_id (es ! (n - 1)))) = Inr (drop n es)" if "n \<in> {1..length es}" for n
  proof -
    have "pe_event_id (es ! (n - 1)) = event_id rid n" using num that by (cases n) (simp_all add: numbered_def)
    then show ?thesis using resume_numbered [OF num ne, of n] that by simp
  qed
  have unknown: "resume_after_event es (Some i) = Inl AgentEventCursorError" if "i \<notin> pe_event_id ` set es" for i
    using find_event_unknown [of es i] that ne by (auto simp: resume_after_event_def Let_def)
  show ?thesis
    using numbered_sequences [OF num] numbered_distinct [OF num] srt count(1,2) len one resume unknown
    by (simp add: resume_after_event_def del: upt_Suc)
qed

section \<open>A cursor across snapshots\<close>


text \<open>A run that waits for approval, and the same run after the approval was executed.\<close>

definition demo_waiting_run :: agent_run where
  "demo_waiting_run = \<lparr>run_id = 3, run_thread_id = 2, run_user_id = 1, run_status_col = RUN_PENDING_APPROVAL,
     run_current_node = Some REQUEST_APPROVAL, run_summary = None, run_error_code = None, run_prompt_version = ''v'',
     run_model_round_count = 0, run_provider_attempt_count = 0, run_tool_call_count = 0, run_input_tokens = 0,
     run_output_tokens = 0, run_total_tokens = 0, run_latency_ms = 0, run_created_at = 0, run_updated_at = 10\<rparr>"

definition demo_waiting_approval :: agent_approval where
  "demo_waiting_approval = \<lparr>ap_id = 4, ap_run_id = 3, ap_user_id = 1, ap_revision = 0, ap_fingerprint = replicate 64 CHR ''0'',
     ap_decision = APPROVAL_PENDING, ap_feedback = None, ap_decided_at = None, ap_created_at = 10, ap_updated_at = 10\<rparr>"

definition demo_executed :: agent_tool_execution where
  "demo_executed = \<lparr>ex_id = 5, ex_run_id = 3, ex_user_id = 1, ex_revision = 0, ex_fingerprint = replicate 64 CHR ''0'',
     ex_action_key = ''a'', ex_tool_name = ''create_task'', ex_status = EXEC_COMPLETED, ex_attempt_count = 1,
     ex_result_task_id = Some 7, ex_result_summary = Some ''ok'', ex_error_code = None, ex_started_at = 20,
     ex_completed_at = Some 25, ex_created_at = 20, ex_updated_at = 25\<rparr>"

definition demo_before :: db where
  "demo_before = empty_db\<lparr>agent_runs := [demo_waiting_run], agent_approvals := [demo_waiting_approval]\<rparr>"

definition demo_after :: db where
  "demo_after = empty_db\<lparr>
     agent_runs := [demo_waiting_run\<lparr>run_status_col := RUN_SUCCEEDED, run_current_node := Some SUMMARIZE, run_updated_at := 30\<rparr>],
     agent_approvals := [demo_waiting_approval\<lparr>ap_decision := APPROVAL_APPROVED, ap_decided_at := Some 20\<rparr>],
     agent_tool_executions := [demo_executed]\<rparr>"

lemma demo_events:
  "\<exists>old new. get_owned_agent_events 3 1 demo_before = Inr old \<and> get_owned_agent_events 3 1 demo_after = Inr new \<and>
     map (event_type \<circ> pe_payload) old = [''run_status'', ''node_status'', ''approval_required'', ''metrics'', ''heartbeat''] \<and>
     map (event_type \<circ> pe_payload) new = [''tool_started'', ''tool_result'', ''run_status'', ''node_status'', ''metrics'', ''terminal_result'']"
proof -
  have p: "length (padded_digits n) = 8" if "n < 100" for n using that by (simp add: length_padded_digits)
  have strip: "strip ''v'' = ''v''" by (simp add: strip_def py_space_def)
  note defs = get_owned_agent_events_def get_owned_run_def list_owned_approvals_def owned_approvals_def list_owned_run_actions_def
      empty_db_def demo_waiting_run_def demo_waiting_approval_def validate_public_run_def validate_run_metrics_def
      validate_public_approval_def Let_def demo_digest build_public_agent_events_def run_drafts_def approval_drafts_def closing_drafts_def
      event_terminal_statuses_def draft_key_def event_of_def len_between_def strip
  have "\<exists>old. get_owned_agent_events 3 1 demo_before = Inr old \<and>
     map (event_type \<circ> pe_payload) old = [''run_status'', ''node_status'', ''approval_required'', ''metrics'', ''heartbeat'']"
    by (simp add: demo_before_def defs p)
  moreover have "\<exists>new. get_owned_agent_events 3 1 demo_after = Inr new \<and>
     map (event_type \<circ> pe_payload) new = [''tool_started'', ''tool_result'', ''run_status'', ''node_status'', ''metrics'', ''terminal_result'']"
    by (simp add: demo_after_def defs p demo_executed_def validate_public_execution_def action_key_format_def char_between_def
        max_public_tool_executions_def execution_drafts_def)
  ultimately show ?thesis by (elim exE conjE) (intro exI conjI; assumption)
qed


theorem event_stream_exact_witness:
  "\<exists>es. get_owned_agent_events 3 1 demo_after = Inr es \<and> map pe_sequence es = [1..<7] \<and>
     length (filter (\<lambda>x. event_type (pe_payload x) = ''terminal_result'') es) = 1"
proof -
  obtain es where e: "get_owned_agent_events 3 1 demo_after = Inr es"
    and t: "map (event_type \<circ> pe_payload) es = [''tool_started'', ''tool_result'', ''run_status'', ''node_status'', ''metrics'', ''terminal_result'']"
    using demo_events by (elim exE conjE)
  have len: "length es = 6" using arg_cong [OF t, of length] by simp
  have run: "\<exists>r. get_owned_run 3 1 demo_after = Some r \<and> run_status_col r \<in> set event_terminal_statuses"
    by (simp add: get_owned_run_def demo_after_def demo_waiting_run_def event_terminal_statuses_def)
  show ?thesis using event_stream_exact [OF e] len run e by (intro exI [of _ es]) auto
qed

section \<open>Frames\<close>

lemma split_on_lines: "CHR 0x0A \<notin> set a \<Longrightarrow> split_on CHR 0x0A (a @ newline @ rest) = a # split_on CHR 0x0A rest"
  by (simp add: newline_def split_on_append)

lemma hex_digit_plain: "hex_digit n \<noteq> CHR 0x0A" if "n < 16"
proof -
  have "(of_char (hex_digit n) :: nat) \<noteq> of_char CHR 0x0A" using that by (auto simp: hex_digit_def)
  then show ?thesis by auto
qed

lemma uuid_text_plain: "CHR 0x0A \<notin> set (uuid_text u)"
proof -
  let ?h = "map (\<lambda>i. hex_digit (u div 16 ^ (31 - i) mod 16)) [0..<32]"
  have "CHR 0x0A \<notin> set ?h" using hex_digit_plain by (auto simp del: upt_Suc) (metis mod_less_divisor zero_less_numeral)
  moreover have "set (uuid_text u) \<subseteq> set ?h \<union> {CHR ''-''}"
    by (auto simp: uuid_text_def Let_def simp del: upt_Suc set_map dest!: in_set_takeD in_set_dropD)
  ultimately show ?thesis by auto
qed

lemma digits_of_plain: "CHR 0x0A \<notin> set (digits_of n)"
proof (induction n rule: digits_of.induct)
  case (1 n)
  have "char_of (48 + k) \<noteq> CHR 0x0A" if "k < 10" for k :: nat
  proof -
    have "(of_char (char_of (48 + k) :: char) :: nat) \<noteq> of_char CHR 0x0A" using that by simp
    then show ?thesis by metis
  qed
  then show ?case using 1 by (subst digits_of.simps) (simp add: eq_commute)
qed

lemma event_id_plain: "CHR 0x0A \<notin> set (event_id rid n)"
  using uuid_text_plain digits_of_plain by (auto simp: event_id_def padded_digits_def)

lemma event_type_plain: "CHR 0x0A \<notin> set (event_type p)"
  by (cases p) simp_all

text \<open>
  The frames of a stream can be read back: when the JSON text of an event has no line break, as JSON escapes
  them, splitting the body of a successful response into lines gives, for every event after the cursor and in order, its
  identifier line, its type line, its data line and an empty line, and nothing else. Other requests are answered
  404 for a run of another user, 409 for an unknown cursor and 422 for an oversized one, without a body.
\<close>

theorem event_frames_roundtrip:
  assumes "\<And>x. CHR 0x0A \<notin> set (dump x)"
  shows "case stream_run_events dump rid u cursor d of (status, body) \<Rightarrow>
    (status = 200 \<longrightarrow> (\<exists>es n. get_owned_agent_events rid u d = Inr es \<and>
       (cursor = None \<and> n = 0 \<or> cursor = Some (event_id rid n) \<and> 1 \<le> n \<and> n \<le> length es) \<and>
       split_on CHR 0x0A (concat body) = concat (map (\<lambda>x. [''id: '' @ pe_event_id x, ''event: '' @ event_type (pe_payload x),
         ''data: '' @ dump x, []]) (drop n es)) @ [[]])) \<and>
    (status \<noteq> 200 \<longrightarrow> body = []) \<and> (get_owned_run rid u d = None \<and> opt_all (\<lambda>i. length i \<le> 128) cursor \<longrightarrow> status = 404)"
proof -
  have frames: "split_on CHR 0x0A (concat (iter_sse_events dump es)) = concat (map (\<lambda>x. [''id: '' @ pe_event_id x,
      ''event: '' @ event_type (pe_payload x), ''data: '' @ dump x, []]) es) @ [[]]"
    if "\<And>x. x \<in> set es \<Longrightarrow> CHR 0x0A \<notin> set (pe_event_id x)" for es
    using that
  proof (induction es)
    case (Cons x es)
    have "split_on CHR 0x0A (concat (iter_sse_events dump (x # es))) =
        split_on CHR 0x0A ((''id: '' @ pe_event_id x) @ newline @ (''event: '' @ event_type (pe_payload x)) @ newline @
          (''data: '' @ dump x) @ newline @ [] @ newline @ concat (iter_sse_events dump es))"
      by (simp add: iter_sse_events_def sse_frame_def)
    also have "\<dots> = [''id: '' @ pe_event_id x, ''event: '' @ event_type (pe_payload x), ''data: '' @ dump x, []] @
        split_on CHR 0x0A (concat (iter_sse_events dump es))"
      using Cons.prems [of x] assms [of x] event_type_plain [of "pe_payload x"]
      by (subst split_on_lines, simp, subst split_on_lines, simp, subst split_on_lines, simp, subst split_on_lines, simp_all)
    finally show ?case using Cons by simp
  qed (simp add: iter_sse_events_def)
  show ?thesis
  proof (cases "bind_result (get_owned_agent_events rid u d) (\<lambda>events. resume_after_event events cursor)")
    case (Inl x)
    have "x = AgentRunNotFoundError" if "get_owned_run rid u d = None"
      using Inl that by (simp add: get_owned_agent_events_def)
    then show ?thesis using Inl by (auto simp: stream_run_events_def)
  next
    case (Inr rest)
    then obtain es where es: "get_owned_agent_events rid u d = Inr es" "resume_after_event es cursor = Inr rest"
      by (auto simp: bind_result_eq_Inr)
    obtain run approvals executions where b: "build_public_agent_events run approvals executions = Inr es" "pr_id run = rid"
      by (rule get_owned_agent_events_Inr [OF es(1)])
    have num: "numbered rid es" by (rule build_events_Inr [OF b(1), unfolded b(2)])
    have plain: "CHR 0x0A \<notin> set (pe_event_id x)" if "x \<in> set es" for x
      using num that event_id_plain unfolding numbered_def by (metis in_set_conv_nth)
    have "\<exists>n. rest = drop n es \<and> (cursor = None \<and> n = 0 \<or> cursor = Some (event_id rid n) \<and> 1 \<le> n \<and> n \<le> length es)"
    proof (cases cursor)
      case None
      then show ?thesis using es(2) by (simp add: resume_after_event_def)
    next
      case (Some i)
      have ne: "es \<noteq> []" using es(2) Some by (auto simp: resume_after_event_def)
      have "i \<in> pe_event_id ` set es"
        using es(2) Some ne find_event_unknown [of es i] by (auto simp: resume_after_event_def Let_def split: if_splits)
      then obtain k where "k < length es" "i = event_id rid (Suc k)"
        using num by (auto simp: in_set_conv_nth numbered_def)
      then show ?thesis using es(2) Some resume_numbered [OF num ne, of "Suc k"] by (intro exI [of _ "Suc k"]) simp
    qed
    then obtain n where n: "rest = drop n es" "cursor = None \<and> n = 0 \<or> cursor = Some (event_id rid n) \<and> 1 \<le> n \<and> n \<le> length es"
      by blast
    have "get_owned_run rid u d \<noteq> None" using es(1) by (auto simp: get_owned_agent_events_def split: option.splits)
    then show ?thesis
      using Inr es(1) n frames [of rest] plain by (auto simp: stream_run_events_def dest: in_set_dropD)
  qed
qed

theorem event_frames_roundtrip_witness:
  "\<exists>body. stream_run_events (\<lambda>_. ''{}'') 3 1 None demo_after = (200, body) \<and>
     split_on CHR 0x0A (concat body) \<noteq> [[]]"
proof -
  obtain es where e: "get_owned_agent_events 3 1 demo_after = Inr es"
    and t: "map (event_type \<circ> pe_payload) es = [''tool_started'', ''tool_result'', ''run_status'', ''node_status'', ''metrics'', ''terminal_result'']"
    using demo_events by (elim exE conjE)
  have s: "stream_run_events (\<lambda>_. ''{}'') 3 1 None demo_after = (200, iter_sse_events (\<lambda>_. ''{}'') es)"
    using e by (simp add: stream_run_events_def resume_after_event_def)
  have dump: "CHR 0x0A \<notin> set ((\<lambda>_ :: public_event. ''{}'') x)" for x by simp
  have "es \<noteq> []" using t by auto
  then show ?thesis
    using event_frames_roundtrip [where rid = 3 and u = 1 and cursor = None and d = demo_after, OF dump] s e by (cases es) auto
qed

end
