(* ===== verification/Planning_Loop.thy ===== *)
theory Planning_Loop
  imports Prompt_Budget
begin

text \<open>
  The bounded tool-calling loop and its drivers: \<open>app/agent/loop.py\<close>, \<open>app/agent/planning.py\<close>, \<open>app/agent/events.py\<close>,
  the study plan prompt of \<open>app/agent/prompts.py\<close> and the normalisation of answers and errors in \<open>app/agent/providers.py\<close>.
  Parameters are the model service, the JSON parsers and the JSON value of a tool result. The
  fixed texts (instructions, schema, descriptions of tools, summaries of events) and the time stamps of events are left out.
\<close>

section \<open>Provider contracts\<close>

record provider_tool_call =
  call_id :: string
  call_name :: string
  call_arguments :: json_object

record provider_response =
  resp_output_text :: "string option"
  resp_tool_calls :: "provider_tool_call list"
  resp_usage :: provider_usage

record provider_request =
  preq_model :: string
  preq_prompt_version :: string
  preq_input :: string
  preq_tools :: "string list"

text \<open>\<open>^[a-z][a-z0-9_]{0,63}$\<close>\<close>

definition tool_name_format :: "string \<Rightarrow> bool" where
  "tool_name_format s \<longleftrightarrow> (case s of [] \<Rightarrow> False
     | c # cs \<Rightarrow> char_between CHR ''a'' CHR ''z'' c \<and> length cs \<le> 63 \<and>
         list_all (\<lambda>x. char_between CHR ''a'' CHR ''z'' x \<or> char_between CHR ''0'' CHR ''9'' x \<or> x = CHR ''_'') cs)"

definition provider_tool_call_ok :: "provider_tool_call \<Rightarrow> bool" where
  "provider_tool_call_ok c \<longleftrightarrow> len_between 1 200 (call_id c) \<and> tool_name_format (call_name c)"

definition provider_usage_ok :: "provider_usage \<Rightarrow> bool" where
  "provider_usage_ok u \<longleftrightarrow> opt_all (\<lambda>n. 0 \<le> n) (usage_input u) \<and> opt_all (\<lambda>n. 0 \<le> n) (usage_output u) \<and> opt_all (\<lambda>n. 0 \<le> n) (usage_total u)"

definition validate_provider_response :: "provider_response \<Rightarrow> provider_response result" where
  "validate_provider_response r =
     (if opt_all (len_between 1 100000) (resp_output_text r) \<and> list_all provider_tool_call_ok (resp_tool_calls r) \<and>
         provider_usage_ok (resp_usage r) \<and> \<not> (resp_output_text r = None \<and> resp_tool_calls r = [])
      then Inr r else Inl ValidationError)"

definition validate_provider_request :: "provider_request \<Rightarrow> provider_request result" where
  "validate_provider_request q =
     (if len_between 1 200 (preq_model q) \<and> len_between 1 100 (preq_prompt_version q) \<and>
         len_between 1 20000 (preq_input q) \<and> length (preq_tools q) \<le> 20 \<and> list_all tool_name_format (preq_tools q)
      then Inr q else Inl ValidationError)"

section \<open>The OpenAI adapter\<close>

text \<open>
  What the SDK hands back: the text, which may be absent or of another type, the output items, and the counters. Of an
  item that is a function call, the identifier and the name are texts or values of another type.
\<close>

datatype raw_value = Raw_absent | Raw_text string | Raw_other

datatype output_item = Function_call raw_value raw_value raw_value | Other_item

record raw_response =
  raw_output_text :: raw_value
  raw_output :: "output_item list"
  raw_usage :: "provider_usage option"

datatype sdk_error = Sdk_provider exn | Sdk_timeout | Sdk_authentication | Sdk_permission | Sdk_connection | Sdk_rate_limit
  | Sdk_status nat | Sdk_other

definition normalize_usage :: "raw_response \<Rightarrow> provider_usage" where
  "normalize_usage r = (case raw_usage r of None \<Rightarrow> \<lparr>usage_input = None, usage_output = None, usage_total = None\<rparr> | Some u \<Rightarrow> u)"

text \<open>\<open>json.loads\<close> is a parameter; \<open>None\<close> stands for text that is not JSON.\<close>

fun normalize_tool_calls :: "(string \<Rightarrow> json option) \<Rightarrow> output_item list \<Rightarrow> provider_tool_call list result" where
  "normalize_tool_calls loads [] = Inr []"
| "normalize_tool_calls loads (Other_item # items) = normalize_tool_calls loads items"
| "normalize_tool_calls loads (Function_call i n a # items) =
     (case (case a of Raw_text t \<Rightarrow> loads t | _ \<Rightarrow> None) of
        Some (J_obj obj) \<Rightarrow>
          (case (i, n) of
             (Raw_text i', Raw_text n') \<Rightarrow>
               let c = \<lparr>call_id = i', call_name = n', call_arguments = obj\<rparr> in
               if provider_tool_call_ok c
               then bind_result (normalize_tool_calls loads items) (\<lambda>cs. Inr (c # cs))
               else Inl ProviderInvalidResponseError
           | _ \<Rightarrow> Inl ProviderInvalidResponseError)
      | _ \<Rightarrow> Inl ProviderInvalidResponseError)"

definition normalize_response :: "(string \<Rightarrow> json option) \<Rightarrow> raw_response \<Rightarrow> provider_response result" where
  "normalize_response loads r =
     (if raw_output_text r = Raw_other then Inl ProviderInvalidResponseError
      else let output_text = (case raw_output_text r of Raw_text t \<Rightarrow> if strip t \<noteq> [] then Some t else None | _ \<Rightarrow> None) in
        bind_result (normalize_tool_calls loads (raw_output r)) (\<lambda>calls.
          if output_text = None \<and> calls = [] then Inl ProviderInvalidResponseError
          else case validate_provider_response \<lparr>resp_output_text = output_text, resp_tool_calls = calls, resp_usage = normalize_usage r\<rparr> of
                 Inl _ \<Rightarrow> Inl ProviderInvalidResponseError
               | Inr resp \<Rightarrow> Inr resp))"

fun normalized_provider_error :: "sdk_error \<Rightarrow> exn" where
  "normalized_provider_error (Sdk_provider x) = x"
| "normalized_provider_error Sdk_timeout = ProviderTimeoutError"
| "normalized_provider_error Sdk_authentication = ProviderAuthenticationError"
| "normalized_provider_error Sdk_permission = ProviderPermissionError"
| "normalized_provider_error Sdk_connection = ProviderTransientError"
| "normalized_provider_error Sdk_rate_limit = ProviderTransientError"
| "normalized_provider_error (Sdk_status n) =
     (if n \<in> {408, 409, 429} \<or> 500 \<le> n then ProviderTransientError else ProviderError)"
| "normalized_provider_error Sdk_other = ProviderError"

definition openai_generate ::
  "(string \<Rightarrow> json option) \<Rightarrow> bool \<Rightarrow> (provider_request \<Rightarrow> sdk_error + raw_response) \<Rightarrow> provider_request \<Rightarrow> rat \<Rightarrow> provider_response result" where
  "openai_generate loads configured create q timeout =
     (if timeout \<le> 0 then Inl ValueError
      else if \<not> configured then Inl ProviderConfigurationError
      else case create q of
             Inl err \<Rightarrow> Inl (normalized_provider_error err)
           | Inr raw \<Rightarrow> (case normalize_response loads raw of
                            Inl x \<Rightarrow> Inl (normalized_provider_error (Sdk_provider x))
                          | Inr r \<Rightarrow> Inr r))"

section \<open>Prompt\<close>

text \<open>\<open>goal.model_dump_json()\<close>\<close>

definition goal_json :: "planning_goal \<Rightarrow> string" where
  "goal_json g = ''{'' @ json_string ''objective'' @ '':'' @ json_string (goal_objective g) @ '','' @
     json_string ''constraints'' @ '':['' @ join_with '','' (map json_string (goal_constraints g)) @ '']}''"

definition build_study_plan_prompt :: "planning_goal \<Rightarrow> string result" where
  "build_study_plan_prompt g =
     (let inp = ''Untrusted user goal JSON:'' @ [CHR 0x0A] @ goal_json g in
      if len_between 1 max_prompt_input_characters inp then Inr inp else Inl ValidationError)"

section \<open>The loop machine\<close>

definition max_model_rounds :: nat where "max_model_rounds = 4"
definition max_tool_calls_per_response :: nat where "max_tool_calls_per_response = 3"
definition max_total_tool_calls :: nat where "max_total_tool_calls = 8"
definition max_single_tool_result_chars :: nat where "max_single_tool_result_chars = 6000"
definition max_accumulated_tool_result_chars :: nat where "max_accumulated_tool_result_chars = 12000"

text \<open>What the machine is built with. The clock is read at the start, for a result and for a failure.\<close>

record loop_rules =
  lr_pydantic :: pydantic_rules
  lr_gateway :: gateway
  lr_context :: runtime_context
  lr_model :: string
  lr_result_text :: "tool_result \<Rightarrow> string"
  lr_loads :: "string \<Rightarrow> json"
  lr_float_repr :: "rat \<Rightarrow> string"
  lr_parse :: "string \<Rightarrow> planning_result option"
  lr_clock :: "nat \<Rightarrow> rat"

record loop_state =
  ls_feedback :: "json list"
  ls_feedback_chars :: nat
  ls_seen_call_ids :: "string list"
  ls_records :: "(string \<times> string) list"
  ls_round_count :: nat
  ls_usages :: "provider_usage list"

definition initial_loop :: loop_state where
  "initial_loop = \<lparr>ls_feedback = [], ls_feedback_chars = 0, ls_seen_call_ids = [], ls_records = [], ls_round_count = 0, ls_usages = []\<rparr>"

record loop_execution =
  le_result :: planning_result
  le_round_count :: nat
  le_records :: "(string \<times> string) list"
  le_metrics :: run_metrics

definition loop_metrics :: "loop_rules \<Rightarrow> planning_goal \<Rightarrow> rat \<Rightarrow> loop_state \<Rightarrow> run_metrics result" where
  "loop_metrics L g finished st =
     bind_result (build_study_plan_prompt g) (\<lambda>_.
       build_run_metrics study_plan_prompt_version (int (ls_round_count st)) (int (ls_round_count st))
         (int (length (ls_records st))) (ls_usages st) (lr_clock L 0) finished)"

text \<open>\<open>json.dumps(feedback, ensure_ascii=False, separators=(",", ":"))\<close>: the keys stay in their order.\<close>

fun json_text :: "(rat \<Rightarrow> string) \<Rightarrow> json \<Rightarrow> string" where
  "json_text fr J_null = ''null''"
| "json_text fr (J_bool b) = (if b then ''true'' else ''false'')"
| "json_text fr (J_int i) = json_int i"
| "json_text fr (J_float q) = fr q"
| "json_text fr (J_str s) = json_string s"
| "json_text fr (J_list vs) = ''['' @ join_with '','' (map (json_text fr) vs) @ '']''"
| "json_text fr (J_obj obj) =
     ''{'' @ join_with '','' (map (\<lambda>(k, v). json_string k @ '':'' @ json_text fr v) obj) @ ''}''"

definition loop_request :: "loop_rules \<Rightarrow> planning_goal \<Rightarrow> json list \<Rightarrow> provider_request result" where
  "loop_request L g feedback =
     bind_result (build_study_plan_prompt g) (\<lambda>prompt.
       let inp = (if feedback = [] then prompt
                  else prompt @ [CHR 0x0A] @ ''Validated tool result data:'' @ [CHR 0x0A] @ json_text (lr_float_repr L) (J_list feedback))
       in if 20000 < length inp then Inl AgentPlanningUnavailableError
          else validate_provider_request \<lparr>preq_model = lr_model L, preq_prompt_version = study_plan_prompt_version, preq_input = inp,
                 preq_tools = available_tool_names (lr_context L)\<rparr>)"

definition next_request :: "loop_rules \<Rightarrow> planning_goal \<Rightarrow> loop_state \<Rightarrow> provider_request result \<times> loop_state" where
  "next_request L g st =
     (if max_model_rounds \<le> ls_round_count st then (Inl AgentPlanningUnavailableError, st)
      else let st' = st\<lparr>ls_round_count := Suc (ls_round_count st)\<rparr> in (loop_request L g (ls_feedback st'), st'))"

datatype transition = Tool_started string | Tool_finished string

text \<open>The loop over the calls of one validated response, with what the observers see.\<close>

fun run_calls ::
  "loop_rules \<Rightarrow> provider_tool_call list \<Rightarrow> loop_state \<Rightarrow> db \<Rightarrow> transition list \<Rightarrow> unit result \<times> loop_state \<times> db \<times> transition list" where
  "run_calls L [] st d ts = (Inr (), st, d, ts)"
| "run_calls L (c # cs) st d ts =
     (let ts1 = ts @ [Tool_started (call_name c)] in
      case execute_tool (lr_pydantic L) (lr_gateway L) (call_name c) (call_arguments c) (lr_context L) d of
        (Inl _, d') \<Rightarrow> (Inl AgentPlanningUnavailableError, st, d', ts1)
      | (Inr r, d') \<Rightarrow>
          let txt = lr_result_text L r; chars = ls_feedback_chars st + length txt; st1 = st\<lparr>ls_feedback_chars := chars\<rparr> in
          if max_single_tool_result_chars < length txt then (Inl AgentPlanningUnavailableError, st, d', ts1)
          else if max_accumulated_tool_result_chars < chars then (Inl AgentPlanningUnavailableError, st1, d', ts1)
          else let st2 = st1\<lparr>ls_feedback := ls_feedback st @ [J_obj [(''call_id'', J_str (call_id c)),
                       (''name'', J_str (call_name c)), (''output'', lr_loads L txt)]]\<rparr> in
            if \<not> provider_tool_call_ok c then (Inl ValidationError, st2, d', ts1)
            else run_calls L cs (st2\<lparr>ls_records := ls_records st @ [(call_id c, call_name c)]\<rparr>) d'
                   (ts1 @ [Tool_finished (call_name c)]))"

definition calls_accepted :: "loop_rules \<Rightarrow> provider_tool_call list \<Rightarrow> loop_state \<Rightarrow> bool" where
  "calls_accepted L calls st \<longleftrightarrow>
     calls \<noteq> [] \<and> length calls \<le> max_tool_calls_per_response \<and>
     length (ls_records st) + length calls \<le> max_total_tool_calls \<and>
     distinct (map call_id calls) \<and> set (ls_seen_call_ids st) \<inter> set (map call_id calls) = {} \<and>
     list_all (\<lambda>c. case validate_tool_arguments (lr_pydantic L) (call_name c) (call_arguments c) (lr_context L) of
                     Inl _ \<Rightarrow> False | Inr _ \<Rightarrow> True) calls"

definition accept_response ::
  "loop_rules \<Rightarrow> planning_goal \<Rightarrow> provider_response \<Rightarrow> loop_state \<Rightarrow> db \<Rightarrow>
   loop_execution option result \<times> loop_state \<times> db \<times> transition list" where
  "accept_response L g r st d =
     (let st1 = st\<lparr>ls_usages := ls_usages st @ [resp_usage r]\<rparr> in
      case resp_output_text r of
        Some t \<Rightarrow>
          if resp_tool_calls r \<noteq> [] then (Inl AgentPlanningUnavailableError, st1, d, [])
          else (case lr_parse L t of
                  None \<Rightarrow> (Inl AgentPlanningUnavailableError, st1, d, [])
                | Some result \<Rightarrow>
                    if \<not> (1 \<le> ls_round_count st1 \<and> ls_round_count st1 \<le> max_model_rounds \<and>
                          length (ls_records st1) \<le> max_total_tool_calls) then (Inl ValidationError, st1, d, [])
                    else (case loop_metrics L g (lr_clock L 1) st1 of
                            Inl x \<Rightarrow> (Inl x, st1, d, [])
                          | Inr m \<Rightarrow> (Inr (Some \<lparr>le_result = result, le_round_count = ls_round_count st1,
                                       le_records = ls_records st1, le_metrics = m\<rparr>), st1, d, [])))
      | None \<Rightarrow>
          if \<not> calls_accepted L (resp_tool_calls r) st1 then (Inl AgentPlanningUnavailableError, st1, d, [])
          else (case run_calls L (resp_tool_calls r)
                       (st1\<lparr>ls_seen_call_ids := ls_seen_call_ids st1 @ map call_id (resp_tool_calls r)\<rparr>) d [] of
                  (Inl x, st2, d', ts) \<Rightarrow> (Inl x, st2, d', ts)
                | (Inr _, st2, d', ts) \<Rightarrow> (Inr None, st2, d', ts)))"

definition generate_safely :: "provider_response result \<Rightarrow> provider_response result" where
  "generate_safely answer =
     (case answer of
        Inl x \<Rightarrow> if x \<in> {ProviderConfigurationError, ProviderAuthenticationError, ProviderPermissionError}
                 then Inl AgentPlanningConfigurationError else Inl AgentPlanningUnavailableError
      | Inr r \<Rightarrow> Inr r)"

lemma run_calls_rounds: "run_calls L cs st d ts = (res, st', d', ts') \<Longrightarrow> ls_round_count st' = ls_round_count st"
  by (induction L cs st d ts rule: run_calls.induct)
     (auto simp: Let_def split: prod.splits sum.splits if_splits)

lemma accept_response_rounds:
  "accept_response L g r st d = (res, st', d', ts) \<Longrightarrow> ls_round_count st' = ls_round_count st"
  by (auto simp: accept_response_def Let_def dest!: run_calls_rounds split: option.splits if_splits sum.splits prod.splits)

lemma next_request_rounds:
  "next_request L g st = (Inr q, st') \<Longrightarrow> ls_round_count st' = Suc (ls_round_count st) \<and> ls_round_count st < max_model_rounds"
  by (auto simp: next_request_def Let_def split: if_splits)

section \<open>Drivers\<close>

text \<open>The provider answers the \<open>n\<close>-th request; what it answers may depend on how often it was asked.\<close>

function run_loop ::
  "loop_rules \<Rightarrow> planning_goal \<Rightarrow> (nat \<Rightarrow> provider_request \<Rightarrow> provider_response result) \<Rightarrow> loop_state \<Rightarrow> db \<Rightarrow> loop_execution result \<times> db" where
  "run_loop L g provider st d =
     (case next_request L g st of
        (Inl x, _) \<Rightarrow> (Inl x, d)
      | (Inr q, st1) \<Rightarrow>
          (case generate_safely (provider (ls_round_count st1) q) of
             Inl x \<Rightarrow> (Inl x, d)
           | Inr r \<Rightarrow>
               (case accept_response L g r st1 d of
                  (Inl x, _, d', _) \<Rightarrow> (Inl x, d')
                | (Inr (Some execution), _, d', _) \<Rightarrow> (Inr execution, d')
                | (Inr None, st2, d', _) \<Rightarrow> run_loop L g provider st2 d')))"
  by pat_completeness auto

termination
  by (relation "measure (\<lambda>(L, g, provider, st, d). max_model_rounds - ls_round_count st)")
     (auto dest!: accept_response_rounds next_request_rounds [OF sym] dest: sym)

declare run_loop.simps [simp del]

definition run_agent_execution ::
  "loop_rules \<Rightarrow> string \<Rightarrow> string list \<Rightarrow> (nat \<Rightarrow> provider_request \<Rightarrow> provider_response result) \<Rightarrow> db \<Rightarrow> loop_execution result \<times> db" where
  "run_agent_execution L objective constraints provider d =
     (case planning_goal objective constraints of
        Inl x \<Rightarrow> (Inl x, d)
      | Inr g \<Rightarrow> run_loop L g provider initial_loop d)"

definition run_agent ::
  "loop_rules \<Rightarrow> string \<Rightarrow> string list \<Rightarrow> (nat \<Rightarrow> provider_request \<Rightarrow> provider_response result) \<Rightarrow> db \<Rightarrow> planning_result result \<times> db" where
  "run_agent L objective constraints provider d =
     map_prod (map_sum id le_result) id (run_agent_execution L objective constraints provider d)"

datatype stream_chunk = Output_delta string | Final_response provider_response

text \<open>A stream fails to open, or gives its chunks and then ends or raises.\<close>

type_synonym stream_answer = "(stream_chunk list \<times> exn option) result"

definition stream_response :: "stream_answer \<Rightarrow> provider_response result" where
  "stream_response answer =
     bind_result answer (\<lambda>(chunks, failure).
       case failure of
         Some x \<Rightarrow> Inl x
       | None \<Rightarrow>
           let parts = concat (map (\<lambda>c. case c of Output_delta t \<Rightarrow> [t] | _ \<Rightarrow> []) chunks);
               finals = concat (map (\<lambda>c. case c of Final_response r \<Rightarrow> [r] | _ \<Rightarrow> []) chunks)
           in if finals = [] then Inl RuntimeError
              else if parts \<noteq> [] \<and> resp_output_text (last finals) \<noteq> Some (concat parts) then Inl RuntimeError
              else Inr (last finals))"

datatype progress_kind = RUN_STARTED | MODEL_STARTED | TOOL_STARTED | TOOL_FINISHED | RESULT_READY | RUN_FAILED_EVENT

record progress_event =
  prog_sequence :: nat
  prog_kind :: progress_kind
  prog_tool_name :: "string option"
  prog_outcome :: "bool option"
  prog_usage :: "provider_usage option"
  prog_result :: "planning_result option"
  prog_metrics :: "run_metrics option"

definition progress_event_ok :: "progress_event \<Rightarrow> bool" where
  "progress_event_ok x \<longleftrightarrow> 1 \<le> prog_sequence x \<and> opt_all tool_name_format (prog_tool_name x) \<and>
     (prog_kind x \<in> {TOOL_STARTED, TOOL_FINISHED}) = (prog_tool_name x \<noteq> None) \<and>
     (prog_kind x = RESULT_READY) = (prog_result x \<noteq> None) \<and>
     (prog_kind x = RESULT_READY \<longrightarrow> prog_outcome x = Some True) \<and>
     (prog_kind x = RUN_FAILED_EVENT \<longrightarrow> prog_outcome x = Some False) \<and>
     (prog_kind x = RESULT_READY \<longrightarrow> prog_metrics x \<noteq> None) \<and>
     (prog_kind x \<notin> {RESULT_READY, RUN_FAILED_EVENT} \<longrightarrow> prog_metrics x = None)"

text \<open>\<open>event(kind, ...)\<close> after \<open>n\<close> events: it counts the event before building it.\<close>

definition plain_event :: "nat \<Rightarrow> progress_kind \<Rightarrow> progress_event" where
  "plain_event n kind = \<lparr>prog_sequence = Suc n, prog_kind = kind, prog_tool_name = None, prog_outcome = None, prog_usage = None,
     prog_result = None, prog_metrics = None\<rparr>"

fun transition_event :: "nat \<Rightarrow> transition \<Rightarrow> progress_event" where
  "transition_event n (Tool_started t) = (plain_event n TOOL_STARTED)\<lparr>prog_tool_name := Some t\<rparr>"
| "transition_event n (Tool_finished t) = (plain_event n TOOL_FINISHED)\<lparr>prog_tool_name := Some t, prog_outcome := Some True\<rparr>"

definition transition_events :: "nat \<Rightarrow> transition list \<Rightarrow> progress_event list" where
  "transition_events n ts = map (\<lambda>(k, t). transition_event k t) (zip [n..<n + length ts] ts)"

definition result_event :: "nat \<Rightarrow> provider_usage \<Rightarrow> loop_execution \<Rightarrow> progress_event" where
  "result_event n usage x = (plain_event n RESULT_READY)\<lparr>prog_outcome := Some True, prog_usage := Some usage,
     prog_result := Some (le_result x), prog_metrics := Some (le_metrics x)\<rparr>"

text \<open>The handler of \<open>except Exception\<close>; it raises when building the metrics does.\<close>

definition failure_event :: "nat \<Rightarrow> run_metrics option result \<Rightarrow> progress_event list \<times> exn option" where
  "failure_event n metrics =
     (case metrics of
        Inl x \<Rightarrow> ([], Some x)
      | Inr m \<Rightarrow> ([(plain_event n RUN_FAILED_EVENT)\<lparr>prog_outcome := Some False, prog_metrics := m\<rparr>], None))"

definition loop_failure :: "loop_rules \<Rightarrow> planning_goal \<Rightarrow> nat \<Rightarrow> loop_state \<Rightarrow> db \<Rightarrow> (progress_event list \<times> exn option) \<times> db" where
  "loop_failure L g n st d = (failure_event n (map_sum id Some (loop_metrics L g (lr_clock L 2) st)), d)"

definition prepend_events :: "'e list \<Rightarrow> ('e list \<times> exn option) \<times> db \<Rightarrow> ('e list \<times> exn option) \<times> db" where
  "prepend_events es rest = ((es @ fst (fst rest), snd (fst rest)), snd rest)"

function stream_loop ::
  "loop_rules \<Rightarrow> planning_goal \<Rightarrow> (nat \<Rightarrow> provider_request \<Rightarrow> stream_answer) \<Rightarrow> nat \<Rightarrow> loop_state \<Rightarrow> db \<Rightarrow>
   (progress_event list \<times> exn option) \<times> db" where
  "stream_loop L g provider n st d =
     (case next_request L g st of
        (Inl _, st1) \<Rightarrow> loop_failure L g n st1 d
      | (Inr q, st1) \<Rightarrow>
          prepend_events [plain_event n MODEL_STARTED]
            (case stream_response (provider (ls_round_count st1) q) of
               Inl _ \<Rightarrow> loop_failure L g (Suc n) st1 d
             | Inr r \<Rightarrow>
                 (case accept_response L g r st1 d of
                    (Inl _, st2, d', _) \<Rightarrow> loop_failure L g (Suc n) st2 d'
                  | (Inr (Some execution), st2, d', ts) \<Rightarrow>
                      ((transition_events (Suc n) ts @ [result_event (Suc n + length ts) (resp_usage r) execution], None), d')
                  | (Inr None, st2, d', ts) \<Rightarrow>
                      prepend_events (transition_events (Suc n) ts)
                        (stream_loop L g provider (Suc n + length ts) st2 d'))))"
  by pat_completeness auto

termination
  by (relation "measure (\<lambda>(L, g, provider, n, st, d). max_model_rounds - ls_round_count st)")
     (auto dest!: accept_response_rounds next_request_rounds [OF sym] dest: sym)

declare stream_loop.simps [simp del]

definition stream_agent ::
  "loop_rules \<Rightarrow> string \<Rightarrow> string list \<Rightarrow> (nat \<Rightarrow> provider_request \<Rightarrow> stream_answer) \<Rightarrow> db \<Rightarrow> (progress_event list \<times> exn option) \<times> db" where
  "stream_agent L objective constraints provider d =
     prepend_events [plain_event 0 RUN_STARTED]
       (case planning_goal objective constraints of
          Inl _ \<Rightarrow> (failure_event 1 (Inr None), d)
        | Inr g \<Rightarrow> stream_loop L g provider 1 initial_loop d)"

section \<open>Planning without tools\<close>

definition plan_attempt :: "(string \<Rightarrow> planning_result option) \<Rightarrow> provider_response result \<Rightarrow> planning_result result" where
  "plan_attempt parse answer =
     bind_result answer (\<lambda>r.
       case resp_output_text r of
         None \<Rightarrow> Inl ProviderInvalidResponseError
       | Some t \<Rightarrow> (case parse t of None \<Rightarrow> Inl ProviderInvalidResponseError | Some p \<Rightarrow> Inr p))"

fun plan_attempts ::
  "(string \<Rightarrow> planning_result option) \<Rightarrow> (nat \<Rightarrow> provider_response result) \<Rightarrow> nat \<Rightarrow> nat \<Rightarrow> planning_result result" where
  "plan_attempts parse provider 0 attempt = Inl AssertionError"
| "plan_attempts parse provider (Suc left) attempt =
     (case plan_attempt parse (provider attempt) of
        Inr p \<Rightarrow> Inr p
      | Inl x \<Rightarrow>
          if x \<in> {ProviderTimeoutError, ProviderTransientError, ProviderInvalidResponseError}
          then (if attempt = planning_max_attempts then Inl AgentPlanningUnavailableError
                else plan_attempts parse provider left (Suc attempt))
          else if x \<in> {ProviderConfigurationError, ProviderAuthenticationError, ProviderPermissionError}
          then Inl AgentPlanningConfigurationError
          else Inl AgentPlanningUnavailableError)"

definition generate_study_plan ::
  "(string \<Rightarrow> planning_result option) \<Rightarrow> string \<Rightarrow> (nat \<Rightarrow> provider_request \<Rightarrow> provider_response result) \<Rightarrow> string \<Rightarrow> string list \<Rightarrow> planning_result result" where
  "generate_study_plan parse model provider objective constraints =
     bind_result (planning_goal objective constraints) (\<lambda>g.
     bind_result (build_study_plan_prompt g) (\<lambda>inp.
     bind_result (validate_provider_request \<lparr>preq_model = model, preq_prompt_version = study_plan_prompt_version, preq_input = inp, preq_tools = []\<rparr>) (\<lambda>q.
       plan_attempts parse (\<lambda>n. provider n q) planning_max_attempts 1)))"

section \<open>Tools of the loop\<close>

lemma accept_response_cases:
  assumes "accept_response L g r st d = (res, st', d', ts)"
  obtains (silent) "d' = d" "ts = []"
  | (calls) st0 rr where "resp_output_text r = None" "run_calls L (resp_tool_calls r) st0 d [] = (rr, st', d', ts)"
      "calls_accepted L (resp_tool_calls r) (st\<lparr>ls_usages := ls_usages st @ [resp_usage r]\<rparr>)" "res = map_sum id (\<lambda>_. None) rr"
proof (cases "resp_output_text r")
  case None
  show ?thesis
  proof (cases "calls_accepted L (resp_tool_calls r) (st\<lparr>ls_usages := ls_usages st @ [resp_usage r]\<rparr>)")
    case True
    obtain rr st2 d2 ts2 where "run_calls L (resp_tool_calls r)
        (st\<lparr>ls_usages := ls_usages st @ [resp_usage r], ls_seen_call_ids := ls_seen_call_ids st @ map call_id (resp_tool_calls r)\<rparr>) d [] =
        (rr, st2, d2, ts2)" by (metis prod_cases4)
    then show ?thesis
      using calls [of _ rr] assms None True by (cases rr) (simp_all add: accept_response_def)
  qed (use assms None silent in \<open>simp add: accept_response_def Let_def\<close>)
next
  case (Some t)
  then have "d' = d" "ts = []"
    using assms by (auto simp: accept_response_def Let_def split: option.splits if_splits sum.splits)
  then show ?thesis by (rule silent)
qed

text \<open>
  What the loop needs of its tools: each call keeps an invariant of the database and relates the database before and after. The loop
  and its streaming driver then keep the invariant and relate their databases by a chain of such steps.
\<close>

locale confined_tools =
  fixes L :: loop_rules
    and inv :: "db \<Rightarrow> bool"
    and effect :: "db \<Rightarrow> db \<Rightarrow> bool"
  assumes tool_confined: "inv d \<Longrightarrow>
      inv (snd (execute_tool (lr_pydantic L) (lr_gateway L) name arguments (lr_context L) d)) \<and>
      effect d (snd (execute_tool (lr_pydantic L) (lr_gateway L) name arguments (lr_context L) d))"
begin

lemma run_calls_confined:
  "inv d \<Longrightarrow> run_calls L cs st d ts = (res, st', d', ts') \<Longrightarrow> inv d' \<and> effect\<^sup>*\<^sup>* d d'"
proof (induction cs arbitrary: st d ts)
  case (Cons c cs)
  obtain r d1 where x: "execute_tool (lr_pydantic L) (lr_gateway L) (call_name c) (call_arguments c) (lr_context L) d = (r, d1)"
    by fastforce
  have d1: "inv d1" "effect d d1" using tool_confined [OF Cons.prems(1), of "call_name c" "call_arguments c"] x by simp_all
  have "d' = d1 \<or> (\<exists>st2 ts2. run_calls L cs st2 d1 ts2 = (res, st', d', ts'))"
    using Cons.prems(2) x by (auto simp: Let_def split: sum.splits if_splits)
  then show ?case
  proof
    assume "\<exists>st2 ts2. run_calls L cs st2 d1 ts2 = (res, st', d', ts')"
    then have "inv d' \<and> effect\<^sup>*\<^sup>* d1 d'" using Cons.IH [OF d1(1)] by blast
    then show ?thesis using d1(2) by (meson converse_rtranclp_into_rtranclp)
  qed (use d1 in auto)
qed simp

lemma accept_response_confined:
  assumes "inv d" "accept_response L g r st d = (res, st', d', ts)"
  shows "inv d' \<and> effect\<^sup>*\<^sup>* d d'"
  using assms(2)
proof (cases rule: accept_response_cases)
  case (calls st0 rr)
  then show ?thesis using run_calls_confined assms(1) by blast
qed (use assms(1) in simp)

lemma run_loop_confined: "inv d \<Longrightarrow> inv (snd (run_loop L g provider st d)) \<and> effect\<^sup>*\<^sup>* d (snd (run_loop L g provider st d))"
proof (induction "max_model_rounds - ls_round_count st" arbitrary: st d rule: less_induct)
  case less
  obtain nr st1 where n: "next_request L g st = (nr, st1)" by fastforce
  show ?case
  proof (cases nr)
    case (Inl x)
    then show ?thesis using less.prems n by (subst (1 2) run_loop.simps) simp
  next
    case (Inr q)
    show ?thesis
    proof (cases "generate_safely (provider (ls_round_count st1) q)")
      case (Inl x)
      then show ?thesis using less.prems n Inr by (subst (1 2) run_loop.simps) simp
    next
      case r: (Inr r)
      obtain res st2 d1 ts where a: "accept_response L g r st1 d = (res, st2, d1, ts)" by (metis prod_cases4)
      have d1: "inv d1" "effect\<^sup>*\<^sup>* d d1" using accept_response_confined [OF less.prems a] by simp_all
      show ?thesis
      proof (cases "res = Inr None")
        case True
        have step: "run_loop L g provider st d = run_loop L g provider st2 d1"
          using n Inr r a True by (subst run_loop.simps) simp
        have "max_model_rounds - ls_round_count st2 < max_model_rounds - ls_round_count st"
          using next_request_rounds n Inr accept_response_rounds [OF a] by fastforce
        then show ?thesis using less.hyps d1 step by (metis rtranclp_trans)
      next
        case False
        then have "snd (run_loop L g provider st d) = d1"
          using n Inr r a by (subst run_loop.simps) (auto split: sum.splits option.splits)
        then show ?thesis using d1 by simp
      qed
    qed
  qed
qed

end

interpretation domain_loop: confined_tools "L\<lparr>lr_gateway := agent_domain_gateway e tr search\<rparr>" wf_core
    "\<lambda>d d'. task_effect False (ctx_user_id (lr_context L)) d d' \<and> (write_tools_enabled (lr_context L) \<or> d' = d)"
    for L e tr search
proof
  fix d name arguments
  assume d: "wf_core d"
  let ?r = "execute_tool (lr_pydantic L) (agent_domain_gateway e tr search) name arguments (lr_context L) d"
  have effect: "task_effect False (ctx_user_id (lr_context L)) d (snd ?r)"
    using run_tool_effect [OF wf_core_distinct_tasks [OF d]] by (auto simp: execute_tool_def split: sum.splits)
  moreover have "snd ?r = d" if "\<not> write_tools_enabled (lr_context L)"
    using validate_tool_arguments_read_only [OF _ that] run_tool_read_only by (auto simp: execute_tool_def split: sum.splits)
  ultimately show "wf_core (snd (execute_tool (lr_pydantic (L\<lparr>lr_gateway := agent_domain_gateway e tr search\<rparr>))
        (lr_gateway (L\<lparr>lr_gateway := agent_domain_gateway e tr search\<rparr>)) name arguments
        (lr_context (L\<lparr>lr_gateway := agent_domain_gateway e tr search\<rparr>)) d)) \<and>
      task_effect False (ctx_user_id (lr_context L)) d (snd (execute_tool (lr_pydantic (L\<lparr>lr_gateway := agent_domain_gateway e tr search\<rparr>))
        (lr_gateway (L\<lparr>lr_gateway := agent_domain_gateway e tr search\<rparr>)) name arguments
        (lr_context (L\<lparr>lr_gateway := agent_domain_gateway e tr search\<rparr>)) d)) \<and>
      (write_tools_enabled (lr_context L) \<or> snd (execute_tool (lr_pydantic (L\<lparr>lr_gateway := agent_domain_gateway e tr search\<rparr>))
        (lr_gateway (L\<lparr>lr_gateway := agent_domain_gateway e tr search\<rparr>)) name arguments
        (lr_context (L\<lparr>lr_gateway := agent_domain_gateway e tr search\<rparr>)) d) = d)"
    using task_effect_wf_core [OF effect d] by auto
qed

section \<open>Bounds of the loop\<close>

definition loop_inv :: "loop_rules \<Rightarrow> loop_state \<Rightarrow> bool" where
  "loop_inv L st \<longleftrightarrow> ls_round_count st \<le> max_model_rounds \<and> length (ls_records st) \<le> max_total_tool_calls \<and>
     distinct (map fst (ls_records st)) \<and> set (map fst (ls_records st)) \<subseteq> set (ls_seen_call_ids st) \<and>
     ls_feedback_chars st \<le> max_accumulated_tool_result_chars \<and>
     list_all (\<lambda>(i, n). n \<in> set (available_tool_names (lr_context L))) (ls_records st)"

lemma run_calls_Inr:
  "run_calls L cs st d ts = (Inr u, st', d', ts') \<Longrightarrow>
   ls_records st' = ls_records st @ map (\<lambda>c. (call_id c, call_name c)) cs \<and> ls_seen_call_ids st' = ls_seen_call_ids st \<and>
   (ls_feedback_chars st \<le> max_accumulated_tool_result_chars \<longrightarrow> ls_feedback_chars st' \<le> max_accumulated_tool_result_chars) \<and>
   ts' = ts @ concat (map (\<lambda>c. [Tool_started (call_name c), Tool_finished (call_name c)]) cs)"
proof (induction cs arbitrary: st d ts)
  case (Cons c cs)
  obtain r d1 where x: "execute_tool (lr_pydantic L) (lr_gateway L) (call_name c) (call_arguments c) (lr_context L) d = (Inr r, d1)"
    using Cons.prems by (auto simp: Let_def split: prod.splits sum.splits)
  let ?chars = "ls_feedback_chars st + length (lr_result_text L r)"
  let ?st = "st\<lparr>ls_feedback_chars := ?chars, ls_feedback := ls_feedback st @ [J_obj [(''call_id'', J_str (call_id c)),
      (''name'', J_str (call_name c)), (''output'', lr_loads L (lr_result_text L r))]],
      ls_records := ls_records st @ [(call_id c, call_name c)]\<rparr>"
  have ok: "?chars \<le> max_accumulated_tool_result_chars"
    and rest: "run_calls L cs ?st d1 (ts @ [Tool_started (call_name c), Tool_finished (call_name c)]) = (Inr u, st', d', ts')"
    using Cons.prems x by (auto simp: Let_def split: if_splits)
  from Cons.IH [OF rest] ok show ?case by simp
qed simp

lemma calls_accepted_names:
  assumes "calls_accepted L calls st" "c \<in> set calls"
  shows "call_name c \<in> set (available_tool_names (lr_context L))"
proof -
  obtain v where "validate_tool_arguments (lr_pydantic L) (call_name c) (call_arguments c) (lr_context L) = Inr v"
    using assms by (cases "validate_tool_arguments (lr_pydantic L) (call_name c) (call_arguments c) (lr_context L)")
      (auto simp: calls_accepted_def list_all_iff)
  then show ?thesis
    by (auto simp: validate_tool_arguments_def available_tool_names_def tool_names_def split: if_splits)
qed

lemma accept_response_inv:
  assumes "loop_inv L st" "accept_response L g r st d = (Inr res, st', d', ts)"
  shows "loop_inv L st'"
proof (cases "resp_output_text r")
  case None
  let ?st = "st\<lparr>ls_usages := ls_usages st @ [resp_usage r], ls_seen_call_ids := ls_seen_call_ids st @ map call_id (resp_tool_calls r)\<rparr>"
  have acc: "calls_accepted L (resp_tool_calls r) (st\<lparr>ls_usages := ls_usages st @ [resp_usage r]\<rparr>)"
    using assms(2) None by (auto simp: accept_response_def Let_def split: if_splits)
  then obtain u where rc: "run_calls L (resp_tool_calls r) ?st d [] = (Inr u, st', d', ts)"
    using assms(2) None by (auto simp: accept_response_def Let_def split: prod.splits sum.splits)
  have "list_all (\<lambda>(i, n). n \<in> set (available_tool_names (lr_context L))) (map (\<lambda>c. (call_id c, call_name c)) (resp_tool_calls r))"
    using calls_accepted_names [OF acc] by (auto simp: list_all_iff)
  then show ?thesis
    using run_calls_Inr [OF rc] run_calls_rounds [OF rc] acc assms(1)
    by (auto simp: loop_inv_def calls_accepted_def comp_def)
next
  case (Some t)
  then have "st' = st\<lparr>ls_usages := ls_usages st @ [resp_usage r]\<rparr>"
    using assms(2) by (auto simp: accept_response_def Let_def split: option.splits if_splits sum.splits)
  then show ?thesis using assms(1) by (simp add: loop_inv_def)
qed

lemma accept_response_result:
  assumes "loop_inv L st" "accept_response L g r st d = (Inr (Some x), st', d', ts)"
  shows "1 \<le> le_round_count x \<and> le_round_count x \<le> 4 \<and> length (le_records x) \<le> 8 \<and> distinct (map fst (le_records x)) \<and>
    list_all (\<lambda>(i, n). n \<in> set (available_tool_names (lr_context L))) (le_records x) \<and>
    (\<exists>t. resp_output_text r = Some t \<and> lr_parse L t = Some (le_result x)) \<and>
    met_tool_call_count (le_metrics x) = int (length (le_records x)) \<and> met_model_round_count (le_metrics x) = int (le_round_count x)"
  using assms
  by (auto simp: accept_response_def Let_def loop_inv_def loop_metrics_def build_run_metrics_def max_model_rounds_def max_total_tool_calls_def
      bind_result_eq_Inr split: option.splits if_splits sum.splits prod.splits)

section \<open>What the loop answers\<close>

definition loop_execution_ok :: "loop_rules \<Rightarrow> loop_execution \<Rightarrow> bool" where
  "loop_execution_ok L x \<longleftrightarrow> 1 \<le> le_round_count x \<and> le_round_count x \<le> 4 \<and> length (le_records x) \<le> 8 \<and>
     distinct (map fst (le_records x)) \<and> list_all (\<lambda>(i, n). n \<in> set (available_tool_names (lr_context L))) (le_records x) \<and>
     (\<exists>t. lr_parse L t = Some (le_result x)) \<and>
     met_tool_call_count (le_metrics x) = int (length (le_records x)) \<and> met_model_round_count (le_metrics x) = int (le_round_count x)"

lemma tool_names_format: "n \<in> set (available_tool_names ctx) \<Longrightarrow> tool_name_format n"
  by (auto simp: available_tool_names_def tool_names_def read_tool_names_def write_tool_names_def standard_write_tool_names_def
      high_impact_tool_names_def tool_name_format_def char_between_def split: if_splits)

lemma run_calls_errors:
  "list_all provider_tool_call_ok cs \<Longrightarrow> run_calls L cs st d ts = (Inl x, st', d', ts') \<Longrightarrow> x = AgentPlanningUnavailableError"
proof (induction cs arbitrary: st d ts)
  case (Cons c cs)
  obtain r d1 where e: "execute_tool (lr_pydantic L) (lr_gateway L) (call_name c) (call_arguments c) (lr_context L) d = (r, d1)"
    by fastforce
  have "x = AgentPlanningUnavailableError \<or> (\<exists>st2 ts2. run_calls L cs st2 d1 ts2 = (Inl x, st', d', ts'))"
    using Cons.prems e by (auto simp: Let_def split: sum.splits if_splits)
  then show ?case using Cons.IH Cons.prems(1) by auto
qed simp

lemma accept_response_errors:
  assumes "accept_response L g r st d = (Inl x, st', d', ts)" "loop_inv L st" "1 \<le> ls_round_count st"
    and "list_all provider_tool_call_ok (resp_tool_calls r)" "build_study_plan_prompt g = Inr inp" "lr_clock L 0 \<le> lr_clock L 1"
  shows "x = AgentPlanningUnavailableError"
proof (cases "resp_output_text r")
  case None
  then show ?thesis using assms(1) run_calls_errors [OF assms(4)]
    by (auto simp: accept_response_def Let_def split: if_splits prod.splits sum.splits)
next
  case (Some t)
  have "\<exists>m. loop_metrics L g (lr_clock L 1) s = Inr m" for s
    using assms(5,6) by (simp add: loop_metrics_def build_run_metrics_def Let_def)
  then show ?thesis using assms(1-3) Some
    by (auto simp: accept_response_def Let_def loop_inv_def split: option.splits if_splits sum.splits) (metis sum.distinct(1))+
qed

lemma loop_request_errors:
  assumes "build_study_plan_prompt g = Inr inp" "len_between 1 200 (lr_model L)" "loop_request L g fb = Inl x"
  shows "x = AgentPlanningUnavailableError"
proof -
  have "1 \<le> length inp" using assms(1) by (auto simp: build_study_plan_prompt_def Let_def len_between_def split: if_splits)
  moreover have "length (available_tool_names ctx) \<le> 20" "list_all tool_name_format (available_tool_names ctx)" for ctx
    using tool_names_format by (auto simp: list_all_iff available_tool_names_def tool_names_def read_tool_names_def
        write_tool_names_def standard_write_tool_names_def high_impact_tool_names_def)
  ultimately show ?thesis
    using assms by (auto simp: loop_request_def validate_provider_request_def Let_def len_between_def study_plan_prompt_version_def split: if_splits)
qed

lemma next_request_inv:
  assumes "next_request L g st = (Inr q, st1)" "loop_inv L st"
  shows "loop_inv L st1 \<and> 1 \<le> ls_round_count st1"
proof -
  have "st1 = st\<lparr>ls_round_count := Suc (ls_round_count st)\<rparr>" "ls_round_count st < max_model_rounds"
    using assms(1) by (auto simp: next_request_def Let_def split: if_splits)
  then show ?thesis using assms(2) by (simp add: loop_inv_def)
qed

lemma run_loop_answers:
  assumes "loop_inv L st" "build_study_plan_prompt g = Inr inp" "len_between 1 200 (lr_model L)" "lr_clock L 0 \<le> lr_clock L 1"
    and "\<And>n q r. provider n q = Inr r \<Longrightarrow> validate_provider_response r = Inr r"
  shows "case fst (run_loop L g provider st d) of
    Inr x \<Rightarrow> loop_execution_ok L x | Inl x \<Rightarrow> x \<in> {AgentPlanningUnavailableError, AgentPlanningConfigurationError}"
  using assms(1)
proof (induction "max_model_rounds - ls_round_count st" arbitrary: st d rule: less_induct)
  case less
  obtain nr st1 where n: "next_request L g st = (nr, st1)" by fastforce
  show ?case
  proof (cases nr)
    case (Inl x)
    then have "x = AgentPlanningUnavailableError"
      using n loop_request_errors [OF assms(2,3)] by (auto simp: next_request_def Let_def split: if_splits)
    then show ?thesis using n Inl by (subst run_loop.simps) simp
  next
    case (Inr q)
    have st1: "loop_inv L st1" "1 \<le> ls_round_count st1"
      using next_request_inv [OF n [unfolded Inr] less.prems] by simp_all
    show ?thesis
    proof (cases "generate_safely (provider (ls_round_count st1) q)")
      case (Inl x)
      then have "x \<in> {AgentPlanningUnavailableError, AgentPlanningConfigurationError}"
        by (auto simp: generate_safely_def split: sum.splits if_splits)
      then show ?thesis using n Inr Inl by (subst run_loop.simps) simp
    next
      case r: (Inr r)
      then have "provider (ls_round_count st1) q = Inr r" by (auto simp: generate_safely_def split: sum.splits if_splits)
      then have calls: "list_all provider_tool_call_ok (resp_tool_calls r)"
        using assms(5) by (fastforce simp: validate_provider_response_def split: if_splits)
      obtain res st2 d1 ts where a: "accept_response L g r st1 d = (res, st2, d1, ts)" by (metis prod_cases4)
      consider (error) x where "res = Inl x" | (finished) x where "res = Inr (Some x)" | (again) "res = Inr None"
        by (metis option.exhaust sum.exhaust)
      then show ?thesis
      proof cases
        case error
        then show ?thesis using n Inr r a accept_response_errors [OF a [unfolded error] st1 calls assms(2,4)]
          by (subst run_loop.simps) simp
      next
        case finished
        then show ?thesis using n Inr r a accept_response_result [OF st1(1) a [unfolded finished]]
          by (subst run_loop.simps) (auto simp: loop_execution_ok_def)
      next
        case again
        have "max_model_rounds - ls_round_count st2 < max_model_rounds - ls_round_count st"
          using next_request_rounds n Inr accept_response_rounds [OF a] by fastforce
        moreover have "loop_inv L st2" using accept_response_inv [OF st1(1) a [unfolded again]] .
        ultimately have "case fst (run_loop L g provider st2 d1) of
            Inr x \<Rightarrow> loop_execution_ok L x | Inl x \<Rightarrow> x \<in> {AgentPlanningUnavailableError, AgentPlanningConfigurationError}"
          by (rule less.hyps)
        moreover have "run_loop L g provider st d = run_loop L g provider st2 d1"
          using n Inr r a again by (subst run_loop.simps) simp
        ultimately show ?thesis by simp
      qed
    qed
  qed
qed

lemma initial_loop_inv: "loop_inv L initial_loop"
  by (simp add: loop_inv_def initial_loop_def)

text \<open>
  The planning loop is bounded and confined, whatever the model answers. With a goal that fits the prompt it ends with a plan that
  the contract accepts, after at most four model rounds and eight tool calls, all with different identifiers and granted tools, and
  with metrics that count them, or with one of the two fixed planning errors. Its effect on the
  database is a chain of tool calls of the runtime user, which never complete a Task, and nothing at all
  when the host did not grant write tools.
\<close>

theorem planning_loop_bounded:
  assumes "wf_core d" "planning_goal objective constraints = Inr g" "build_study_plan_prompt g = Inr inp"
    and "len_between 1 200 (lr_model L)" "lr_clock L 0 \<le> lr_clock L 1"
    and "\<And>n q r. provider n q = Inr r \<Longrightarrow> validate_provider_response r = Inr r"
  shows "case run_agent_execution (L\<lparr>lr_gateway := agent_domain_gateway e tr search\<rparr>) objective constraints provider d of
    (res, d') \<Rightarrow> wf_core d' \<and> (task_effect False (ctx_user_id (lr_context L)))\<^sup>*\<^sup>* d d' \<and>
      (write_tools_enabled (lr_context L) \<or> d' = d) \<and>
      (case res of
         Inr x \<Rightarrow> loop_execution_ok L x
       | Inl x \<Rightarrow> x \<in> {AgentPlanningUnavailableError, AgentPlanningConfigurationError})"
proof -
  let ?L = "L\<lparr>lr_gateway := agent_domain_gateway e tr search\<rparr>"
  let ?R = "\<lambda>d d'. task_effect False (ctx_user_id (lr_context L)) d d' \<and> (write_tools_enabled (lr_context L) \<or> d' = d)"
  obtain res d' where r: "run_loop ?L g provider initial_loop d = (res, d')" by fastforce
  have wf: "wf_core d'" and chain: "?R\<^sup>*\<^sup>* d d'"
    using domain_loop.run_loop_confined [OF assms(1), where L = L and e = e and tr = tr and search = search and g = g and
        provider = provider and st = initial_loop] r by simp_all
  have "(task_effect False (ctx_user_id (lr_context L)))\<^sup>*\<^sup>* d d'"
    using chain by (rule rtranclp_mono [THEN predicate2D, rotated]) auto
  moreover have "d' = d" if "\<not> write_tools_enabled (lr_context L)"
    using chain that by (induction rule: rtranclp_induct) auto
  moreover have "case res of Inr x \<Rightarrow> loop_execution_ok ?L x | Inl x \<Rightarrow> x \<in> {AgentPlanningUnavailableError, AgentPlanningConfigurationError}"
    using run_loop_answers [where L = ?L and st = initial_loop and g = g and provider = provider and d = d, OF initial_loop_inv assms(3) _ _ assms(6)]
      assms(4,5) r by simp
  moreover have "loop_execution_ok ?L x = loop_execution_ok L x" for x by (simp add: loop_execution_ok_def)
  ultimately show ?thesis
    using r wf assms(2) by (cases res) (auto simp: run_agent_execution_def)
qed

section \<open>Shape of the stream\<close>

definition terminal_event :: "progress_event \<Rightarrow> bool" where
  "terminal_event x \<longleftrightarrow> prog_kind x \<in> {RESULT_READY, RUN_FAILED_EVENT}"

definition stream_shape :: "nat \<Rightarrow> progress_event list \<times> exn option \<Rightarrow> bool" where
  "stream_shape n s \<longleftrightarrow> map prog_sequence (fst s) = [Suc n..<Suc n + length (fst s)] \<and> list_all progress_event_ok (fst s) \<and>
     (case snd s of
        None \<Rightarrow> fst s \<noteq> [] \<and> terminal_event (last (fst s)) \<and> list_all (\<lambda>x. \<not> terminal_event x) (butlast (fst s))
      | Some _ \<Rightarrow> list_all (\<lambda>x. \<not> terminal_event x) (fst s))"

lemma stream_shape_prepend:
  assumes "stream_shape (n + length es) (fst rest)" "map prog_sequence es = [Suc n..<Suc n + length es]"
    "list_all progress_event_ok es" "list_all (\<lambda>x. \<not> terminal_event x) es"
  shows "stream_shape n (fst (prepend_events es rest))"
proof -
  have "[Suc n..<Suc n + length es] @ [Suc (n + length es)..<Suc (n + length es) + length (fst (fst rest))] =
      [Suc n..<Suc n + (length es + length (fst (fst rest)))]"
    by (metis add.assoc add_Suc le_add1 upt_add_eq_append)
  then show ?thesis
    using assms by (auto simp: stream_shape_def prepend_events_def butlast_append split: option.splits)
qed

lemma transition_events_shape:
  assumes "list_all (\<lambda>t. case t of Tool_started x \<Rightarrow> tool_name_format x | Tool_finished x \<Rightarrow> tool_name_format x) ts"
  shows "map prog_sequence (transition_events n ts) = [Suc n..<Suc n + length ts]" "length (transition_events n ts) = length ts"
    "list_all progress_event_ok (transition_events n ts)" "list_all (\<lambda>x. \<not> terminal_event x) (transition_events n ts)"
proof -
  have f: "prog_sequence (transition_event k t) = Suc k" "\<not> terminal_event (transition_event k t)" for k t
    by (cases t; simp add: plain_event_def terminal_event_def)+
  have ok: "progress_event_ok (transition_event k t)" if "t \<in> set ts" for k t
    using assms that by (cases t) (auto simp: progress_event_ok_def plain_event_def list_all_iff)
  show "length (transition_events n ts) = length ts" by (simp add: transition_events_def)
  show "map prog_sequence (transition_events n ts) = [Suc n..<Suc n + length ts]"
    by (rule nth_equalityI) (simp_all add: transition_events_def f del: upt_Suc)
  show "list_all progress_event_ok (transition_events n ts)" "list_all (\<lambda>x. \<not> terminal_event x) (transition_events n ts)"
    by (auto simp: transition_events_def list_all_iff f intro: ok dest: set_zip_rightD)
qed

lemma loop_failure_shape: "stream_shape n (fst (loop_failure L g n st d))"
  by (auto simp: loop_failure_def failure_event_def stream_shape_def plain_event_def progress_event_ok_def terminal_event_def split: sum.splits)

lemma accept_response_transitions:
  assumes "accept_response L g r st d = (Inr res, st', d', ts)"
  shows "list_all (\<lambda>t. case t of Tool_started x \<Rightarrow> tool_name_format x | Tool_finished x \<Rightarrow> tool_name_format x) ts"
  using assms
proof (cases rule: accept_response_cases)
  case (calls st0 rr)
  obtain u where "rr = Inr u" using calls(4) by (cases rr) auto
  then have "ts = concat (map (\<lambda>c. [Tool_started (call_name c), Tool_finished (call_name c)]) (resp_tool_calls r))"
    using run_calls_Inr calls(2) by fastforce
  then show ?thesis using calls_accepted_names [OF calls(3)] tool_names_format by (fastforce simp: list_all_iff)
qed simp

lemma stream_loop_shape: "stream_shape n (fst (stream_loop L g provider n st d))"
proof (induction "max_model_rounds - ls_round_count st" arbitrary: n st d rule: less_induct)
  case less
  obtain nr st1 where nx: "next_request L g st = (nr, st1)" by fastforce
  show ?case
  proof (cases nr)
    case (Inl x)
    then show ?thesis using nx loop_failure_shape by (subst stream_loop.simps) simp
  next
    case (Inr q)
    have start: "map prog_sequence [plain_event n MODEL_STARTED] = [Suc n..<Suc n + length [plain_event n MODEL_STARTED]]"
      "list_all progress_event_ok [plain_event n MODEL_STARTED]" "list_all (\<lambda>x. \<not> terminal_event x) [plain_event n MODEL_STARTED]"
      by (simp_all add: plain_event_def progress_event_ok_def terminal_event_def)
    let ?rest = "case stream_response (provider (ls_round_count st1) q) of
               Inl _ \<Rightarrow> loop_failure L g (Suc n) st1 d
             | Inr r \<Rightarrow>
                 (case accept_response L g r st1 d of
                    (Inl _, st2, d', _) \<Rightarrow> loop_failure L g (Suc n) st2 d'
                  | (Inr (Some execution), st2, d', ts) \<Rightarrow>
                      ((transition_events (Suc n) ts @ [result_event (Suc n + length ts) (resp_usage r) execution], None), d')
                  | (Inr None, st2, d', ts) \<Rightarrow>
                      prepend_events (transition_events (Suc n) ts) (stream_loop L g provider (Suc n + length ts) st2 d'))"
    have "stream_shape (Suc n) (fst ?rest)"
    proof (cases "stream_response (provider (ls_round_count st1) q)")
      case (Inl x)
      then show ?thesis using loop_failure_shape by simp
    next
      case r: (Inr r)
      obtain res st2 d1 ts where a: "accept_response L g r st1 d = (res, st2, d1, ts)" by (metis prod_cases4)
      consider (error) x where "res = Inl x" | (finished) x where "res = Inr (Some x)" | (again) "res = Inr None"
        by (metis option.exhaust sum.exhaust)
      then show ?thesis
      proof cases
        case error
        then show ?thesis using r a loop_failure_shape by simp
      next
        case finished
        note ts = transition_events_shape [OF accept_response_transitions [OF a [unfolded finished]], of "Suc n"]
        have "stream_shape (Suc n + length ts) ([result_event (Suc n + length ts) (resp_usage r) x], None)"
          by (simp add: stream_shape_def result_event_def plain_event_def progress_event_ok_def terminal_event_def)
        then have "stream_shape (Suc n) (fst (prepend_events (transition_events (Suc n) ts)
            (([result_event (Suc n + length ts) (resp_usage r) x], None), d1)))"
          using ts by (intro stream_shape_prepend) simp_all
        then show ?thesis using r a finished by (simp add: prepend_events_def)
      next
        case again
        note ts = transition_events_shape [OF accept_response_transitions [OF a [unfolded again]], of "Suc n"]
        have "max_model_rounds - ls_round_count st2 < max_model_rounds - ls_round_count st"
          using next_request_rounds nx Inr accept_response_rounds [OF a] by fastforce
        then have "stream_shape (Suc n + length ts) (fst (stream_loop L g provider (Suc n + length ts) st2 d1))" by (rule less)
        then have "stream_shape (Suc n) (fst (prepend_events (transition_events (Suc n) ts) (stream_loop L g provider (Suc n + length ts) st2 d1)))"
          using ts by (intro stream_shape_prepend) simp_all
        then show ?thesis using r a again by simp
      qed
    qed
    then have "stream_shape n (fst (prepend_events [plain_event n MODEL_STARTED] ?rest))"
      using start by (intro stream_shape_prepend) simp_all
    then show ?thesis using nx Inr by (subst stream_loop.simps) simp
  qed
qed

lemma failure_metrics:
  "build_study_plan_prompt g = Inr inp \<Longrightarrow> lr_clock L 0 \<le> lr_clock L 2 \<Longrightarrow> \<exists>m. loop_metrics L g (lr_clock L 2) st = Inr m"
  by (simp add: loop_metrics_def build_run_metrics_def Let_def)

section \<open>The two drivers agree\<close>

definition streams_like :: "(nat \<Rightarrow> provider_request \<Rightarrow> stream_answer) \<Rightarrow> (nat \<Rightarrow> provider_request \<Rightarrow> provider_response result) \<Rightarrow> bool" where
  "streams_like streamer provider \<longleftrightarrow> (\<forall>n q. case provider n q of
     Inr r \<Rightarrow> stream_response (streamer n q) = Inr r | Inl _ \<Rightarrow> (\<exists>x. stream_response (streamer n q) = Inl x))"

definition stream_ends_like :: "(progress_event list \<times> exn option) \<times> db \<Rightarrow> loop_execution result \<times> db \<Rightarrow> bool" where
  "stream_ends_like s r \<longleftrightarrow> snd s = snd r \<and> snd (fst s) = None \<and> fst (fst s) \<noteq> [] \<and>
     (case fst r of
        Inr x \<Rightarrow> prog_kind (last (fst (fst s))) = RESULT_READY \<and> prog_result (last (fst (fst s))) = Some (le_result x) \<and>
                 prog_metrics (last (fst (fst s))) = Some (le_metrics x)
      | Inl _ \<Rightarrow> prog_kind (last (fst (fst s))) = RUN_FAILED_EVENT)"

lemma stream_ends_like_prepend: "stream_ends_like s r \<Longrightarrow> stream_ends_like (prepend_events es s) r"
  by (auto simp: stream_ends_like_def prepend_events_def split: sum.splits)

lemma loop_failure_ends:
  "build_study_plan_prompt g = Inr inp \<Longrightarrow> lr_clock L 0 \<le> lr_clock L 2 \<Longrightarrow> stream_ends_like (loop_failure L g n st d) (Inl x, d)"
  by (frule (1) failure_metrics [of g inp L st]) (auto simp: loop_failure_def failure_event_def stream_ends_like_def plain_event_def)

lemma stream_loop_ends_like:
  assumes "streams_like streamer provider" "build_study_plan_prompt g = Inr inp" "lr_clock L 0 \<le> lr_clock L 2"
  shows "stream_ends_like (stream_loop L g streamer n st d) (run_loop L g provider st d)"
proof (induction "max_model_rounds - ls_round_count st" arbitrary: n st d rule: less_induct)
  case less
  note failed = loop_failure_ends [OF assms(2,3)]
  obtain nr st1 where nx: "next_request L g st = (nr, st1)" by fastforce
  show ?case
  proof (cases nr)
    case (Inl x)
    then show ?thesis using nx failed by (subst stream_loop.simps, subst run_loop.simps) simp
  next
    case (Inr q)
    let ?answer = "provider (ls_round_count st1) q"
    show ?thesis
    proof (cases ?answer)
      case (Inl x)
      then obtain y where "stream_response (streamer (ls_round_count st1) q) = Inl y"
        using assms(1) by (fastforce simp: streams_like_def split: sum.splits)
      moreover have "\<exists>z. generate_safely ?answer = Inl z" using Inl by (simp add: generate_safely_def)
      ultimately show ?thesis
        using nx Inr failed by (subst stream_loop.simps, subst run_loop.simps) (auto simp: stream_ends_like_prepend)
    next
      case r: (Inr r)
      have s: "stream_response (streamer (ls_round_count st1) q) = Inr r" "generate_safely ?answer = Inr r"
        using assms(1) r by (auto simp: streams_like_def generate_safely_def dest!: spec [of _ "ls_round_count st1"] spec [of _ q])
      obtain res st2 d1 ts where a: "accept_response L g r st1 d = (res, st2, d1, ts)" by (metis prod_cases4)
      consider (error) x where "res = Inl x" | (finished) x where "res = Inr (Some x)" | (again) "res = Inr None"
        by (metis option.exhaust sum.exhaust)
      then show ?thesis
      proof cases
        case error
        then show ?thesis using nx Inr s a failed
          by (subst stream_loop.simps, subst run_loop.simps) (simp add: stream_ends_like_prepend)
      next
        case finished
        then show ?thesis using nx Inr s a
          by (subst stream_loop.simps, subst run_loop.simps)
             (simp add: stream_ends_like_def prepend_events_def result_event_def plain_event_def)
      next
        case again
        have "max_model_rounds - ls_round_count st2 < max_model_rounds - ls_round_count st"
          using next_request_rounds nx Inr accept_response_rounds [OF a] by fastforce
        then have "stream_ends_like (stream_loop L g streamer (Suc n + length ts) st2 d1) (run_loop L g provider st2 d1)" by (rule less)
        then show ?thesis using nx Inr s a again
          by (subst stream_loop.simps, subst run_loop.simps) (simp add: stream_ends_like_prepend)
      qed
    qed
  qed
qed

lemma prompt_fits: "length (goal_json g) \<le> 19974 \<Longrightarrow> \<exists>inp. build_study_plan_prompt g = Inr inp"
  by (simp add: build_study_plan_prompt_def Let_def len_between_def max_prompt_input_characters_def)

text \<open>
  C26: Every event that the streaming driver yields obeys the event contract: tool events name a tool and no others do, only a
  ready result carries a plan, metrics come with terminal events only. The events are numbered from 1 without
  gaps. A stream that ends normally has exactly one terminal event, its last; one that ends with an exception has none,
  and that happens only when the goal does not fit the prompt or the clock runs backwards.
\<close>

theorem stream_events_well_formed:
  "case stream_agent L objective constraints provider d of ((es, failure), d') \<Rightarrow>
     map prog_sequence es = [1..<Suc (length es)] \<and> list_all progress_event_ok es \<and>
     (failure = None \<longrightarrow> terminal_event (last es) \<and> list_all (\<lambda>x. \<not> terminal_event x) (butlast es)) \<and>
     (failure \<noteq> None \<longrightarrow> list_all (\<lambda>x. \<not> terminal_event x) es \<and>
        (\<exists>g. planning_goal objective constraints = Inr g \<and> (19974 < length (goal_json g) \<or> lr_clock L 2 < lr_clock L 0)))"
proof -
  have start: "map prog_sequence [plain_event 0 RUN_STARTED] = [Suc 0..<Suc 0 + length [plain_event 0 RUN_STARTED]]"
      "list_all progress_event_ok [plain_event 0 RUN_STARTED]" "list_all (\<lambda>x. \<not> terminal_event x) [plain_event 0 RUN_STARTED]"
    by (simp_all add: plain_event_def progress_event_ok_def terminal_event_def)
  have "stream_shape 1 (fst (case planning_goal objective constraints of
      Inl _ \<Rightarrow> (failure_event 1 (Inr None), d) | Inr g \<Rightarrow> stream_loop L g provider 1 initial_loop d))"
  proof (cases "planning_goal objective constraints")
    case (Inl x)
    then show ?thesis
      by (simp add: failure_event_def stream_shape_def plain_event_def progress_event_ok_def terminal_event_def)
  next
    case (Inr g)
    then show ?thesis using stream_loop_shape [of 1] by simp
  qed
  then have "stream_shape 0 (fst (stream_agent L objective constraints provider d))"
    unfolding stream_agent_def using start by (intro stream_shape_prepend) simp_all
  moreover have "\<exists>g. planning_goal objective constraints = Inr g \<and> (19974 < length (goal_json g) \<or> lr_clock L 2 < lr_clock L 0)"
    if "snd (fst (stream_agent L objective constraints provider d)) \<noteq> None"
  proof (cases "planning_goal objective constraints")
    case (Inl x)
    then show ?thesis using that by (simp add: stream_agent_def prepend_events_def failure_event_def)
  next
    case (Inr g)
    have "snd (fst (stream_agent L objective constraints provider d)) = None"
      if ok: "length (goal_json g) \<le> 19974" "lr_clock L 0 \<le> lr_clock L 2"
    proof -
      obtain inp where p: "build_study_plan_prompt g = Inr inp" using prompt_fits [OF ok(1)] by blast
      have "streams_like provider (\<lambda>n q. stream_response (provider n q))" by (simp add: streams_like_def split: sum.split)
      from stream_loop_ends_like [OF this p ok(2), of 1 initial_loop d] show ?thesis
        using Inr by (simp add: stream_agent_def prepend_events_def stream_ends_like_def)
    qed
    then show ?thesis using Inr that by fastforce
  qed
  ultimately show ?thesis by (auto simp: stream_shape_def simp del: upt_Suc split: prod.splits option.splits)
qed

text \<open>
  C27: The streaming driver is the synchronous one with progress. When the streaming provider delivers the same responses, for a goal that
  fits the prompt, the stream ends with the plan and the metrics that the synchronous driver returns, or with a failure event
  exactly when that raises, and both leave the same database.
\<close>

theorem stream_matches_run:
  assumes "streams_like streamer provider" "lr_clock L 0 \<le> lr_clock L 2"
    and "\<And>g. planning_goal objective constraints = Inr g \<Longrightarrow> length (goal_json g) \<le> 19974"
  shows "stream_ends_like (stream_agent L objective constraints streamer d) (run_agent_execution L objective constraints provider d)"
proof (cases "planning_goal objective constraints")
  case (Inl x)
  then show ?thesis
    by (simp add: stream_agent_def run_agent_execution_def failure_event_def prepend_events_def stream_ends_like_def plain_event_def)
next
  case (Inr g)
  obtain inp where "build_study_plan_prompt g = Inr inp" using prompt_fits [OF assms(3) [OF Inr]] by blast
  from stream_loop_ends_like [OF assms(1) this assms(2)] show ?thesis
    using Inr by (simp add: stream_agent_def run_agent_execution_def stream_ends_like_prepend)
qed

section \<open>Goals that do not fit\<close>

text \<open>
  C28: A goal that the contract accepts may not fit the prompt, since escaping in JSON lengthens it. Then no driver fails safely: the planner and
  the synchronous driver raise the validation error of the prompt instead of a fixed planning error, and the
  stream, whose failure handler builds the prompt again, ends with that exception and without a terminal event. The model is never asked.
\<close>

theorem oversized_goal_escapes:
  assumes "planning_goal objective constraints = Inr g" and "19974 < length (goal_json g)"
  shows "run_agent_execution L objective constraints provider d = (Inl ValidationError, d) \<and>
    stream_agent L objective constraints streamer d = (([plain_event 0 RUN_STARTED], Some ValidationError), d) \<and>
    generate_study_plan parse model provider objective constraints = Inl ValidationError"
proof -
  have prompt: "build_study_plan_prompt g = Inl ValidationError"
    using assms(2) by (simp add: build_study_plan_prompt_def Let_def len_between_def max_prompt_input_characters_def)
  have nx: "next_request L g initial_loop = (Inl ValidationError, initial_loop\<lparr>ls_round_count := 1\<rparr>)"
    using prompt by (simp add: next_request_def initial_loop_def max_model_rounds_def Let_def loop_request_def)
  have "run_loop L g provider initial_loop d = (Inl ValidationError, d)" using nx by (subst run_loop.simps) simp
  moreover have "stream_loop L g streamer 1 initial_loop d = (([], Some ValidationError), d)"
    using nx prompt by (subst stream_loop.simps) (simp add: loop_failure_def loop_metrics_def failure_event_def)
  ultimately show ?thesis
    using assms(1) prompt
    by (simp add: run_agent_execution_def stream_agent_def prepend_events_def generate_study_plan_def)
qed

definition demo_loop :: loop_rules where
  "demo_loop = \<lparr>lr_pydantic = demo_rules_json, lr_gateway = demo_gateway, lr_context = demo_ctx, lr_model = ''m'',
     lr_result_text = (\<lambda>_. ''{}''), lr_loads = (\<lambda>_. J_obj []), lr_float_repr = (\<lambda>_. ''0''),
     lr_parse = (\<lambda>_. Some (proposal_result demo_proposal)), lr_clock = (\<lambda>_. 0)\<rparr>"

text \<open>A model that first asks for the projects and then answers.\<close>

definition demo_answer :: "nat \<Rightarrow> provider_response" where
  "demo_answer n = (if n = 1
     then \<lparr>resp_output_text = None, resp_tool_calls = [\<lparr>call_id = ''c1'', call_name = ''list_projects'', call_arguments = []\<rparr>],
           resp_usage = \<lparr>usage_input = None, usage_output = None, usage_total = None\<rparr>\<rparr>
     else \<lparr>resp_output_text = Some ''{}'', resp_tool_calls = [], resp_usage = \<lparr>usage_input = None, usage_output = None, usage_total = None\<rparr>\<rparr>)"

lemma demo_answer_ok: "validate_provider_response (demo_answer n) = Inr (demo_answer n)"
  by (simp add: demo_answer_def validate_provider_response_def provider_tool_call_ok_def len_between_def tool_name_format_def char_between_def
      provider_usage_ok_def)

lemma demo_loop_goal: "planning_goal ''Learn'' [] = Inr \<lparr>goal_objective = ''Learn'', goal_constraints = []\<rparr>"
  by (simp add: planning_goal_def bounded_text_def strip_def py_space_def)

lemma demo_loop_goal_fits: "length (goal_json \<lparr>goal_objective = ''Learn'', goal_constraints = []\<rparr>) \<le> 19974"
  by (simp add: goal_json_def json_string_def json_char_def)

theorem planning_loop_bounded_witness:
  "\<exists>inp. build_study_plan_prompt \<lparr>goal_objective = ''Learn'', goal_constraints = []\<rparr> = Inr inp \<and>
     (case run_agent_execution (demo_loop\<lparr>lr_gateway := agent_domain_gateway demo_env demo_rules (\<lambda>u q d. Inr [])\<rparr>) ''Learn'' []
        (\<lambda>n q. Inr (demo_answer n)) demo_tasks_db of (res, d') \<Rightarrow> wf_core d')"
proof -
  obtain inp where p: "build_study_plan_prompt \<lparr>goal_objective = ''Learn'', goal_constraints = []\<rparr> = Inr inp"
    using prompt_fits [OF demo_loop_goal_fits] by blast
  have "len_between 1 200 (lr_model demo_loop)" "lr_clock demo_loop 0 \<le> lr_clock demo_loop 1" by (simp_all add: demo_loop_def len_between_def)
  moreover have "validate_provider_response r = Inr r" if "(\<lambda>n q. Inr (demo_answer n)) (n :: nat) (q :: provider_request) = (Inr r :: provider_response result)" for n q r
    using that demo_answer_ok by auto
  ultimately show ?thesis
    using planning_loop_bounded [where provider = "\<lambda>n q. Inr (demo_answer n)" and L = demo_loop and e = demo_env and tr = demo_rules and
        search = "\<lambda>u q d. Inr []", OF demo_tasks_db_wf demo_loop_goal p] p by (auto split: prod.splits)
qed

theorem stream_events_well_formed_witness:
  "case stream_agent demo_loop ''Learn'' [] (\<lambda>n q. Inr ([Final_response (demo_answer n)], None)) demo_tasks_db of
     ((es, failure), d') \<Rightarrow> failure = None \<and> terminal_event (last es)"
proof -
  let ?p = "\<lambda>(n :: nat) (q :: provider_request). Inr ([Final_response (demo_answer n)], None :: exn option) :: (stream_chunk list \<times> exn option) result"
  have "\<not> (\<exists>g. planning_goal ''Learn'' [] = Inr g \<and> (19974 < length (goal_json g) \<or> lr_clock demo_loop 2 < lr_clock demo_loop 0))"
    using demo_loop_goal_fits by (simp add: demo_loop_goal not_less demo_loop_def)
  then show ?thesis
    using stream_events_well_formed [where L = demo_loop and objective = "''Learn''" and constraints = "[]" and provider = ?p and d = demo_tasks_db]
    by (auto simp del: upt_Suc split: prod.splits)
qed

theorem stream_matches_run_witness:
  "stream_ends_like (stream_agent demo_loop ''Learn'' [] (\<lambda>n q. Inr ([Final_response (demo_answer n)], None)) demo_tasks_db)
     (run_agent_execution demo_loop ''Learn'' [] (\<lambda>n q. Inr (demo_answer n)) demo_tasks_db)"
proof (rule stream_matches_run)
  show "streams_like (\<lambda>n q. Inr ([Final_response (demo_answer n)], None)) (\<lambda>n q. Inr (demo_answer n))"
    by (simp add: streams_like_def stream_response_def)
  show "lr_clock demo_loop 0 \<le> lr_clock demo_loop 2" by (simp add: demo_loop_def)
  show "length (goal_json g) \<le> 19974" if "planning_goal ''Learn'' [] = Inr g" for g
    using that demo_loop_goal_fits by (simp add: demo_loop_goal)
qed

text \<open>Twenty constraints of five hundred quotation marks.\<close>

definition quotes :: string where "quotes = replicate 500 CHR 0x22"

lemma quotes_goal: "planning_goal ''Learn'' (replicate 20 quotes) = Inr \<lparr>goal_objective = ''Learn'', goal_constraints = replicate 20 quotes\<rparr>"
proof -
  have "strip quotes = quotes" by (simp add: strip_def quotes_def dropWhile_replicate py_space_def rev_replicate)
  then have "bounded_text 500 quotes = Inr quotes" by (simp add: bounded_text_def quotes_def)
  then have "traverse (bounded_text 500) (replicate n quotes) = Inr (replicate n quotes)" for n by (induction n) simp_all
  then show ?thesis by (simp add: planning_goal_def bounded_text_def strip_def py_space_def)
qed

lemma quotes_goal_long: "19974 < length (goal_json \<lparr>goal_objective = ''Learn'', goal_constraints = replicate 20 quotes\<rparr>)"
proof -
  have "length (concat (map json_char (replicate n CHR 0x22))) = 2 * n" for n by (induction n) (simp_all add: json_char_def)
  then have "length (json_string quotes) = 1002" by (simp add: json_string_def quotes_def)
  moreover have "n * length s \<le> length (join_with '','' (replicate n s))" for n s
  proof (induction n)
    case (Suc n)
    then show ?case by (cases n) simp_all
  qed simp
  ultimately have "20 * 1002 \<le> length (join_with '','' (map json_string (replicate 20 quotes)))"
    by (metis map_replicate)
  then show ?thesis by (simp add: goal_json_def)
qed

theorem oversized_goal_escapes_witness:
  "run_agent_execution demo_loop ''Learn'' (replicate 20 quotes) (\<lambda>n q. Inr (demo_answer n)) demo_tasks_db = (Inl ValidationError, demo_tasks_db)"
  using oversized_goal_escapes [OF quotes_goal quotes_goal_long, of demo_loop "\<lambda>n q. Inr (demo_answer n)" demo_tasks_db] by simp

section \<open>Errors of the provider\<close>

definition provider_errors :: "exn set" where
  "provider_errors = {ProviderError, ProviderConfigurationError, ProviderAuthenticationError, ProviderPermissionError,
     ProviderTimeoutError, ProviderTransientError, ProviderInvalidResponseError}"

text \<open>
  The adapter of the model service hands out only normalised values: with a positive timeout, whatever the service answers or
  raises, the result is a response that the contract accepts, with text that is not blank or at least one tool call, or one of the
  seven provider errors; a timeout, an overload or a server error is always one of the retried kind.
\<close>

theorem provider_answers_normalized:
  assumes "0 < timeout" and "\<And>x. create q = Inl (Sdk_provider x) \<Longrightarrow> x \<in> provider_errors"
  shows "case openai_generate loads configured create q timeout of
      Inr r \<Rightarrow> validate_provider_response r = Inr r \<and> opt_all (\<lambda>t. strip t \<noteq> []) (resp_output_text r) \<and>
        (resp_output_text r \<noteq> None \<or> resp_tool_calls r \<noteq> [])
    | Inl x \<Rightarrow> x \<in> provider_errors \<and>
        (configured \<and> (create q \<in> {Inl Sdk_timeout, Inl Sdk_connection, Inl Sdk_rate_limit} \<or> (\<exists>n \<ge> 500. create q = Inl (Sdk_status n)))
         \<longrightarrow> x \<in> {ProviderTimeoutError, ProviderTransientError})"
proof -
  have calls: "x = ProviderInvalidResponseError" if "normalize_tool_calls loads items = Inl x" for items x
    using that
    by (induction loads items rule: normalize_tool_calls.induct)
       (auto simp: bind_result_eq_Inl Let_def split: option.splits json.splits raw_value.splits if_splits)
  have err: "x = ProviderInvalidResponseError" if "normalize_response loads raw = Inl x" for raw x
    using that calls by (auto simp: normalize_response_def Let_def bind_result_eq_Inl split: if_splits sum.splits)
  have ok: "validate_provider_response r = Inr r \<and> opt_all (\<lambda>t. strip t \<noteq> []) (resp_output_text r) \<and>
      (resp_output_text r \<noteq> None \<or> resp_tool_calls r \<noteq> [])" if "normalize_response loads raw = Inr r" for raw r
    using that
    by (auto simp: normalize_response_def Let_def bind_result_eq_Inr validate_provider_response_def opt_all_def
        split: if_splits sum.splits raw_value.splits option.splits)
  have norm: "normalized_provider_error e \<in> provider_errors" if "create q = Inl e" for e
    using that assms(2) by (cases e) (auto simp: provider_errors_def)
  show ?thesis
    using assms(1) ok err norm
    by (auto simp: openai_generate_def provider_errors_def split: sum.splits)
qed

theorem provider_answers_normalized_witness:
  "openai_generate (\<lambda>_. None) True (\<lambda>q. Inl (Sdk_status 503)) \<lparr>preq_model = ''m'', preq_prompt_version = ''v'', preq_input = ''i'', preq_tools = []\<rparr> 30
     \<in> {Inl ProviderTimeoutError, Inl ProviderTransientError}"
  using provider_answers_normalized [where timeout = 30 and create = "\<lambda>q. Inl (Sdk_status 503)" and loads = "\<lambda>_. None" and
      q = "\<lparr>preq_model = ''m'', preq_prompt_version = ''v'', preq_input = ''i'', preq_tools = []\<rparr>" and configured = True]
  by (auto simp: openai_generate_def)

end
