(* ===== verification/Floats.thy ===== *)
theory Floats
  imports Complex_Main
begin

text \<open>
  Python's numbers where the evaluation, the traces and the token times depend on how they round: doubles
  (\<open>double_of\<close>: nearest, ties to even, 53 bits), the decimal arithmetic of the \<open>decimal\<close> module (28 digits) with
  \<open>quantize\<close>, and the shortest decimal of a double that \<open>str\<close> prints. All are functions on exact rationals, without the
  limits of the exponent. The lemmas bound the error of a rounding, and show that integers below
  \<open>2 ^ 53\<close> are exact and never crossed.
\<close>

section \<open>Rounding to an integer\<close>

definition round_half_even :: "rat \<Rightarrow> int" where
  "round_half_even r =
     (let f = floor r; d = r - of_int f in
      if d < 1 / 2 then f else if 1 / 2 < d then f + 1 else if even f then f else f + 1)"

definition round_half_up :: "rat \<Rightarrow> int" where
  "round_half_up r = floor (r + 1 / 2)"

lemma round_half_even_of_int [simp]: "round_half_even (of_int n) = n"
  by (simp add: round_half_even_def)

lemma round_half_even_error: "\<bar>of_int (round_half_even r) - r\<bar> \<le> 1 / 2"
proof -
  have "of_int (floor r) \<le> r" "r < of_int (floor r) + 1" by linarith+
  then show ?thesis by (auto simp: round_half_even_def Let_def)
qed

lemma round_half_even_ge: "of_int n \<le> r \<Longrightarrow> n \<le> round_half_even r"
proof -
  assume "of_int n \<le> r"
  then have "n \<le> floor r" by linarith
  then show ?thesis by (auto simp: round_half_even_def Let_def)
qed

lemma round_half_even_le: "r \<le> of_int n \<Longrightarrow> round_half_even r \<le> n"
proof -
  assume r: "r \<le> of_int n"
  show ?thesis
  proof (cases "floor r < n")
    case True
    then show ?thesis by (auto simp: round_half_even_def Let_def)
  next
    case False
    then have "floor r = n" "r = of_int n" using r by linarith+
    then show ?thesis by simp
  qed
qed

section \<open>Rounding to significant digits\<close>

function digit_count :: "int \<Rightarrow> int \<Rightarrow> nat" where
  "digit_count B n = (if n \<le> 0 \<or> B \<le> 1 then 0 else Suc (digit_count B (n div B)))"
  by auto
termination by (relation "measure (\<lambda>(B, n). nat n)") (auto simp: int_div_less_self)

declare digit_count.simps [simp del]

text \<open>The exponent at which a positive number has \<open>D\<close> digits to the base \<open>B\<close>.\<close>

definition digit_exponent :: "nat \<Rightarrow> nat \<Rightarrow> rat \<Rightarrow> int" where
  "digit_exponent B D r =
     (case quotient_of r of (p, q) \<Rightarrow>
        let e = int (digit_count (int B) p) - int (digit_count (int B) q) - int D in
        if r / of_nat B powi e < of_nat B ^ D then e else e + 1)"

definition round_digits :: "(rat \<Rightarrow> int) \<Rightarrow> nat \<Rightarrow> nat \<Rightarrow> rat \<Rightarrow> rat" where
  "round_digits rnd B D r =
     (if r \<le> 0 then 0
      else let u = of_nat B powi digit_exponent B D r in of_int (rnd (r / u)) * u)"

text \<open>Doubles, here of numbers that are not negative.\<close>

definition double_of :: "rat \<Rightarrow> rat" where "double_of = round_digits round_half_even 2 53"

lemma digit_count_bounds: "0 < n \<Longrightarrow> 1 < B \<Longrightarrow> 0 < digit_count B n \<and> B ^ (digit_count B n - 1) \<le> n \<and> n < B ^ digit_count B n"
proof (induction B n rule: digit_count.induct)
  case (1 B n)
  show ?case
  proof (cases "n < B")
    case True
    then have "digit_count B n = 1" using 1(2,3) by (simp add: digit_count.simps [of B n] digit_count.simps [of B 0])
    then show ?thesis using True 1(2) by simp
  next
    case False
    then have "0 < n div B" using 1(3) by (simp add: pos_imp_zdiv_pos_iff)
    with 1 have IH: "0 < digit_count B (n div B)" "B ^ (digit_count B (n div B) - 1) \<le> n div B" "n div B < B ^ digit_count B (n div B)"
      by auto
    have "B ^ digit_count B (n div B) = B ^ (digit_count B (n div B) - 1) * B" using IH(1) by (simp add: power_eq_if)
    also have "\<dots> \<le> n div B * B" using IH(2) 1(3) by (intro mult_right_mono) simp_all
    also have "\<dots> \<le> n" using div_mult_mod_eq [of n B] pos_mod_sign [of B n] 1(3) by linarith
    finally have low: "B ^ digit_count B (n div B) \<le> n" .
    have "n < (n div B + 1) * B" using div_mult_mod_eq [of n B] pos_mod_bound [of B n] 1(3) unfolding distrib_right by linarith
    also have "\<dots> \<le> B ^ digit_count B (n div B) * B" using IH(3) 1(3) by (intro mult_right_mono) simp_all
    finally show ?thesis using low 1(2,3) by (simp add: digit_count.simps [of B n] mult.commute)
  qed
qed

lemma digit_count_powi:
  assumes "0 < n" "1 < B"
  shows "of_nat B powi (int (digit_count (int B) n) - 1) \<le> (of_int n :: rat)" "(of_int n :: rat) < of_nat B powi int (digit_count (int B) n)"
proof -
  let ?c = "digit_count (int B) n"
  have b: "0 < ?c" "int B ^ (?c - 1) \<le> n" "n < int B ^ ?c" using digit_count_bounds [of n "int B"] assms by simp_all
  have e: "int ?c - 1 = int (?c - 1)" using b(1) by simp
  have "rat_of_int (int B ^ (?c - 1)) \<le> of_int n" "rat_of_int n < of_int (int B ^ ?c)" using b(2,3) by (simp_all only: of_int_le_iff of_int_less_iff)
  then show "of_nat B powi (int ?c - 1) \<le> (of_int n :: rat)" "(of_int n :: rat) < of_nat B powi int ?c"
    unfolding e by simp_all
qed

lemma digit_exponent_bounds:
  assumes "0 < r" "1 < B"
  shows "of_nat B powi (digit_exponent B D r + int D - 1) \<le> r" (is ?lower)
    and "r < of_nat B powi (digit_exponent B D r + int D)" (is ?upper)
proof -
  obtain p q where pq: "quotient_of r = (p, q)" by (cases "quotient_of r")
  have q: "0 < q" and r: "r = of_int p / of_int q" using quotient_of_denom_pos [OF pq] quotient_of_div [OF pq] by auto
  have p: "0 < p" using assms(1) q unfolding r by (simp add: zero_less_divide_iff)
  define a b e where "a = int (digit_count (int B) p)" and "b = int (digit_count (int B) q)" and "e = a - b - int D"
  let ?B = "of_nat B :: rat"
  have B: "1 < ?B" "?B \<noteq> 0" using assms(2) by simp_all
  note pb = digit_count_powi [OF p assms(2)] and qb = digit_count_powi [OF q assms(2)]
  have "?B powi (a - 1 - b) = ?B powi (a - 1) / ?B powi b" using B(2) by (simp add: power_int_diff)
  also have "\<dots> \<le> r" unfolding r using pb qb p q by (intro frac_le) (simp_all add: a_def b_def)
  finally have low: "?B powi (e + int D - 1) \<le> r" by (simp add: e_def algebra_simps)
  have "r < ?B powi a / ?B powi (b - 1)" unfolding r using pb qb p B(1) by (intro frac_less) (simp_all add: a_def b_def)
  also have "\<dots> = ?B powi (a - (b - 1))" using B(2) by (simp add: power_int_diff)
  finally have up: "r < ?B powi (e + int D + 1)" by (simp add: e_def algebra_simps)
  have exponent: "digit_exponent B D r = (if r / ?B powi e < ?B ^ D then e else e + 1)"
    by (simp add: digit_exponent_def pq Let_def a_def b_def e_def)
  have split: "r / ?B powi e < ?B ^ D \<longleftrightarrow> r < ?B powi (e + int D)"
    using B by (simp add: divide_less_eq power_int_add mult.commute)
  show ?lower ?upper using low up unfolding exponent split by (auto simp: algebra_simps)
qed

lemma digit_scaled:
  assumes "0 < r" "1 < B" "0 < D"
  shows "of_nat B ^ (D - 1) \<le> r / of_nat B powi digit_exponent B D r" "r / of_nat B powi digit_exponent B D r < of_nat B ^ D"
proof -
  let ?B = "of_nat B :: rat" and ?e = "digit_exponent B D r"
  have B: "0 < ?B powi ?e" "?B \<noteq> 0" using assms(2) by (simp_all add: zero_less_power_int)
  have "?B powi (?e + int D - 1) = ?B powi ?e * ?B ^ (D - 1)" "?B powi (?e + int D) = ?B powi ?e * ?B ^ D"
    using B(2) assms(3) by (simp_all add: power_int_add power_int_diff power_eq_if)
  with digit_exponent_bounds [OF assms(1,2), of D] B(1)
  show "?B ^ (D - 1) \<le> r / ?B powi ?e" "r / ?B powi ?e < ?B ^ D" by (simp_all add: pos_le_divide_eq pos_divide_less_eq mult.commute)
qed

lemma round_digits_error:
  assumes "0 \<le> r" "1 < B" "0 < D"
  shows "\<bar>round_digits round_half_even B D r - r\<bar> \<le> r / (2 * of_nat B ^ (D - 1))"
proof (cases "r = 0")
  case False
  then have r: "0 < r" using assms(1) by simp
  let ?u = "of_nat B powi digit_exponent B D r :: rat" and ?m = "round_half_even (r / (of_nat B powi digit_exponent B D r))"
  have u: "0 < ?u" using assms(2) by (simp add: zero_less_power_int)
  have scaled: "of_nat B ^ (D - 1) \<le> r / ?u" using digit_scaled [OF r assms(2,3)] by simp
  have "round_digits round_half_even B D r - r = (of_int ?m - r / ?u) * ?u" using r u assms(2) by (simp add: round_digits_def Let_def left_diff_distrib)
  then have "\<bar>round_digits round_half_even B D r - r\<bar> \<le> ?u / 2"
    using mult_right_mono [OF round_half_even_error [of "r / ?u"], of ?u] u by (simp add: abs_mult)
  also have "\<dots> \<le> r / (2 * of_nat B ^ (D - 1))"
    using scaled u assms(2) by (simp add: pos_le_divide_eq field_simps)
  finally show ?thesis .
qed (simp add: round_digits_def)

lemma double_error: "0 \<le> r \<Longrightarrow> \<bar>double_of r - r\<bar> \<le> r / 2 ^ 53"
  using round_digits_error [of r 2 53] by (simp add: double_of_def)

lemma double_of_0 [simp]: "double_of 0 = 0"
  by (simp add: double_of_def round_digits_def)

lemma double_nonneg: "0 \<le> r \<Longrightarrow> 0 \<le> double_of r"
proof -
  assume "0 \<le> r"
  then have "r / 2 ^ 53 \<le> r" by simp
  with double_error [OF \<open>0 \<le> r\<close>] show ?thesis by linarith
qed

text \<open>An integer below \<open>2 ^ 53\<close> is at an exponent of at most zero a whole number of units.\<close>

lemma double_int_unit:
  assumes "0 < r" "r < 2 ^ 53"
  shows "\<exists>k. \<forall>n. of_int n / (2 powi digit_exponent 2 53 r :: rat) = of_int (n * 2 ^ k)"
proof -
  let ?e = "digit_exponent 2 53 r"
  have "(2::rat) powi (?e + 52) < 2 powi 53" using digit_exponent_bounds(1) [OF assms(1), of 2 53] assms(2) by (simp add: add.commute)
  then have "?e + 52 < 53" by (rule power_int_le_imp_less_exp [rotated]) simp_all
  then have e: "?e \<le> 0" by simp
  then have "(2::rat) powi ?e = inverse (2 ^ nat (- ?e))" by (simp add: power_int_def power_one_over inverse_eq_divide)
  then show ?thesis by (intro exI [of _ "nat (- ?e)"]) (simp add: divide_inverse)
qed

lemma double_ge_int:
  assumes "of_int n \<le> r" "0 < r" "n < 2 ^ 53"
  shows "of_int n \<le> double_of r"
proof (cases "r < 2 ^ 53")
  case True
  let ?u = "2 powi digit_exponent 2 53 r :: rat"
  have u: "0 < ?u" by (simp add: zero_less_power_int)
  obtain k where k: "\<forall>n. of_int n / ?u = of_int (n * 2 ^ k)" using double_int_unit [OF assms(2) True] by blast
  have "of_int n / ?u \<le> r / ?u" using assms(1) u by (simp add: divide_right_mono)
  then have "n * 2 ^ k \<le> round_half_even (r / ?u)" unfolding k [rule_format] by (rule round_half_even_ge)
  then have "of_int n / ?u \<le> of_int (round_half_even (r / ?u))" unfolding k [rule_format] by (rule of_int_le_iff [THEN iffD2])
  then show ?thesis using u assms(2) by (simp add: double_of_def round_digits_def Let_def pos_divide_le_eq)
next
  case False
  have "r / 2 ^ 53 \<ge> 0" using assms(2) by simp
  have "r - r / 2 ^ 53 \<le> double_of r" using double_error [of r] assms(2) by linarith
  moreover have "of_int n \<le> (2::rat) ^ 53 - 1" using assms(3) of_int_le_iff [of n "2 ^ 53 - 1", where 'a = rat] by simp
  moreover have "(2::rat) ^ 53 - 1 \<le> r - r / 2 ^ 53" using False by (simp add: field_simps)
  ultimately show ?thesis by linarith
qed

lemma double_le_int:
  assumes "r \<le> of_int n" "0 < r" "n < 2 ^ 53"
  shows "double_of r \<le> of_int n"
proof -
  let ?u = "2 powi digit_exponent 2 53 r :: rat"
  have "of_int n < (2::rat) ^ 53" using assms(3) of_int_less_iff [of n "2 ^ 53", where 'a = rat] by simp
  with assms(1) have "r < 2 ^ 53" by linarith
  then obtain k where k: "\<forall>n. of_int n / ?u = of_int (n * 2 ^ k)" using double_int_unit [OF assms(2)] by blast
  have u: "0 < ?u" by (simp add: zero_less_power_int)
  have "r / ?u \<le> of_int n / ?u" using assms(1) u by (simp add: divide_right_mono)
  then have "round_half_even (r / ?u) \<le> n * 2 ^ k" unfolding k [rule_format] by (rule round_half_even_le)
  then have "of_int (round_half_even (r / ?u)) \<le> of_int n / ?u" unfolding k [rule_format] by (rule of_int_le_iff [THEN iffD2])
  then show ?thesis using u assms(2) by (simp add: double_of_def round_digits_def Let_def pos_le_divide_eq)
qed

lemma double_of_int: "0 \<le> n \<Longrightarrow> n < 2 ^ 53 \<Longrightarrow> double_of (of_int n) = of_int n"
  using double_ge_int [of n "of_int n"] double_le_int [of "of_int n" n] by (cases "n = 0") auto

section \<open>Decimals\<close>

text \<open>\<open>Decimal(n) / Decimal(d)\<close> in the default context, and \<open>quantize(Decimal("0.000001"), rounding=ROUND_HALF_UP)\<close>.\<close>

definition decimal_div :: "nat \<Rightarrow> nat \<Rightarrow> rat" where
  "decimal_div n d = round_digits round_half_even 10 28 (of_nat n / of_nat d)"

definition quantize6 :: "rat \<Rightarrow> rat" where
  "quantize6 r = of_int (round_half_up (r * 1000000)) / 1000000"

text \<open>
  \<open>repr\<close> of a double: the decimal with the fewest digits that is read back as the double, and of those the nearest.
\<close>

definition reads_back :: "rat \<Rightarrow> nat \<Rightarrow> rat list" where
  "reads_back x k = filter (\<lambda>d. double_of d = x) [round_digits floor 10 k x, round_digits ceiling 10 k x]"

definition shortest_decimal :: "rat \<Rightarrow> rat" where
  "shortest_decimal x =
     (case List.find (\<lambda>ds. ds \<noteq> []) (map (reads_back x) [1..<18]) of
        Some [d, d'] \<Rightarrow> if x - d \<le> d' - x then d else d'
      | Some (d # _) \<Rightarrow> d
      | _ \<Rightarrow> round_digits round_half_even 10 17 x)"

text \<open>\<open>_rounded\<close> of a decimal and of a double.\<close>

definition rounded_decimal :: "rat \<Rightarrow> rat" where "rounded_decimal d = double_of (quantize6 d)"

definition rounded_float :: "rat \<Rightarrow> rat" where "rounded_float x = rounded_decimal (shortest_decimal x)"

lemma quantize6_error: "\<bar>quantize6 r - r\<bar> \<le> 1 / 2000000"
proof -
  have "\<bar>of_int (round_half_up (r * 1000000)) - r * 1000000\<bar> \<le> 1 / 2" unfolding round_half_up_def by linarith
  then show ?thesis by (simp add: quantize6_def abs_le_iff field_simps)
qed

lemma quantize6_nonneg: "0 \<le> r \<Longrightarrow> 0 \<le> quantize6 r"
  by (simp add: quantize6_def round_half_up_def)

lemma quantize6_le_int: "r \<le> of_int n \<Longrightarrow> quantize6 r \<le> of_int n"
proof -
  assume "r \<le> of_int n"
  then have "r * 1000000 + 1 / 2 < of_int (n * 1000000) + 1" by simp
  then have "floor (r * 1000000 + 1 / 2) \<le> n * 1000000" by linarith
  then have "rat_of_int (floor (r * 1000000 + 1 / 2)) \<le> of_int (n * 1000000)" by (simp only: of_int_le_iff)
  then show ?thesis by (simp add: quantize6_def round_half_up_def)
qed

lemma quantize6_ge_int: "of_int n \<le> r \<Longrightarrow> of_int n \<le> quantize6 r"
proof -
  assume "of_int n \<le> r"
  then have "of_int (n * 1000000) \<le> r * 1000000 + 1 / 2" by simp
  then have "n * 1000000 \<le> floor (r * 1000000 + 1 / 2)" by linarith
  then have "rat_of_int (n * 1000000) \<le> of_int (floor (r * 1000000 + 1 / 2))" by (simp only: of_int_le_iff)
  then show ?thesis by (simp add: quantize6_def round_half_up_def)
qed

lemma decimal_div_error: "\<bar>decimal_div n d - of_nat n / of_nat d\<bar> \<le> of_nat n / of_nat d / 10 ^ 27"
  using round_digits_error [of "of_nat n / of_nat d" 10 28] by (simp add: decimal_div_def field_simps)

lemma decimal_div_nonneg: "0 \<le> decimal_div n d"
proof -
  have "x / 10 ^ 27 \<le> x" if "0 \<le> x" for x :: rat using that by simp
  then have "(of_nat n / of_nat d :: rat) / 10 ^ 27 \<le> of_nat n / of_nat d" using divide_nonneg_nonneg of_nat_0_le_iff by blast
  with decimal_div_error [of n d] show ?thesis by linarith
qed

lemma decimal_div_0 [simp]: "decimal_div 0 d = 0"
  by (simp add: decimal_div_def round_digits_def)

lemma rounded_decimal_error: "0 \<le> d \<Longrightarrow> \<bar>rounded_decimal d - d\<bar> \<le> 1 / 1000000 + d / 2 ^ 52"
proof -
  assume d: "0 \<le> d"
  have "\<bar>double_of (quantize6 d) - quantize6 d\<bar> \<le> quantize6 d / 9007199254740992" using double_error [OF quantize6_nonneg [OF d]] by simp
  then have "\<bar>rounded_decimal d - d\<bar> \<le> 1 / 1000000 + d / 4503599627370496"
    unfolding rounded_decimal_def using quantize6_error [of d] d by linarith
  then show ?thesis by simp
qed

lemma round_digits_nonneg:
  assumes "\<And>y. 0 \<le> y \<Longrightarrow> 0 \<le> rnd y" "1 < B"
  shows "0 \<le> round_digits rnd B D r"
  using assms by (auto simp: round_digits_def Let_def zero_le_power_int intro!: mult_nonneg_nonneg divide_nonneg_nonneg)

lemma shortest_decimal_cases:
  obtains k where "shortest_decimal x \<in> set (reads_back x k)" | "shortest_decimal x = round_digits round_half_even 10 17 x"
proof (cases "List.find (\<lambda>ds. ds \<noteq> []) (map (reads_back x) [1..<18])")
  case (Some ds)
  then have "ds \<noteq> []" "ds \<in> set (map (reads_back x) [1..<18])" by (auto simp: find_Some_iff)
  then obtain k where k: "ds = reads_back x k" "ds \<noteq> []" by auto
  have "shortest_decimal x \<in> set ds"
    using Some k(2) by (auto simp: shortest_decimal_def split: list.split)
  then show ?thesis using k that(1) by blast
qed (simp add: shortest_decimal_def that(2))

lemma shortest_decimal_bounds:
  assumes "0 \<le> x" "x \<le> of_int n" "n \<le> 100000"
  shows "0 \<le> shortest_decimal x" "shortest_decimal x \<le> of_int n + 1 / 4000000"
proof -
  have x: "x \<le> 100000" using assms(2,3) of_int_le_iff [of n 100000, where 'a = rat] by simp
  have "0 \<le> shortest_decimal x \<and> shortest_decimal x \<le> of_int n + 1 / 4000000"
  proof (cases rule: shortest_decimal_cases [of x])
    case (1 k)
    let ?d = "shortest_decimal x"
    have d: "double_of ?d = x" and "?d \<in> set [round_digits floor 10 k x, round_digits ceiling 10 k x]"
      using 1 unfolding reads_back_def set_filter by blast+
    then have nn: "0 \<le> ?d" by (auto intro!: round_digits_nonneg)
    have "\<bar>x - ?d\<bar> \<le> ?d / 9007199254740992" using double_error [OF nn] d by simp
    then show ?thesis using nn x assms(2) by linarith
  next
    case 2
    have "\<bar>shortest_decimal x - x\<bar> \<le> x / 20000000000000000" using round_digits_error [of x 10 17] assms(1) by (simp add: 2)
    then show ?thesis using x assms(1,2) by linarith
  qed
  then show "0 \<le> shortest_decimal x" "shortest_decimal x \<le> of_int n + 1 / 4000000" by simp_all
qed

lemma rounded_float_bounds:
  assumes "0 \<le> x" "x \<le> of_int n" "n \<le> 100000"
  shows "0 \<le> rounded_float x" "rounded_float x \<le> of_int n"
proof -
  let ?d = "shortest_decimal x"
  note d = shortest_decimal_bounds [OF assms]
  show "0 \<le> rounded_float x" using double_nonneg [OF quantize6_nonneg [OF d(1)]] by (simp add: rounded_float_def rounded_decimal_def)
  have "?d * 1000000 + 1 / 2 < of_int (n * 1000000) + 1" using d(2) by simp
  then have "floor (?d * 1000000 + 1 / 2) \<le> n * 1000000" by linarith
  then have "rat_of_int (floor (?d * 1000000 + 1 / 2)) \<le> of_int (n * 1000000)" by (simp only: of_int_le_iff)
  then have q: "quantize6 ?d \<le> of_int n" by (simp add: quantize6_def round_half_up_def)
  show "rounded_float x \<le> of_int n"
  proof (cases "quantize6 ?d = 0")
    case True
    then show ?thesis using q by (simp add: rounded_float_def rounded_decimal_def)
  next
    case False
    then have "0 < quantize6 ?d" using quantize6_nonneg [OF d(1)] by simp
    then show ?thesis using double_le_int [OF q] assms(3) by (simp add: rounded_float_def rounded_decimal_def)
  qed
qed

end
