(* ===== verification/Http_Access.thy ===== *)
theory Http_Access
  imports Authentication Agent_Events Floats
begin

text \<open>
  The boundary in front of the endpoints: access tokens (\<open>app/core/tokens.py\<close>), the current user of a request
  (\<open>app/api/dependencies.py\<close>), the limit on upload bodies (\<open>app/middleware/request_body_limit.py\<close>) and the
  handler of validation errors (\<open>app/main.py\<close>). The JWT library is a parameter that gets the time of the
  check; an ASGI application is a tree of the messages it receives and sends, so that the wrapper of the
  middleware is a function on runs. The lemmas show what a token grants and for how long, that an upload cannot
  deliver more than the limit, and what a validation answer reflects.
\<close>

section \<open>Access tokens\<close>

definition access_token_type :: string where "access_token_type = ''access''"

record token_settings =
  set_secret :: "string option"
  set_ttl_minutes :: int
  set_issuer :: string
  set_audience :: string

record jwt_payload =
  pay_sub :: string
  pay_type :: string
  pay_iat :: instant
  pay_exp :: instant
  pay_iss :: string
  pay_aud :: string

text \<open>
  \<open>jwt.encode\<close>, and \<open>jwt.decode\<close> of a token with the secret, the issuer and the audience at a time; \<open>None\<close> is a
  \<open>PyJWTError\<close>. The decoded subject is a string, the other claims are JSON values. \<open>UUID(text)\<close> is the third. The last is
  what the platform raises for a number of seconds outside of the years 1 to 9999 (\<open>ValueError\<close>, or for huge numbers another exception).
\<close>

record jwt_claims =
  claim_sub :: string
  claim_type :: json
  claim_iat :: json
  claim_exp :: json

record jwt_library =
  jl_encode :: "jwt_payload \<Rightarrow> string \<Rightarrow> string"
  jl_decode :: "string \<Rightarrow> string \<Rightarrow> string \<Rightarrow> string \<Rightarrow> instant \<Rightarrow> jwt_claims option"
  jl_uuid :: "string \<Rightarrow> uuid option"
  jl_range_error :: "rat \<Rightarrow> exn"

record access_token_claims =
  at_subject :: uuid
  at_issued_at :: instant
  at_expires_at :: instant

definition get_signing_secret :: "token_settings \<Rightarrow> string result" where
  "get_signing_secret S = (case set_secret S of None \<Rightarrow> Inl AccessTokenConfigurationError | Some secret \<Rightarrow> Inr secret)"

definition minute :: int where "minute = 60000000"

definition create_access_token :: "jwt_library \<Rightarrow> token_settings \<Rightarrow> datetime \<Rightarrow> uuid \<Rightarrow> string result" where
  "create_access_token J S issued_at user_id =
     (case utc_instant issued_at of
        None \<Rightarrow> Inl ValueError
      | Some current_time \<Rightarrow>
          let expires_at = current_time + set_ttl_minutes S * minute;
              payload = \<lparr>pay_sub = uuid_text user_id, pay_type = access_token_type, pay_iat = current_time, pay_exp = expires_at,
                         pay_iss = set_issuer S, pay_aud = set_audience S\<rparr>
          in bind_result (get_signing_secret S) (\<lambda>secret. Inr (jl_encode J payload secret)))"

text \<open>
  \<open>datetime.fromtimestamp(value, tz=UTC)\<close>: any number, a truth value included, rounded to the nearest microsecond with ties to even.
\<close>

fun seconds_of :: "json \<Rightarrow> rat option" where
  "seconds_of (J_int n) = Some (of_int n)"
| "seconds_of (J_bool b) = Some (of_bool b)"
| "seconds_of (J_float r) = Some r"
| "seconds_of _ = None"

definition from_timestamp :: "(rat \<Rightarrow> exn) \<Rightarrow> json \<Rightarrow> instant result" where
  "from_timestamp range_error v =
     (case seconds_of v of
        None \<Rightarrow> Inl TypeError
      | Some r \<Rightarrow>
          let us = round_half_even (r * 1000000) in
          if - 62135596800000000 \<le> us \<and> us \<le> 253402300799999999 then Inr us else Inl (range_error r))"

definition validate_access_token :: "jwt_library \<Rightarrow> token_settings \<Rightarrow> instant \<Rightarrow> string \<Rightarrow> access_token_claims result" where
  "validate_access_token J S now token =
     bind_result (get_signing_secret S) (\<lambda>secret.
       case jl_decode J token secret (set_issuer S) (set_audience S) now of
         None \<Rightarrow> Inl AccessTokenError
       | Some payload \<Rightarrow>
           if claim_type payload \<noteq> J_str access_token_type then Inl AccessTokenError
           else (case jl_uuid J (claim_sub payload) of
                   None \<Rightarrow> Inl AccessTokenError
                 | Some subject \<Rightarrow>
                     (case bind_result (from_timestamp (jl_range_error J) (claim_iat payload)) (\<lambda>issued_at.
                             bind_result (from_timestamp (jl_range_error J) (claim_exp payload)) (\<lambda>expires_at.
                               Inr \<lparr>at_subject = subject, at_issued_at = issued_at, at_expires_at = expires_at\<rparr>)) of
                        Inl x \<Rightarrow> Inl (if x \<in> {KeyError, TypeError, ValueError} then AccessTokenError else x)
                      | Inr claims \<Rightarrow> Inr claims)))"

section \<open>The current user\<close>

text \<open>Bearer credentials as \<open>HTTPBearer(auto_error=False)\<close> hands them out: scheme and token.\<close>

type_synonym credentials = "(string \<times> string) option"

text \<open>\<open>HTTPException\<close> with its status and detail, \<open>RequestValidationError\<close>, and any other exception.\<close>

datatype http_error = Http_exception nat string | Invalid_request | Unhandled exn

definition authentication_error :: http_error where
  "authentication_error = Http_exception 401 ''Could not validate credentials''"

definition get_current_user :: "jwt_library \<Rightarrow> token_settings \<Rightarrow> instant \<Rightarrow> credentials \<Rightarrow> db \<Rightarrow> http_error + user" where
  "get_current_user J S now creds d =
     (case creds of
        None \<Rightarrow> Inl authentication_error
      | Some (scheme, token) \<Rightarrow>
          if casefold scheme \<noteq> ''bearer'' \<or> token = [] then Inl authentication_error
          else (case validate_access_token J S now token of
                  Inl x \<Rightarrow> if x = AccessTokenError then Inl authentication_error else Inl (Unhandled x)
                | Inr claims \<Rightarrow>
                    (case get_by_id (at_subject claims) d of
                       None \<Rightarrow> Inl authentication_error
                     | Some user \<Rightarrow> Inr user)))"

section \<open>The limit on upload bodies\<close>

datatype message = Http_request string bool | Http_disconnect

datatype response_event = Response_start nat | Response_body string

text \<open>
  An ASGI application: it returns, raises, sends an event, or receives, where the receiving call answers a message
  or raises an exception into the application.
\<close>

datatype asgi_app = Return | Raise exn | Send response_event asgi_app
  | Receive "message \<Rightarrow> asgi_app" "exn \<Rightarrow> asgi_app"

definition knowledge_upload_path :: string where "knowledge_upload_path = ''/api/v1/knowledge/documents''"
definition multipart_envelope_bytes :: nat where "multipart_envelope_bytes = 64 * 1024"

text \<open>What a run leaves: the messages delivered to the application, the events sent, and the exception that escaped.\<close>

record asgi_run =
  run_delivered :: "message list"
  run_sent :: "response_event list"
  run_raised :: "exn option"

text \<open>After the last message the server answers that the client is gone.\<close>

definition next_message :: "message list \<Rightarrow> message \<times> message list" where
  "next_message ms = (case ms of [] \<Rightarrow> (Http_disconnect, []) | m # ms' \<Rightarrow> (m, ms'))"

primrec run_app :: "asgi_app \<Rightarrow> message list \<Rightarrow> asgi_run" where
  "run_app Return ms = \<lparr>run_delivered = [], run_sent = [], run_raised = None\<rparr>"
| "run_app (Raise x) ms = \<lparr>run_delivered = [], run_sent = [], run_raised = Some x\<rparr>"
| "run_app (Send ev k) ms = (let r = run_app k ms in r\<lparr>run_sent := ev # run_sent r\<rparr>)"
| "run_app (Receive k h) ms =
     (case next_message ms of (m, ms') \<Rightarrow> let r = run_app (k m) ms' in r\<lparr>run_delivered := m # run_delivered r\<rparr>)"

fun body_bytes :: "message \<Rightarrow> nat" where
  "body_bytes (Http_request body more_body) = length body"
| "body_bytes Http_disconnect = 0"

fun is_request :: "message \<Rightarrow> bool" where
  "is_request (Http_request body more_body) = True"
| "is_request Http_disconnect = False"

text \<open>The application under \<open>limited_receive\<close>; \<open>received\<close> is the nonlocal counter.\<close>

primrec run_limited :: "asgi_app \<Rightarrow> nat \<Rightarrow> nat \<Rightarrow> message list \<Rightarrow> asgi_run" where
  "run_limited Return limit received ms = \<lparr>run_delivered = [], run_sent = [], run_raised = None\<rparr>"
| "run_limited (Raise x) limit received ms = \<lparr>run_delivered = [], run_sent = [], run_raised = Some x\<rparr>"
| "run_limited (Send ev k) limit received ms = (let r = run_limited k limit received ms in r\<lparr>run_sent := ev # run_sent r\<rparr>)"
| "run_limited (Receive k h) limit received ms =
     (case next_message ms of (m, ms') \<Rightarrow>
        let received' = received + body_bytes m in
        if is_request m \<and> received' > limit then run_limited (h RequestBodyLimitExceeded) limit received' ms'
        else let r = run_limited (k m) limit received' ms' in r\<lparr>run_delivered := m # run_delivered r\<rparr>)"

fun is_start :: "response_event \<Rightarrow> bool" where
  "is_start (Response_start code) = True"
| "is_start (Response_body body) = False"

definition too_large_detail :: string where "too_large_detail = ''Document exceeds the allowed size''"

definition send_too_large :: "response_event list" where
  "send_too_large = [Response_start 413, Response_body (''{\"detail\":\"'' @ too_large_detail @ ''\"}'')]"

definition lower_char :: "char \<Rightarrow> char" where
  "lower_char c = (let n = (of_char c :: nat) in if 65 \<le> n \<and> n \<le> 90 then char_of (n + 32) else c)"

definition upper_char :: "char \<Rightarrow> char" where
  "upper_char c = (let n = (of_char c :: nat) in if 97 \<le> n \<and> n \<le> 122 then char_of (n - 32) else c)"

text \<open>\<open>int(value)\<close>: an optional sign, then digits with single underscores between them.\<close>

definition ascii_space :: "char \<Rightarrow> bool" where
  "ascii_space c \<longleftrightarrow> (of_char c :: nat) \<in> {9, 10, 11, 12, 13, 32}"

definition bytes_strip :: "string \<Rightarrow> string" where
  "bytes_strip s = rev (dropWhile ascii_space (rev (dropWhile ascii_space s)))"

definition is_digit :: "char \<Rightarrow> bool" where
  "is_digit c \<longleftrightarrow> 48 \<le> (of_char c :: nat) \<and> (of_char c :: nat) \<le> 57"

definition int_of_bytes :: "string \<Rightarrow> int option" where
  "int_of_bytes s =
     (let t = bytes_strip s;
          (negative, digits) = (case t of c # cs \<Rightarrow> if c = CHR ''-'' then (True, cs) else if c = CHR ''+'' then (False, cs) else (False, t)
                                        | [] \<Rightarrow> (False, []));
          groups = split_on CHR ''_'' digits
      in if list_all (\<lambda>g. g \<noteq> [] \<and> list_all is_digit g) groups
         then Some (let n = int (digits_value (concat groups)) in if negative then - n else n) else None)"

definition trusted_content_length :: "(string \<times> string) list \<Rightarrow> int option" where
  "trusted_content_length headers =
     (case map (\<lambda>(_, v). bytes_strip v) (filter (\<lambda>(n, _). map lower_char n = ''content-length'') headers) of
        [v] \<Rightarrow> (case int_of_bytes v of Some n \<Rightarrow> if 0 \<le> n then Some n else None | None \<Rightarrow> None)
      | _ \<Rightarrow> None)"

record asgi_scope =
  scope_type :: string
  scope_method :: string
  scope_path :: string
  scope_headers :: "(string \<times> string) list"

definition limits_scope :: "asgi_scope \<Rightarrow> bool" where
  "limits_scope sc \<longleftrightarrow> scope_type sc = ''http'' \<and> map upper_char (scope_method sc) = ''POST'' \<and> scope_path sc = knowledge_upload_path"

definition upload_body_limit :: "asgi_app \<Rightarrow> nat \<Rightarrow> asgi_scope \<Rightarrow> message list \<Rightarrow> asgi_run" where
  "upload_body_limit app limit sc ms =
     (if \<not> limits_scope sc then run_app app ms
      else if (case trusted_content_length (scope_headers sc) of Some n \<Rightarrow> n > int limit | None \<Rightarrow> False)
      then \<lparr>run_delivered = [], run_sent = send_too_large, run_raised = None\<rparr>
      else
        let r = run_limited app limit 0 ms in
        if run_raised r = Some RequestBodyLimitExceeded \<and> \<not> list_ex is_start (run_sent r)
        then r\<lparr>run_sent := run_sent r @ send_too_large, run_raised := None\<rparr> else r)"

section \<open>Validation errors\<close>

datatype location = At_name string | At_index nat

record validation_error =
  err_loc :: "location list"
  err_type :: string
  err_msg :: string
  err_input :: json

definition masked_secret :: string where "masked_secret = ''**********''"

definition set_key :: "string \<Rightarrow> json \<Rightarrow> json_object \<Rightarrow> json_object" where
  "set_key k v obj = map (\<lambda>(k', v'). (k', if k' = k then v else v')) obj"

definition safe_validation_error :: "validation_error \<Rightarrow> validation_error" where
  "safe_validation_error err =
     (if At_name ''password'' \<in> set (err_loc err) then err\<lparr>err_input := J_str masked_secret\<rparr>
      else case err_input err of
             J_obj obj \<Rightarrow> if ''password'' \<in> fst ` set obj
                          then err\<lparr>err_input := J_obj (set_key ''password'' (J_str masked_secret) obj)\<rparr> else err
           | _ \<Rightarrow> err)"

definition safe_validation_errors :: "validation_error list \<Rightarrow> validation_error list" where
  "safe_validation_errors errs = map safe_validation_error errs"

definition auth_credential_paths :: "string list" where
  "auth_credential_paths = [''/api/v1/auth/login'', ''/api/v1/auth/refresh'', ''/api/v1/auth/logout'', ''/api/v1/users/me/change-password'']"

definition allowed_error_fields :: "string list" where
  "allowed_error_fields = [''email'', ''password'', ''refresh_token'', ''current_password'', ''new_password'']"

text \<open>What the detail of the answer lists: for a credential path only locations, otherwise the masked errors.\<close>

datatype validation_detail = Credential_detail "string list" | Error_detail validation_error

definition credential_detail :: "validation_error \<Rightarrow> validation_detail" where
  "credential_detail err =
     Credential_detail (''body'' #
       (case err_loc err of
          [_, At_name f] \<Rightarrow> if f \<in> set allowed_error_fields then [f] else []
        | _ \<Rightarrow> []))"

definition request_validation_exception_handler :: "string \<Rightarrow> validation_error list \<Rightarrow> nat \<times> validation_detail list" where
  "request_validation_exception_handler path errs =
     (if path \<in> set auth_credential_paths then (422, map credential_detail (take 3 errs))
      else (422, map Error_detail (safe_validation_errors errs)))"

section \<open>What a token grants\<close>

text \<open>
  The documented behaviour of the library: times are encoded as whole seconds, a token that was encoded with the
  secret is decoded for its issuer and audience from its time of issue until it expires, and \<open>UUID\<close> reads what
  \<open>str\<close> prints.
\<close>

definition whole_seconds :: "instant \<Rightarrow> int" where "whole_seconds t = t div 1000000"

definition jwt_roundtrip :: "jwt_library \<Rightarrow> bool" where
  "jwt_roundtrip J \<longleftrightarrow>
     (\<forall>p secret iss aud now. jl_decode J (jl_encode J p secret) secret iss aud now =
        (if iss = pay_iss p \<and> aud = pay_aud p \<and> whole_seconds (pay_iat p) * 1000000 \<le> now \<and> now < whole_seconds (pay_exp p) * 1000000
         then Some \<lparr>claim_sub = pay_sub p, claim_type = J_str (pay_type p), claim_iat = J_int (whole_seconds (pay_iat p)),
                    claim_exp = J_int (whole_seconds (pay_exp p))\<rparr>
         else None)) \<and>
     (\<forall>u < 2 ^ 128. jl_uuid J (uuid_text u) = Some u) \<and> (\<forall>p secret. jl_encode J p secret \<noteq> [])"

text \<open>Times that \<open>datetime\<close> can represent, with the lifetime of the token.\<close>

definition timestamp_range :: "token_settings \<Rightarrow> instant \<Rightarrow> bool" where
  "timestamp_range S t \<longleftrightarrow> 0 \<le> t \<and> 0 \<le> set_ttl_minutes S \<and> t + set_ttl_minutes S * minute \<le> 253402300799000000"

lemma from_timestamp_int:
  "- 62135596800 \<le> n \<Longrightarrow> n \<le> 253402300799 \<Longrightarrow> from_timestamp range_error (J_int n) = Inr (n * 1000000)"
proof -
  have "round_half_even (rat_of_int n * 1000000) = n * 1000000" for n
    using round_half_even_of_int [of "n * 1000000"] by simp
  then show "- 62135596800 \<le> n \<Longrightarrow> n \<le> 253402300799 \<Longrightarrow> from_timestamp range_error (J_int n) = Inr (n * 1000000)"
    by (simp add: from_timestamp_def)
qed

lemma from_timestamp_whole:
  assumes "0 \<le> t" "t \<le> 253402300799000000"
  shows "from_timestamp range_error (J_int (whole_seconds t)) = Inr (whole_seconds t * 1000000)"
proof -
  have "whole_seconds t \<le> 253402300799000000 div 1000000" unfolding whole_seconds_def using assms(2) by (intro zdiv_mono1) simp_all
  moreover have "0 \<le> whole_seconds t" unfolding whole_seconds_def using assms(1) by simp
  ultimately show ?thesis by (intro from_timestamp_int) simp_all
qed

lemma created_token_decodes:
  assumes "jwt_roundtrip J" "create_access_token J S issued_at u = Inr token" "utc_instant issued_at = Some t" "set_secret S = Some secret"
  shows "jl_decode J token secret iss aud now =
    (if iss = set_issuer S \<and> aud = set_audience S \<and> whole_seconds t * 1000000 \<le> now \<and>
        now < whole_seconds (t + set_ttl_minutes S * minute) * 1000000
     then Some \<lparr>claim_sub = uuid_text u, claim_type = J_str access_token_type, claim_iat = J_int (whole_seconds t),
                claim_exp = J_int (whole_seconds (t + set_ttl_minutes S * minute))\<rparr>
     else None)"
  using assms by (auto simp: create_access_token_def get_signing_secret_def jwt_roundtrip_def Let_def)

lemma created_token_validates:
  assumes "jwt_roundtrip J" "u < 2 ^ 128" "utc_instant issued_at = Some t" "timestamp_range S t"
    and "create_access_token J S issued_at u = Inr token"
  shows "validate_access_token J S now token =
      (if whole_seconds t * 1000000 \<le> now \<and> now < whole_seconds (t + set_ttl_minutes S * minute) * 1000000
       then Inr \<lparr>at_subject = u, at_issued_at = whole_seconds t * 1000000,
                 at_expires_at = whole_seconds (t + set_ttl_minutes S * minute) * 1000000\<rparr>
       else Inl AccessTokenError)"
proof -
  obtain secret where secret: "set_secret S = Some secret"
    using assms(3,5) by (auto simp: create_access_token_def get_signing_secret_def Let_def split: option.splits)
  note decode = created_token_decodes [OF assms(1,5,3) secret]
  have uuid: "jl_uuid J (uuid_text u) = Some u" using assms(1,2) by (auto simp: jwt_roundtrip_def)
  have "0 \<le> set_ttl_minutes S * minute" using assms(4) by (simp add: timestamp_range_def minute_def)
  then have times: "from_timestamp (jl_range_error J) (J_int (whole_seconds t)) = Inr (whole_seconds t * 1000000)"
      "from_timestamp (jl_range_error J) (J_int (whole_seconds (t + set_ttl_minutes S * minute))) = Inr (whole_seconds (t + set_ttl_minutes S * minute) * 1000000)"
    using assms(4) by (auto simp: timestamp_range_def intro!: from_timestamp_whole)
  then show ?thesis
    by (auto simp: validate_access_token_def get_signing_secret_def secret decode uuid)
qed

lemma created_token_foreign:
  assumes "jwt_roundtrip J" "utc_instant issued_at = Some t" "create_access_token J S issued_at u = Inr token"
    and "set_secret S' = set_secret S" "set_issuer S' \<noteq> set_issuer S \<or> set_audience S' \<noteq> set_audience S"
  shows "validate_access_token J S' now token = Inl AccessTokenError"
proof -
  obtain secret where secret: "set_secret S = Some secret"
    using assms(2,3) by (auto simp: create_access_token_def get_signing_secret_def Let_def split: option.splits)
  show ?thesis using assms(4,5) created_token_decodes [OF assms(1,3,2) secret]
    by (auto simp: validate_access_token_def get_signing_secret_def secret)
qed

text \<open>
  C31: An access token identifies its user from the second of its issue until its lifetime is over, and nobody before or after: validation
  answers the user with the times rounded to whole seconds, and refuses with the one access token error otherwise. A service
  configured for another issuer or audience refuses it always, also with the same secret.
\<close>

theorem access_token_lifetime:
  assumes "jwt_roundtrip J" "u < 2 ^ 128" "utc_instant issued_at = Some t" "timestamp_range S t"
    and "create_access_token J S issued_at u = Inr token"
  shows "validate_access_token J S now token =
      (if whole_seconds t * 1000000 \<le> now \<and> now < whole_seconds (t + set_ttl_minutes S * minute) * 1000000
       then Inr \<lparr>at_subject = u, at_issued_at = whole_seconds t * 1000000,
                 at_expires_at = whole_seconds (t + set_ttl_minutes S * minute) * 1000000\<rparr>
       else Inl AccessTokenError) \<and>
    (\<forall>S'. set_secret S' = set_secret S \<and> (set_issuer S' \<noteq> set_issuer S \<or> set_audience S' \<noteq> set_audience S) \<longrightarrow>
       validate_access_token J S' now token = Inl AccessTokenError)"
  using created_token_validates [OF assms] created_token_foreign [OF assms(1,3,5)] by blast

section \<open>What an upload delivers\<close>

lemma run_limited_bounded: "received + (\<Sum>m\<leftarrow>run_delivered (run_limited app limit received ms). body_bytes m) \<le> max limit received"
proof (induction app arbitrary: received ms)
  case (Receive k h)
  obtain m ms' where m: "next_message ms = (m, ms')" by force
  show ?case
  proof (cases "is_request m \<and> limit < received + body_bytes m")
    case True
    have "received + body_bytes m + (\<Sum>m\<leftarrow>run_delivered (run_limited (h RequestBodyLimitExceeded) limit (received + body_bytes m) ms'). body_bytes m)
        \<le> max limit (received + body_bytes m)"
      by (rule Receive.IH(2)) (rule rangeI)
    with True have "(\<Sum>m\<leftarrow>run_delivered (run_limited (h RequestBodyLimitExceeded) limit (received + body_bytes m) ms'). body_bytes m) = 0"
      by linarith
    then have "(\<Sum>m\<leftarrow>run_delivered (run_limited (Receive k h) limit received ms). body_bytes m) = 0" using True m by simp
    then show ?thesis by linarith
  next
    case False
    have "received + body_bytes m + (\<Sum>m\<leftarrow>run_delivered (run_limited (k m) limit (received + body_bytes m) ms'). body_bytes m)
        \<le> max limit (received + body_bytes m)"
      by (rule Receive.IH(1)) (rule rangeI)
    with False m show ?thesis by (cases m) (auto simp: Let_def)
  qed
qed (auto simp: Let_def)

lemma run_limited_transparent:
  "received + (\<Sum>m\<leftarrow>ms. body_bytes m) \<le> limit \<Longrightarrow> run_limited app limit received ms = run_app app ms"
proof (induction app arbitrary: received ms)
  case (Receive k h)
  obtain m ms' where m: "next_message ms = (m, ms')" by force
  then have "received + body_bytes m + (\<Sum>m\<leftarrow>ms'. body_bytes m) \<le> limit"
    using Receive.prems by (auto simp: next_message_def split: list.splits)
  with Receive.IH(1) [OF rangeI this, of m] m show ?case by (simp add: Let_def)
qed (auto simp: Let_def)

text \<open>An application that lets the exceptions of \<open>receive\<close> pass.\<close>

inductive propagates :: "asgi_app \<Rightarrow> bool" where
  "propagates Return"
| "propagates (Raise x)"
| "propagates k \<Longrightarrow> propagates (Send ev k)"
| "(\<And>m. propagates (k m)) \<Longrightarrow> propagates (Receive k Raise)"

inductive_cases propagates_SendE: "propagates (Send ev k)"
inductive_cases propagates_ReceiveE: "propagates (Receive k h)"

lemma run_limited_raises:
  "propagates app \<Longrightarrow> limit < received + (\<Sum>m\<leftarrow>run_delivered (run_app app ms). body_bytes m) \<Longrightarrow> received \<le> limit \<Longrightarrow>
   run_raised (run_limited app limit received ms) = Some RequestBodyLimitExceeded"
proof (induction app arbitrary: received ms)
  case (Send ev k)
  then show ?case by (auto simp: Let_def elim: propagates_SendE)
next
  case (Receive k h)
  obtain m ms' where m: "next_message ms = (m, ms')" by force
  from Receive.prems(1) have h: "h = Raise" and k: "propagates (k m)" by (auto elim: propagates_ReceiveE)
  show ?case
  proof (cases "is_request m \<and> limit < received + body_bytes m")
    case True
    with m h show ?thesis by simp
  next
    case False
    then have "received + body_bytes m \<le> limit" using Receive.prems(3) by (cases m) auto
    with Receive.IH(1) [OF rangeI k, of "received + body_bytes m" ms'] Receive.prems(2) m False show ?thesis
      by (auto simp: Let_def)
  qed
qed auto


section \<open>What a validation answer reflects\<close>

text \<open>
  On the credential paths the answer to an invalid request carries no submitted value. Elsewhere the password of a submitted object
  is masked. A password anywhere deeper is reflected, for example in the answer to a registration whose body is a list.
\<close>

theorem validation_answers_passwords:
  "(path \<in> set auth_credential_paths \<longrightarrow>
      (\<forall>x \<in> set (snd (request_validation_exception_handler path errs)). \<exists>fs. x = Credential_detail fs \<and> set fs \<subseteq> set (''body'' # allowed_error_fields))) \<and>
   (\<forall>err obj v. err_input (safe_validation_error err) = J_obj obj \<and> (''password'', v) \<in> set obj \<longrightarrow> v = J_str masked_secret) \<and>
   request_validation_exception_handler ''/api/v1/auth/register''
     [\<lparr>err_loc = [At_name ''body''], err_type = t, err_msg = msg, err_input = J_list [J_obj [(''password'', J_str secret)]]\<rparr>] =
     (422, [Error_detail \<lparr>err_loc = [At_name ''body''], err_type = t, err_msg = msg, err_input = J_list [J_obj [(''password'', J_str secret)]]\<rparr>])"
proof (intro conjI impI allI)
  show "\<forall>x \<in> set (snd (request_validation_exception_handler path errs)). \<exists>fs. x = Credential_detail fs \<and> set fs \<subseteq> set (''body'' # allowed_error_fields)"
    if "path \<in> set auth_credential_paths"
    using that by (fastforce simp: request_validation_exception_handler_def credential_detail_def split: list.split location.split dest: in_set_takeD)
  show "v = J_str masked_secret" if "err_input (safe_validation_error err) = J_obj obj \<and> (''password'', v) \<in> set obj" for err obj v
    using that by (force simp: safe_validation_error_def set_key_def split: if_splits json.splits)
qed (simp add: request_validation_exception_handler_def auth_credential_paths_def safe_validation_errors_def safe_validation_error_def)

section \<open>Concrete inputs\<close>

text \<open>A library that writes the secret and the claims one after another, each preceded by its length.\<close>

definition put_field :: "string \<Rightarrow> string" where "put_field s = replicate (length s) CHR ''1'' @ CHR ''0'' # s"

definition get_field :: "string \<Rightarrow> string \<times> string" where
  "get_field t = (let n = length (takeWhile (\<lambda>c. c = CHR ''1'') t) in (take n (drop (Suc n) t), drop n (drop (Suc n) t)))"

definition int_text :: "int \<Rightarrow> string" where
  "int_text i = (if i < 0 then CHR ''-'' else CHR ''+'') # replicate (nat \<bar>i\<bar>) CHR ''1''"

definition get_int :: "string \<Rightarrow> int" where
  "get_int s = (case s of [] \<Rightarrow> 0 | c # cs \<Rightarrow> if c = CHR ''-'' then - int (length cs) else int (length cs))"

lemma get_put_field: "get_field (put_field s @ rest) = (s, rest)"
proof -
  have "takeWhile (\<lambda>c. c = CHR ''1'') (replicate n CHR ''1'' @ CHR ''0'' # t) = replicate n CHR ''1''" for n t
    by (induction n) auto
  then show ?thesis by (simp add: get_field_def put_field_def Let_def)
qed

lemma get_int_text: "get_int (int_text i) = i"
  by (simp add: int_text_def get_int_def)

definition hex_value :: "char \<Rightarrow> nat" where
  "hex_value c = (let n = of_char c in if n < 58 then n - 48 else n - 87)"

definition parse_uuid :: "string \<Rightarrow> uuid" where
  "parse_uuid s = foldl (\<lambda>a x. a * 16 + x) 0 (map hex_value (filter (\<lambda>c. c \<noteq> CHR ''-'') s))"

definition demo_jwt :: jwt_library where
  "demo_jwt = \<lparr>
     jl_encode = \<lambda>p secret. put_field secret @ put_field (pay_sub p) @ put_field (pay_type p) @ put_field (int_text (whole_seconds (pay_iat p))) @
       put_field (int_text (whole_seconds (pay_exp p))) @ put_field (pay_iss p) @ put_field (pay_aud p),
     jl_decode = \<lambda>token secret iss aud now.
       (case get_field token of (secret', t1) \<Rightarrow> case get_field t1 of (sub, t2) \<Rightarrow> case get_field t2 of (ty, t3) \<Rightarrow>
        case get_field t3 of (iat, t4) \<Rightarrow> case get_field t4 of (until, t5) \<Rightarrow> case get_field t5 of (iss', t6) \<Rightarrow>
        case get_field t6 of (aud', _) \<Rightarrow>
          if secret' = secret \<and> iss = iss' \<and> aud = aud' \<and> get_int iat * 1000000 \<le> now \<and> now < get_int until * 1000000
          then Some \<lparr>claim_sub = sub, claim_type = J_str ty, claim_iat = J_int (get_int iat), claim_exp = J_int (get_int until)\<rparr>
          else None),
     jl_uuid = \<lambda>s. Some (parse_uuid s),
     jl_range_error = \<lambda>_. ValueError\<rparr>"

lemma hex_value_digit: "n < 16 \<Longrightarrow> hex_value (hex_digit n) = n"
proof -
  assume "n < 16"
  then have "n \<in> set [0..<16]" by simp
  then show ?thesis by (auto simp: upt_rec hex_value_def hex_digit_def)
qed

lemma hex_digit_no_dash: "n < 16 \<Longrightarrow> CHR ''-'' \<noteq> hex_digit n"
proof
  assume "n < 16" and "CHR ''-'' = hex_digit n"
  then have "(of_char CHR ''-'' :: nat) = of_char (hex_digit n)" and "n \<in> set [0..<16]" by simp_all
  then show False by (auto simp: upt_rec hex_digit_def)
qed

lemma digits_value_16: "foldl (\<lambda>a x. a * 16 + x) 0 (map (\<lambda>i. u div 16 ^ (n - i) mod 16) [0..<Suc n]) = u mod 16 ^ Suc n" for u :: nat
proof (induction n arbitrary: u)
  case (Suc n)
  have shift: "map (\<lambda>i. u div 16 ^ (Suc n - i) mod 16) [0..<Suc n] = map (\<lambda>i. u div 16 div 16 ^ (n - i) mod 16) [0..<Suc n]"
    by (rule map_cong [OF refl]) (auto simp: Suc_diff_le div_mult2_eq less_Suc_eq)
  have "[0..<Suc (Suc n)] = [0..<Suc n] @ [Suc n]" by simp
  then have "foldl (\<lambda>a x. a * 16 + x) 0 (map (\<lambda>i. u div 16 ^ (Suc n - i) mod 16) [0..<Suc (Suc n)]) =
      foldl (\<lambda>a x. a * 16 + x) 0 (map (\<lambda>i. u div 16 ^ (Suc n - i) mod 16) [0..<Suc n]) * 16 + u mod 16"
    by (simp del: upt_Suc)
  also have "\<dots> = (u div 16 mod 16 ^ Suc n) * 16 + u mod 16" unfolding shift Suc.IH ..
  also have "\<dots> = u mod 16 ^ Suc (Suc n)" by (simp add: mod_mult2_eq [of u 16 "16 ^ Suc n", simplified])
  finally show ?case .
qed simp

lemma uuid_groups: "take 8 h @ take 4 (drop 8 h) @ take 4 (drop 12 h) @ take 4 (drop 16 h) @ drop 20 h = h"
proof -
  have d: "drop 20 h = drop 4 (drop 16 h)" "drop 16 h = drop 4 (drop 12 h)" "drop 12 h = drop 4 (drop 8 h)" by simp_all
  show ?thesis unfolding d(1) append_take_drop_id d(2) append_take_drop_id d(3) append_take_drop_id ..
qed

lemma parse_uuid_text: "u < 2 ^ 128 \<Longrightarrow> parse_uuid (uuid_text u) = u"
proof -
  assume u: "u < 2 ^ 128"
  let ?h = "map (\<lambda>i. hex_digit (u div 16 ^ (31 - i) mod 16)) [0..<32]"
  have dash: "CHR ''-'' \<notin> set ?h" using hex_digit_no_dash [OF mod_less_divisor [of 16]] by (auto simp del: upt_rec_numeral)
  have plain: "filter (\<lambda>c. c \<noteq> CHR ''-'') xs = xs" if "set xs \<subseteq> set ?h" for xs
    using that dash by (force simp: filter_id_conv simp del: set_map)
  have parts: "filter (\<lambda>c. c \<noteq> CHR ''-'') (take n ?h) = take n ?h" "filter (\<lambda>c. c \<noteq> CHR ''-'') (take m (drop n ?h)) = take m (drop n ?h)"
    "filter (\<lambda>c. c \<noteq> CHR ''-'') (drop n ?h) = drop n ?h" for m n
    by (rule plain, meson order_trans set_take_subset set_drop_subset)+
  have "filter (\<lambda>c. c \<noteq> CHR ''-'') (uuid_text u) = take 8 ?h @ take 4 (drop 8 ?h) @ take 4 (drop 12 ?h) @ take 4 (drop 16 ?h) @ drop 20 ?h"
    unfolding uuid_text_def Let_def by (simp add: parts del: upt_rec_numeral)
  also have "\<dots> = ?h" by (rule uuid_groups)
  finally have "parse_uuid (uuid_text u) = foldl (\<lambda>a x. a * 16 + x) 0 (map (\<lambda>i. u div 16 ^ (31 - i) mod 16) [0..<Suc 31])"
    by (simp add: parse_uuid_def o_def hex_value_digit del: upt_Suc upt_rec_numeral)
  also have "\<dots> = u mod 16 ^ Suc 31" by (rule digits_value_16)
  finally show ?thesis using u by simp
qed

lemma put_field_nonempty: "put_field s \<noteq> []"
  by (simp add: put_field_def)

lemma demo_jwt_roundtrip: "jwt_roundtrip demo_jwt"
  by (simp add: put_field_nonempty jwt_roundtrip_def demo_jwt_def get_put_field get_put_field [of _ "[]", simplified] get_int_text parse_uuid_text)

definition demo_settings :: token_settings where
  "demo_settings = \<lparr>set_secret = Some ''secret'', set_ttl_minutes = 15, set_issuer = ''fastapi-stms'', set_audience = ''fastapi-stms-api''\<rparr>"

lemma demo_token:
  "create_access_token demo_jwt demo_settings (Aware 1000000 0) 7 = Inr (jl_encode demo_jwt \<lparr>pay_sub = uuid_text 7, pay_type = ''access'',
     pay_iat = 1000000, pay_exp = 901000000, pay_iss = ''fastapi-stms'', pay_aud = ''fastapi-stms-api''\<rparr> ''secret'')"
  by (simp add: create_access_token_def demo_settings_def get_signing_secret_def minute_def access_token_type_def)

theorem access_token_lifetime_witness:
  "\<exists>token. create_access_token demo_jwt demo_settings (Aware 1000000 0) 7 = Inr token \<and>
     validate_access_token demo_jwt demo_settings 900999999 token = Inr \<lparr>at_subject = 7, at_issued_at = 1000000, at_expires_at = 901000000\<rparr> \<and>
     validate_access_token demo_jwt demo_settings 901000000 token = Inl AccessTokenError"
proof -
  have "timestamp_range demo_settings 1000000" by (simp add: timestamp_range_def demo_settings_def minute_def)
  note access_token_lifetime [OF demo_jwt_roundtrip, of 7 "Aware 1000000 0" 1000000 demo_settings, OF _ _ this demo_token, simplified]
  then show ?thesis using demo_token
    by (simp add: whole_seconds_def demo_settings_def minute_def)
qed

definition demo_reader :: asgi_app where
  "demo_reader = Receive (\<lambda>_. Receive (\<lambda>_. Send (Response_start 201) Return) Raise) Raise"

definition demo_scope :: asgi_scope where
  "demo_scope = \<lparr>scope_type = ''http'', scope_method = ''POST'', scope_path = knowledge_upload_path, scope_headers = []\<rparr>"

lemma demo_scope_limited: "limits_scope demo_scope"
  by (simp add: limits_scope_def demo_scope_def upper_char_def)


definition demo_validation_error :: validation_error where
  "demo_validation_error = \<lparr>err_loc = [At_name ''body'', At_name ''password''], err_type = ''missing'', err_msg = ''Field required'',
     err_input = J_str ''hunter2''\<rparr>"

theorem validation_answers_passwords_witness:
  "\<exists>fs. snd (request_validation_exception_handler ''/api/v1/auth/login'' [demo_validation_error]) = [Credential_detail fs]"
proof -
  obtain x where x: "snd (request_validation_exception_handler ''/api/v1/auth/login'' [demo_validation_error]) = [x]"
    by (simp add: request_validation_exception_handler_def auth_credential_paths_def)
  have "''/api/v1/auth/login'' \<in> set auth_credential_paths" by (simp add: auth_credential_paths_def)
  with validation_answers_passwords [of "''/api/v1/auth/login''" "[demo_validation_error]" "[]" "[]" "[]"] x show ?thesis
    by auto
qed

end
