(* ===== verification/Configuration.thy ===== *)
theory Configuration
  imports Complex_Main Errors
begin

text \<open>
  The settings of the service (\<open>app/core/config.py\<close>) and the lifecycle of the checkpoint saver that is opened from
  them (\<open>app/agent/checkpointing.py\<close>). The environment is given as a record of raw values; the URL parser
  of SQLAlchemy and the saver of LangGraph are parameters, and a run of the context manager records what was
  opened and closed. The lemmas show what validated settings guarantee to the token and
  checkpoint code, and that a saver that was opened is closed exactly once, whatever fails.
\<close>

section \<open>Settings\<close>

definition postgresql_driver :: string where "postgresql_driver = ''postgresql+psycopg''"
definition min_access_token_secret_length :: nat where "min_access_token_secret_length = 32"
definition min_access_token_ttl_minutes :: int where "min_access_token_ttl_minutes = 1"
definition max_access_token_ttl_minutes :: int where "max_access_token_ttl_minutes = 60"
definition max_model_provider_length :: nat where "max_model_provider_length = 100"
definition max_model_name_length :: nat where "max_model_name_length = 200"

text \<open>The double that the literal \<open>0.1\<close> denotes.\<close>

definition min_embedding_timeout_seconds :: rat where "min_embedding_timeout_seconds = 3602879701896397 / 36028797018963968"
definition max_embedding_timeout_seconds :: rat where "max_embedding_timeout_seconds = 120"

datatype app_environment = DEVELOPMENT | TEST | PRODUCTION

text \<open>Secrets are their values; a float is its exact value, \<open>None\<close> for infinities and not-a-number.\<close>

record settings =
  st_app_name :: string
  st_env :: app_environment
  st_debug :: bool
  st_api_docs_enabled :: bool
  st_database_url :: "string option"
  st_access_token_secret :: "string option"
  st_access_token_ttl_minutes :: int
  st_access_token_issuer :: string
  st_access_token_audience :: string
  st_model_provider :: "string option"
  st_model_name :: "string option"
  st_embedding_model :: "string option"
  st_embedding_timeout_seconds :: "rat option"
  st_model_api_key :: "string option"

definition default_settings :: settings where
  "default_settings = \<lparr>st_app_name = ''FastAPI STMS'', st_env = DEVELOPMENT, st_debug = False, st_api_docs_enabled = True,
     st_database_url = None, st_access_token_secret = None, st_access_token_ttl_minutes = 15,
     st_access_token_issuer = ''fastapi-stms'', st_access_token_audience = ''fastapi-stms-api'',
     st_model_provider = None, st_model_name = None, st_embedding_model = None,
     st_embedding_timeout_seconds = Some 30, st_model_api_key = None\<rparr>"

text \<open>What \<open>make_url\<close> reads from a URL; the last component stands for user, password and query.\<close>

record parsed_url =
  url_drivername :: string
  url_host :: "string option"
  url_port :: "int option"
  url_database :: "string option"
  url_rest :: string

record url_library =
  make_url :: "string \<Rightarrow> parsed_url option"
  render_as_string :: "parsed_url \<Rightarrow> string"

definition blank_error :: "nat \<Rightarrow> string option \<Rightarrow> string option result" where
  "blank_error limit v =
     (case v of
        None \<Rightarrow> Inr None
      | Some s \<Rightarrow>
          let normalized = strip s in
          if normalized = [] then Inl ValueError
          else if limit < length normalized then Inl ValueError
          else Inr (Some normalized))"

definition validate_model_provider :: "string option \<Rightarrow> string option result" where
  "validate_model_provider = blank_error max_model_provider_length"

definition validate_model_name :: "string option \<Rightarrow> string option result" where
  "validate_model_name = blank_error max_model_name_length"

definition validate_embedding_timeout :: "rat option \<Rightarrow> rat option result" where
  "validate_embedding_timeout v =
     (case v of
        None \<Rightarrow> Inl ValueError
      | Some t \<Rightarrow>
          if \<not> (min_embedding_timeout_seconds \<le> t \<and> t \<le> max_embedding_timeout_seconds) then Inl ValueError
          else Inr (Some t))"

definition validate_model_api_key :: "string option \<Rightarrow> string option result" where
  "validate_model_api_key v =
     (case v of None \<Rightarrow> Inr None | Some s \<Rightarrow> if strip s = [] then Inl ValueError else Inr (Some s))"

definition validate_access_token_secret :: "string option \<Rightarrow> string option result" where
  "validate_access_token_secret v =
     (case v of
        None \<Rightarrow> Inr None
      | Some s \<Rightarrow> if length s < min_access_token_secret_length then Inl ValueError else Inr (Some s))"

definition validate_access_token_ttl :: "int \<Rightarrow> int result" where
  "validate_access_token_ttl v =
     (if \<not> (min_access_token_ttl_minutes \<le> v \<and> v \<le> max_access_token_ttl_minutes) then Inl ValueError else Inr v)"

definition validate_access_token_identity :: "string \<Rightarrow> string result" where
  "validate_access_token_identity v = (if strip v = [] then Inl ValueError else Inr v)"

definition url_prefix :: string where "url_prefix = postgresql_driver @ ''://''"

text \<open>\<open>not parsed.host\<close>: absent or empty.\<close>

definition falsy :: "string option \<Rightarrow> bool" where
  "falsy v \<longleftrightarrow> v = None \<or> v = Some []"

definition validate_database_url :: "url_library \<Rightarrow> string option \<Rightarrow> string option result" where
  "validate_database_url U v =
     (case v of
        None \<Rightarrow> Inr None
      | Some raw_url \<Rightarrow>
          if take (length url_prefix) raw_url \<noteq> url_prefix then Inl ValueError
          else (case make_url U raw_url of
                  None \<Rightarrow> Inl ValueError
                | Some parsed \<Rightarrow>
                    if (case url_port parsed of None \<Rightarrow> False | Some port \<Rightarrow> \<not> (1 \<le> port \<and> port \<le> 65535)) then Inl ValueError
                    else if url_drivername parsed \<noteq> postgresql_driver then Inl ValueError
                    else if falsy (url_host parsed) \<or> falsy (url_database parsed) then Inl ValueError
                    else Inr v))"

text \<open>Pydantic runs every validator, defaults included, and raises one \<open>ValidationError\<close> for all failures.\<close>

definition validate_settings :: "url_library \<Rightarrow> settings \<Rightarrow> settings result" where
  "validate_settings U raw =
     (case bind_result (validate_database_url U (st_database_url raw)) (\<lambda>database_url.
           bind_result (validate_access_token_secret (st_access_token_secret raw)) (\<lambda>secret.
           bind_result (validate_access_token_ttl (st_access_token_ttl_minutes raw)) (\<lambda>ttl.
           bind_result (validate_access_token_identity (st_access_token_issuer raw)) (\<lambda>iss.
           bind_result (validate_access_token_identity (st_access_token_audience raw)) (\<lambda>aud.
           bind_result (validate_model_provider (st_model_provider raw)) (\<lambda>provider.
           bind_result (validate_model_name (st_model_name raw)) (\<lambda>name.
           bind_result (validate_model_name (st_embedding_model raw)) (\<lambda>embedding.
           bind_result (validate_embedding_timeout (st_embedding_timeout_seconds raw)) (\<lambda>timeout.
           bind_result (validate_model_api_key (st_model_api_key raw)) (\<lambda>key.
             Inr (raw\<lparr>st_database_url := database_url, st_access_token_secret := secret, st_access_token_ttl_minutes := ttl,
                      st_access_token_issuer := iss, st_access_token_audience := aud, st_model_provider := provider,
                      st_model_name := name, st_embedding_model := embedding, st_embedding_timeout_seconds := timeout,
                      st_model_api_key := key\<rparr>))))))))))) of
        Inl _ \<Rightarrow> Inl ValidationError
      | Inr s \<Rightarrow> Inr s)"

section \<open>The checkpoint saver\<close>

definition to_psycopg_conninfo :: "url_library \<Rightarrow> string \<Rightarrow> string result" where
  "to_psycopg_conninfo U raw_url =
     (case make_url U raw_url of
        None \<Rightarrow> Inl AgentCheckpointConfigurationError
      | Some parsed \<Rightarrow>
          if url_drivername parsed \<noteq> postgresql_driver \<or> falsy (url_host parsed) \<or> falsy (url_database parsed)
          then Inl AgentCheckpointConfigurationError
          else Inr (render_as_string U (parsed\<lparr>url_drivername := ''postgresql''\<rparr>)))"

text \<open>What the saver factory does: entering, setting up and closing may each raise.\<close>

record saver_faults =
  enter_raises :: "string \<Rightarrow> exn option"
  setup_raises :: "exn option"
  close_raises :: "exn option"

datatype saver_event = Saver_opened | Saver_set_up | Saver_used | Saver_closed

text \<open>
  The context manager around a body. \<open>ExitStack.close\<close> closes what was entered, and the closing counts as done when it raises.
\<close>

definition open_postgres_checkpointer ::
  "url_library \<Rightarrow> string option \<Rightarrow> string option \<Rightarrow> bool \<Rightarrow> saver_faults \<Rightarrow> 'a result \<Rightarrow> 'a result \<times> saver_event list" where
  "open_postgres_checkpointer U settings_url database_url set_up F body =
     (case (if falsy database_url then settings_url else database_url) of
        None \<Rightarrow> (Inl AgentCheckpointConfigurationError, [])
      | Some url \<Rightarrow>
          (case to_psycopg_conninfo U url of
             Inl x \<Rightarrow> (Inl x, [])
           | Inr conninfo \<Rightarrow>
               (case enter_raises F conninfo of
                  Some x \<Rightarrow> (Inl (if x = AgentCheckpointConfigurationError then x else AgentCheckpointUnavailableError), [])
                | None \<Rightarrow>
                    (case (if set_up then setup_raises F else None) of
                       Some x \<Rightarrow>
                         (case close_raises F of
                            Some y \<Rightarrow> (Inl y, [Saver_opened, Saver_set_up, Saver_closed])
                          | None \<Rightarrow> (Inl (if x = AgentCheckpointConfigurationError then x else AgentCheckpointUnavailableError),
                                     [Saver_opened, Saver_set_up, Saver_closed]))
                     | None \<Rightarrow>
                         (case close_raises F of
                            Some y \<Rightarrow> Inl AgentCheckpointUnavailableError
                          | None \<Rightarrow> body,
                          Saver_opened # (if set_up then [Saver_set_up] else []) @ [Saver_used, Saver_closed])))))"

section \<open>What validated settings guarantee\<close>

definition bounded_name :: "nat \<Rightarrow> string option \<Rightarrow> bool" where
  "bounded_name n v \<longleftrightarrow> (\<forall>m. v = Some m \<longrightarrow> strip m = m \<and> 0 < length m \<and> length m \<le> n)"

definition url_ok :: "url_library \<Rightarrow> string option \<Rightarrow> bool" where
  "url_ok U v \<longleftrightarrow> (\<forall>url. v = Some url \<longrightarrow>
     (\<exists>p. make_url U url = Some p \<and> url_drivername p = postgresql_driver \<and> \<not> falsy (url_host p) \<and> \<not> falsy (url_database p)))"

definition settings_ok :: "url_library \<Rightarrow> settings \<Rightarrow> bool" where
  "settings_ok U s \<longleftrightarrow> url_ok U (st_database_url s) \<and>
     (\<forall>secret. st_access_token_secret s = Some secret \<longrightarrow> 32 \<le> length secret) \<and> st_access_token_ttl_minutes s \<in> {1..60} \<and>
     strip (st_access_token_issuer s) \<noteq> [] \<and> strip (st_access_token_audience s) \<noteq> [] \<and>
     (\<exists>t. st_embedding_timeout_seconds s = Some t \<and> min_embedding_timeout_seconds \<le> t \<and> t \<le> 120) \<and>
     (\<forall>k. st_model_api_key s = Some k \<longrightarrow> strip k \<noteq> []) \<and>
     bounded_name 100 (st_model_provider s) \<and> bounded_name 200 (st_model_name s) \<and> bounded_name 200 (st_embedding_model s)"

lemmas limit_defs = min_access_token_secret_length_def min_access_token_ttl_minutes_def max_access_token_ttl_minutes_def
  max_model_provider_length_def max_model_name_length_def max_embedding_timeout_seconds_def

lemma blank_error_Inr: "blank_error n v = Inr w \<Longrightarrow> blank_error n w = Inr w \<and> bounded_name n w"
  by (auto simp: blank_error_def bounded_name_def Let_def split: option.splits if_splits)

named_theorems validator_iff \<open>when a validator of one setting answers\<close>

lemma validate_embedding_timeout_iff [validator_iff]:
  "validate_embedding_timeout v = Inr w \<longleftrightarrow> w = v \<and> (\<exists>t. v = Some t \<and> min_embedding_timeout_seconds \<le> t \<and> t \<le> 120)"
  by (auto simp: validate_embedding_timeout_def limit_defs split: option.splits)

lemma validate_model_api_key_iff [validator_iff]: "validate_model_api_key v = Inr w \<longleftrightarrow> w = v \<and> (\<forall>k. v = Some k \<longrightarrow> strip k \<noteq> [])"
  by (auto simp: validate_model_api_key_def split: option.splits)

lemma validate_access_token_secret_iff [validator_iff]:
  "validate_access_token_secret v = Inr w \<longleftrightarrow> w = v \<and> (\<forall>secret. v = Some secret \<longrightarrow> 32 \<le> length secret)"
  by (auto simp: validate_access_token_secret_def limit_defs split: option.splits)

lemma validate_access_token_ttl_iff [validator_iff]: "validate_access_token_ttl v = Inr w \<longleftrightarrow> w = v \<and> v \<in> {1..60}"
  by (auto simp: validate_access_token_ttl_def limit_defs)

lemma validate_access_token_identity_iff [validator_iff]: "validate_access_token_identity v = Inr w \<longleftrightarrow> w = v \<and> strip v \<noteq> []"
  by (auto simp: validate_access_token_identity_def)

lemma validate_database_url_Inr: "validate_database_url U v = Inr w \<Longrightarrow> w = v \<and> url_ok U v"
  by (auto simp: validate_database_url_def url_ok_def split: option.splits if_splits)

lemma validate_settings_Inr:
  "validate_settings U raw = Inr s \<longleftrightarrow>
     validate_database_url U (st_database_url raw) = Inr (st_database_url raw) \<and>
     (\<forall>secret. st_access_token_secret raw = Some secret \<longrightarrow> 32 \<le> length secret) \<and> st_access_token_ttl_minutes raw \<in> {1..60} \<and>
     strip (st_access_token_issuer raw) \<noteq> [] \<and> strip (st_access_token_audience raw) \<noteq> [] \<and>
     (\<exists>t. st_embedding_timeout_seconds raw = Some t \<and> min_embedding_timeout_seconds \<le> t \<and> t \<le> 120) \<and>
     (\<forall>k. st_model_api_key raw = Some k \<longrightarrow> strip k \<noteq> []) \<and>
     (\<exists>provider name embedding. validate_model_provider (st_model_provider raw) = Inr provider \<and>
        validate_model_name (st_model_name raw) = Inr name \<and> validate_model_name (st_embedding_model raw) = Inr embedding \<and>
        s = raw\<lparr>st_model_provider := provider, st_model_name := name, st_embedding_model := embedding\<rparr>)"
proof -
  have pass: "(case r of Inl _ \<Rightarrow> Inl ValidationError | Inr x \<Rightarrow> Inr x) = Inr s \<longleftrightarrow> r = Inr s" for r :: "settings result"
    by (cases r) auto
  have url: "(\<exists>w. validate_database_url U v = Inr w \<and> P w) \<longleftrightarrow> validate_database_url U v = Inr v \<and> P v" for v P
    using validate_database_url_Inr [of U v] by auto
  have same: "raw\<lparr>st_database_url := st_database_url raw, st_access_token_secret := st_access_token_secret raw,
      st_access_token_ttl_minutes := st_access_token_ttl_minutes raw, st_access_token_issuer := st_access_token_issuer raw,
      st_access_token_audience := st_access_token_audience raw, st_model_provider := p,
      st_model_name := n, st_embedding_model := m, st_embedding_timeout_seconds := st_embedding_timeout_seconds raw,
      st_model_api_key := st_model_api_key raw\<rparr> = raw\<lparr>st_model_provider := p, st_model_name := n, st_embedding_model := m\<rparr>" for p n m
    by simp
  show ?thesis
    unfolding validate_settings_def pass bind_result_eq_Inr validator_iff url
    by (simp add: same) blast
qed

lemma validated_settings:
  assumes "validate_settings U raw = Inr s"
  shows "settings_ok U s" "validate_settings U s = Inr s"
proof -
  from assms obtain p n m where names: "validate_model_provider (st_model_provider raw) = Inr p" "validate_model_name (st_model_name raw) = Inr n"
      "validate_model_name (st_embedding_model raw) = Inr m"
    and s: "s = raw\<lparr>st_model_provider := p, st_model_name := n, st_embedding_model := m\<rparr>"
    by (auto simp: validate_settings_Inr)
  have again: "validate_model_provider p = Inr p \<and> bounded_name 100 p" "validate_model_name n = Inr n \<and> bounded_name 200 n"
      "validate_model_name m = Inr m \<and> bounded_name 200 m"
    using names blank_error_Inr by (auto simp: validate_model_provider_def validate_model_name_def limit_defs)
  show "validate_settings U s = Inr s"
    using assms again unfolding validate_settings_Inr s by simp
  have "url_ok U (st_database_url raw)" using assms validate_database_url_Inr unfolding validate_settings_Inr by blast
  then show "settings_ok U s"
    using assms again unfolding validate_settings_Inr settings_ok_def s by simp
qed

lemma validated_url_connects:
  assumes "validate_settings U raw = Inr s" "st_database_url s = Some url"
  shows "\<exists>conninfo. to_psycopg_conninfo U url = Inr conninfo"
  using validated_settings(1) [OF assms(1)] assms(2) by (auto simp: settings_ok_def url_ok_def to_psycopg_conninfo_def)

text \<open>
  C34: Settings that passed validation keep their promises: tokens live between one minute and one hour and are signed with at least 32
  characters, names are stripped, bounded and not blank, embedding calls are bounded, and the database URL can be turned into
  a connection string, so that opening the checkpoint saver is a configuration error only when no URL is configured.
  Validating them again changes nothing, and the defaults are valid.
\<close>

theorem validated_settings_sound:
  assumes "validate_settings U raw = Inr s"
  shows "settings_ok U s \<and> validate_settings U s = Inr s \<and> validate_settings U default_settings = Inr default_settings \<and>
    (\<forall>url F set_up body. st_database_url s = Some url \<and> enter_raises F = (\<lambda>_. None) \<and> setup_raises F = None \<and> close_raises F = None \<longrightarrow>
       fst (open_postgres_checkpointer U (st_database_url s) None set_up F body) = body)"
proof (intro conjI allI impI)
  show "validate_settings U default_settings = Inr default_settings"
    by (simp add: validate_settings_def default_settings_def validate_database_url_def validate_access_token_secret_def validate_access_token_ttl_def
        validate_access_token_identity_def validate_model_provider_def validate_model_name_def blank_error_def validate_embedding_timeout_def
        validate_model_api_key_def limit_defs min_embedding_timeout_seconds_def strip_def py_space_def)
next
  fix url and F :: saver_faults and set_up and body :: "'a result"
  assume "st_database_url s = Some url \<and> enter_raises F = (\<lambda>_. None) \<and> setup_raises F = None \<and> close_raises F = None"
  then show "fst (open_postgres_checkpointer U (st_database_url s) None set_up F body) = body"
    using validated_url_connects [OF assms] by (auto simp: open_postgres_checkpointer_def falsy_def)
qed (rule validated_settings [OF assms])+

definition demo_urls :: url_library where
  "demo_urls = \<lparr>make_url = (\<lambda>s. Some \<lparr>url_drivername = takeWhile (\<lambda>c. c \<noteq> CHR '':'') s, url_host = Some ''db'', url_port = Some 5432,
     url_database = Some ''stms'', url_rest = []\<rparr>), render_as_string = (\<lambda>u. url_drivername u @ ''://db:5432/stms'')\<rparr>"

definition demo_raw_settings :: settings where
  "demo_raw_settings = default_settings\<lparr>st_database_url := Some ''postgresql+psycopg://db/stms'', st_model_name := Some '' gpt ''\<rparr>"

definition demo_faults :: "exn option \<Rightarrow> exn option \<Rightarrow> saver_faults" where
  "demo_faults x y = \<lparr>enter_raises = (\<lambda>_. None), setup_raises = x, close_raises = y\<rparr>"

lemma demo_settings_validated: "validate_settings demo_urls demo_raw_settings = Inr (demo_raw_settings\<lparr>st_model_name := Some ''gpt''\<rparr>)"
  by code_simp

theorem validated_settings_sound_witness:
  "settings_ok demo_urls (demo_raw_settings\<lparr>st_model_name := Some ''gpt''\<rparr>) \<and>
   fst (open_postgres_checkpointer demo_urls (st_database_url demo_raw_settings) None True (demo_faults None None) (Inr (7::nat))) = Inr 7"
  using validated_settings_sound [where 'a = nat, OF demo_settings_validated]
  by (auto simp: demo_raw_settings_def demo_faults_def)

section \<open>The saver is always closed\<close>

lemma conninfo_error: "to_psycopg_conninfo U url = Inl x \<Longrightarrow> x = AgentCheckpointConfigurationError"
  by (auto simp: to_psycopg_conninfo_def split: option.splits if_splits)

text \<open>
  A saver that was opened is closed exactly once, after everything else, whether setting it up, the body or the closing itself fails, and
  a saver that was not opened is neither set up nor used. Everything that goes wrong before the body runs is reported
  as a configuration or an availability error of the checkpoint store, with one exception: when setting up fails and then closing fails
  as well, the exception of the database driver leaves the boundary as it is.
\<close>

theorem checkpointer_closed_once:
  "let r = open_postgres_checkpointer U settings_url url set_up F body; es = snd r in
   (es = [] \<or> (hd es = Saver_opened \<and> last es = Saver_closed \<and> count_list es Saver_opened = 1 \<and> count_list es Saver_closed = 1)) \<and>
   (Saver_used \<notin> set es \<longrightarrow>
      fst r \<in> {Inl AgentCheckpointConfigurationError, Inl AgentCheckpointUnavailableError} \<or>
      (set_up \<and> setup_raises F \<noteq> None \<and> (\<exists>y. close_raises F = Some y \<and> fst r = Inl y))) \<and>
   (Saver_used \<in> set es \<longrightarrow> fst r = (if close_raises F = None then body else Inl AgentCheckpointUnavailableError)) \<and>
   (set_up \<and> Saver_set_up \<in> set es \<and> setup_raises F \<noteq> None \<and> close_raises F = Some DatabaseError \<longrightarrow> fst r = Inl DatabaseError)"
proof (cases "if falsy url then settings_url else url")
  case (Some chosen)
  show ?thesis
  proof (cases "to_psycopg_conninfo U chosen")
    case (Inl x)
    then show ?thesis using Some conninfo_error [OF Inl] by (simp add: open_postgres_checkpointer_def Let_def)
  next
    case (Inr conninfo)
    show ?thesis
      using Some Inr
      by (cases "enter_raises F conninfo"; cases "setup_raises F"; cases "close_raises F"; cases set_up)
        (simp_all add: open_postgres_checkpointer_def Let_def)
  qed
qed (simp add: open_postgres_checkpointer_def)

theorem checkpointer_closed_once_witness:
  "fst (open_postgres_checkpointer demo_urls (st_database_url demo_raw_settings) None True (demo_faults (Some RuntimeError) (Some DatabaseError)) (Inr ())) =
     Inl DatabaseError \<and>
   fst (open_postgres_checkpointer demo_urls (st_database_url demo_raw_settings) None True (demo_faults (Some RuntimeError) None) (Inr ())) \<in>
     {Inl AgentCheckpointConfigurationError, Inl AgentCheckpointUnavailableError}"
proof -
  have conn: "to_psycopg_conninfo demo_urls ''postgresql+psycopg://db/stms'' = Inr ''postgresql://db:5432/stms''" by code_simp
  have "snd (open_postgres_checkpointer demo_urls (st_database_url demo_raw_settings) None True (demo_faults (Some RuntimeError) y) (Inr ())) =
      [Saver_opened, Saver_set_up, Saver_closed]" for y
    using conn by (cases y) (simp_all add: open_postgres_checkpointer_def falsy_def demo_faults_def demo_raw_settings_def)
  then show ?thesis
    using checkpointer_closed_once [of demo_urls "st_database_url demo_raw_settings" None True "demo_faults (Some RuntimeError) (Some DatabaseError)" "Inr ()"]
      checkpointer_closed_once [of demo_urls "st_database_url demo_raw_settings" None True "demo_faults (Some RuntimeError) None" "Inr ()"]
    by (simp add: Let_def demo_faults_def)
qed

end
