(* ===== verification/Tracing.thy ===== *)
theory Tracing
  imports Floats Errors
begin

text \<open>
  The traces of \<open>app/agent/tracing.py\<close>: the contract of an event, spans, and the isolation of failing sinks and
  clocks. A sink is a state with an emit function that may raise after it changed the state; a clock reading
  may raise as well, and an exception is \<open>None\<close>. Every function is total and returns the state of the
  sink only, so that tracing has no exception of its own to give. The lemmas show what can reach a sink.
\<close>

section \<open>Events\<close>

definition max_trace_attempts :: int where "max_trace_attempts = 16"
definition max_trace_tool_calls :: int where "max_trace_tool_calls = 100"
definition max_trace_tokens :: int where "max_trace_tokens = 1000000000"
definition max_trace_latency_ms :: rat where "max_trace_latency_ms = 86400000"

datatype trace_component = RUN | NODE | TOOL | PROVIDER
datatype trace_phase = STARTED | FINISHED | FAILED
datatype trace_outcome = OUTCOME_SUCCEEDED | OUTCOME_FAILED

datatype trace_error_code = AGENT_ANALYSIS_FAILED | AGENT_CONTEXT_FAILED | AGENT_PLANNING_FAILED | AGENT_APPROVAL_FAILED
  | AGENT_EXECUTION_NODE_FAILED | AGENT_EXECUTION_FAILED | AGENT_WORKFLOW_FAILED | PROVIDER_TIMEOUT | PROVIDER_TRANSIENT
  | PROVIDER_INVALID_RESPONSE | PROVIDER_CONFIGURATION | PROVIDER_AUTHENTICATION | PROVIDER_PERMISSION | PROVIDER_FAILURE
  | TOOL_EXECUTION_FAILED | TOOL_EXECUTION_UNKNOWN

fun component_names :: "trace_component \<Rightarrow> string list" where
  "component_names RUN = [''agent_workflow'']"
| "component_names NODE = [''analyze_goal'', ''load_context'', ''generate_plan'', ''validate_plan'', ''request_approval'', ''execute_tasks'',
     ''verify_result'', ''summarize'']"
| "component_names TOOL = [''list_projects'', ''list_tasks'', ''search_knowledge'', ''create_task'', ''update_task'', ''batch_create_tasks'',
     ''delete_task'']"
| "component_names PROVIDER = [''model_provider'']"

text \<open>The optional counters of a terminal event, in the order of the source.\<close>

record trace_counters =
  tr_model_round_count :: "int option"
  tr_provider_attempt_count :: "int option"
  tr_tool_call_count :: "int option"
  tr_input_tokens :: "int option"
  tr_output_tokens :: "int option"
  tr_total_tokens :: "int option"

definition no_counters :: trace_counters where
  "no_counters = \<lparr>tr_model_round_count = None, tr_provider_attempt_count = None, tr_tool_call_count = None, tr_input_tokens = None,
     tr_output_tokens = None, tr_total_tokens = None\<rparr>"

record trace_event =
  te_run_id :: uuid
  te_thread_id :: "uuid option"
  te_component :: trace_component
  te_name :: string
  te_phase :: trace_phase
  te_outcome :: "trace_outcome option"
  te_error_code :: "trace_error_code option"
  te_prompt_version :: "string option"
  te_attempt :: "int option"
  te_counters :: trace_counters
  te_latency_ms :: "rat option"

text \<open>\<open>^study-plan\.v[1-9][0-9]*$\<close>; the engine of Pydantic has no trailing newline exception for \<open>$\<close>.\<close>

definition digit :: "char \<Rightarrow> bool" where "digit c \<longleftrightarrow> c \<in> set ''0123456789''"

definition prompt_version_pattern :: "string \<Rightarrow> bool" where
  "prompt_version_pattern s \<longleftrightarrow>
     (let p = ''study-plan.v''; rest = drop (length p) s in
      take (length p) s = p \<and> rest \<noteq> [] \<and> list_all digit rest \<and> hd rest \<noteq> CHR ''0'')"

definition in_bounds :: "int \<Rightarrow> int \<Rightarrow> int option \<Rightarrow> bool" where
  "in_bounds lo hi v \<longleftrightarrow> (case v of None \<Rightarrow> True | Some n \<Rightarrow> lo \<le> n \<and> n \<le> hi)"

definition counters_ok :: "trace_counters \<Rightarrow> bool" where
  "counters_ok c \<longleftrightarrow>
     in_bounds 0 max_trace_attempts (tr_model_round_count c) \<and> in_bounds 0 max_trace_attempts (tr_provider_attempt_count c) \<and>
     in_bounds 0 max_trace_tool_calls (tr_tool_call_count c) \<and> in_bounds 0 max_trace_tokens (tr_input_tokens c) \<and>
     in_bounds 0 max_trace_tokens (tr_output_tokens c) \<and> in_bounds 0 max_trace_tokens (tr_total_tokens c)"

definition fields_ok :: "trace_event \<Rightarrow> bool" where
  "fields_ok ev \<longleftrightarrow>
     1 \<le> length (te_name ev) \<and> length (te_name ev) \<le> 64 \<and>
     (case te_prompt_version ev of None \<Rightarrow> True | Some v \<Rightarrow> prompt_version_pattern v \<and> length v \<le> 100) \<and>
     in_bounds 1 max_trace_attempts (te_attempt ev) \<and> counters_ok (te_counters ev) \<and>
     (case te_latency_ms ev of None \<Rightarrow> True | Some l \<Rightarrow> 0 \<le> l \<and> l \<le> max_trace_latency_ms)"

definition validate_shape :: "trace_event \<Rightarrow> bool" where
  "validate_shape ev \<longleftrightarrow>
     te_name ev \<in> set (component_names (te_component ev)) \<and>
     (case te_phase ev of
        STARTED \<Rightarrow> te_outcome ev = None \<and> te_error_code ev = None \<and> te_latency_ms ev = None
      | FINISHED \<Rightarrow> te_outcome ev = Some OUTCOME_SUCCEEDED \<and> te_error_code ev = None \<and> te_latency_ms ev \<noteq> None
      | FAILED \<Rightarrow> te_outcome ev = Some OUTCOME_FAILED \<and> te_error_code ev \<noteq> None \<and> te_latency_ms ev \<noteq> None)"

text \<open>The constructor of \<open>AgentTraceEvent\<close>: \<open>None\<close> is the \<open>ValidationError\<close>.\<close>

definition trace_event_of :: "trace_event \<Rightarrow> trace_event option" where
  "trace_event_of ev = (if fields_ok ev \<and> validate_shape ev then Some ev else None)"

section \<open>Sinks and spans\<close>

text \<open>The second component of the answer of a sink says whether it raised.\<close>

type_synonym 's sink = "trace_event \<Rightarrow> 's \<Rightarrow> 's \<times> bool"

definition noop_trace_sink :: "'s sink" where "noop_trace_sink ev s = (s, False)"

definition emit_trace :: "'s sink \<Rightarrow> trace_event \<Rightarrow> 's \<Rightarrow> 's" where
  "emit_trace sink ev s = (case sink ev s of (s', raised) \<Rightarrow> s')"

record trace_span =
  sp_run_id :: "uuid option"
  sp_thread_id :: "uuid option"
  sp_component :: trace_component
  sp_name :: string
  sp_prompt_version :: "string option"
  sp_attempt :: "int option"
  sp_started_at :: "rat option"

definition start_event :: "trace_span \<Rightarrow> uuid \<Rightarrow> trace_event" where
  "start_event sp run =
     \<lparr>te_run_id = run, te_thread_id = sp_thread_id sp, te_component = sp_component sp, te_name = sp_name sp, te_phase = STARTED,
      te_outcome = None, te_error_code = None, te_prompt_version = sp_prompt_version sp, te_attempt = sp_attempt sp,
      te_counters = no_counters, te_latency_ms = None\<rparr>"

text \<open>The arguments are given as an inert span; \<open>now\<close> is the answer of the clock.\<close>

definition start_trace :: "'s sink \<Rightarrow> trace_span \<Rightarrow> rat option \<Rightarrow> 's \<Rightarrow> trace_span \<times> 's" where
  "start_trace sink sp now s =
     (case sp_run_id sp of
        None \<Rightarrow> (sp\<lparr>sp_started_at := None\<rparr>, s)
      | Some run \<Rightarrow>
          (case now of
             None \<Rightarrow> (sp\<lparr>sp_started_at := None\<rparr>, s)
           | Some t \<Rightarrow>
               (case trace_event_of (start_event sp run) of
                  None \<Rightarrow> (sp\<lparr>sp_started_at := None\<rparr>, s)
                | Some ev \<Rightarrow> (sp\<lparr>sp_started_at := Some t\<rparr>, emit_trace sink ev s))))"

definition terminal_event :: "trace_span \<Rightarrow> uuid \<Rightarrow> rat \<Rightarrow> rat \<Rightarrow> trace_error_code option \<Rightarrow> trace_counters \<Rightarrow> trace_event" where
  "terminal_event sp run started now err c =
     \<lparr>te_run_id = run, te_thread_id = sp_thread_id sp, te_component = sp_component sp, te_name = sp_name sp,
      te_phase = (if err = None then FINISHED else FAILED),
      te_outcome = Some (if err = None then OUTCOME_SUCCEEDED else OUTCOME_FAILED), te_error_code = err,
      te_prompt_version = sp_prompt_version sp, te_attempt = sp_attempt sp, te_counters = c,
      te_latency_ms = Some (if now \<le> started then 0 else double_of (double_of (now - started) * 1000))\<rparr>"

definition terminal :: "'s sink \<Rightarrow> trace_span \<Rightarrow> rat option \<Rightarrow> trace_error_code option \<Rightarrow> trace_counters \<Rightarrow> 's \<Rightarrow> 's" where
  "terminal sink sp now err c s =
     (case (sp_run_id sp, sp_started_at sp) of
        (Some run, Some started) \<Rightarrow>
          (case now of
             None \<Rightarrow> s
           | Some t \<Rightarrow>
               (case trace_event_of (terminal_event sp run started t err c) of
                  None \<Rightarrow> s
                | Some ev \<Rightarrow> emit_trace sink ev s))
      | _ \<Rightarrow> s)"

definition finish :: "'s sink \<Rightarrow> trace_span \<Rightarrow> rat option \<Rightarrow> trace_counters \<Rightarrow> 's \<Rightarrow> 's" where
  "finish sink sp now c = terminal sink sp now None c"

definition fail :: "'s sink \<Rightarrow> trace_span \<Rightarrow> trace_error_code \<Rightarrow> rat option \<Rightarrow> trace_counters \<Rightarrow> 's \<Rightarrow> 's" where
  "fail sink sp err now c = terminal sink sp now (Some err) c"

text \<open>A traced operation: the span is started, the operation answers counters or a classified failure, and the span is closed.\<close>

definition traced :: "'s sink \<Rightarrow> trace_span \<Rightarrow> rat option \<Rightarrow> rat option \<Rightarrow> trace_error_code + trace_counters \<Rightarrow> trace_counters \<Rightarrow> 's \<Rightarrow> 's" where
  "traced sink sp t1 t2 r failed s =
     (case start_trace sink sp t1 s of (opened, s') \<Rightarrow>
        case r of Inr c \<Rightarrow> finish sink opened t2 c s' | Inl err \<Rightarrow> fail sink opened err t2 failed s')"

section \<open>What reaches a sink\<close>

text \<open>A sink that records every event, and raises whenever it likes.\<close>

definition recording :: "(trace_event \<Rightarrow> trace_event list \<Rightarrow> bool) \<Rightarrow> trace_event list sink" where
  "recording raises ev s = (s @ [ev], raises ev s)"

definition trace_event_ok :: "trace_event \<Rightarrow> bool" where
  "trace_event_ok ev \<longleftrightarrow> fields_ok ev \<and> validate_shape ev"

lemma emit_recording: "emit_trace (recording raises) ev s = s @ [ev]"
  by (simp add: emit_trace_def recording_def)

lemma start_trace_effect:
  "start_trace (recording raises) sp t s = (sp', s') \<Longrightarrow>
     sp' = sp\<lparr>sp_started_at := sp_started_at sp'\<rparr> \<and>
     (if sp_started_at sp' = None then s' = s
      else \<exists>run. sp_run_id sp = Some run \<and> s' = s @ [start_event sp run] \<and> trace_event_ok (start_event sp run))"
  by (auto simp: start_trace_def emit_trace_def recording_def trace_event_of_def trace_event_ok_def split: option.splits if_splits)

lemma terminal_effect:
  "terminal (recording raises) sp t err c s =
     (case (sp_run_id sp, sp_started_at sp, t) of
        (Some run, Some started, Some now) \<Rightarrow>
          if trace_event_ok (terminal_event sp run started now err c) then s @ [terminal_event sp run started now err c] else s
      | _ \<Rightarrow> s)"
  by (auto simp: terminal_def emit_trace_def recording_def trace_event_of_def trace_event_ok_def split: option.splits)


end
