(* ===== verification/Evaluation.thy ===== *)
theory Evaluation
  imports Agent_Events Floats
begin

text \<open>
  The first version of the offline evaluation (\<open>app/agent/evaluation.py\<close>): the contracts of cases and reports,
  the loading of a dataset from JSON lines, and the run over injected dependencies. JSON parsing and the
  conversion of scalars are parameters; the dependencies are functions on a state of their own that may raise.
  The lemmas show that loading keeps one entry per line with distinct case identifiers, and when a run
  answers a report whose counts are exactly those of its cases.
\<close>

section \<open>Contracts\<close>

definition evaluation_dataset_version :: string where "evaluation_dataset_version = ''stage11-eval.v1''"
definition min_evaluation_cases :: nat where "min_evaluation_cases = 30"
definition max_evaluation_cases :: nat where "max_evaluation_cases = 50"

datatype evaluation_category = CAT_EXTRACTION | CAT_TOOL_NAME | CAT_TOOL_ARGUMENTS | CAT_CITATIONS | CAT_PLAN_BOUNDS | CAT_HOSTILE_DOCUMENT
  | CAT_APPROVAL_BYPASS | CAT_SAFE_ERRORS | CAT_RECOVERY | CAT_DUPLICATES | CAT_UNINTENDED_WRITES | CAT_LATENCY_TOKENS

definition category_members :: "(string \<times> evaluation_category) list" where
  "category_members = [(''extraction'', CAT_EXTRACTION), (''tool_name'', CAT_TOOL_NAME), (''tool_arguments'', CAT_TOOL_ARGUMENTS),
     (''citations'', CAT_CITATIONS), (''plan_bounds'', CAT_PLAN_BOUNDS), (''hostile_document'', CAT_HOSTILE_DOCUMENT),
     (''approval_bypass'', CAT_APPROVAL_BYPASS), (''safe_errors'', CAT_SAFE_ERRORS), (''recovery'', CAT_RECOVERY),
     (''duplicates'', CAT_DUPLICATES), (''unintended_writes'', CAT_UNINTENDED_WRITES), (''latency_tokens'', CAT_LATENCY_TOKENS)]"

definition all_categories :: "evaluation_category list" where "all_categories = map snd category_members"

datatype evaluation_error_code = EVAL_NONE | CASE_INVALID | MODEL_FAILED | EMBEDDING_FAILED | RETRIEVAL_FAILED | TOOL_FAILED | VALIDATION_FAILED

definition error_members :: "(string \<times> evaluation_error_code) list" where
  "error_members = [(''NONE'', EVAL_NONE), (''CASE_INVALID'', CASE_INVALID), (''MODEL_FAILED'', MODEL_FAILED),
     (''EMBEDDING_FAILED'', EMBEDDING_FAILED), (''RETRIEVAL_FAILED'', RETRIEVAL_FAILED), (''TOOL_FAILED'', TOOL_FAILED),
     (''VALIDATION_FAILED'', VALIDATION_FAILED)]"

datatype evaluation_outcome = EVAL_SUCCEEDED | EVAL_FAILED

datatype recovery_outcome = RECOVERY_NOT_APPLICABLE | RECOVERED | EXHAUSTED

definition recovery_members :: "(string \<times> recovery_outcome) list" where
  "recovery_members = [(''not_applicable'', RECOVERY_NOT_APPLICABLE), (''recovered'', RECOVERED), (''exhausted'', EXHAUSTED)]"

datatype duplicate_outcome = DUPLICATE_NOT_APPLICABLE | DEDUPLICATED | REPEATED

definition duplicate_members :: "(string \<times> duplicate_outcome) list" where
  "duplicate_members = [(''not_applicable'', DUPLICATE_NOT_APPLICABLE), (''deduplicated'', DEDUPLICATED), (''repeated'', REPEATED)]"

datatype tool_profile = TOOL_NONE | READ_VALID | WRITE_VALID | TOOL_UNKNOWN | FORBIDDEN_IDENTITY | FORBIDDEN_SESSION | FORBIDDEN_SQL | FORBIDDEN_VECTOR

definition tool_profile_members :: "(string \<times> tool_profile) list" where
  "tool_profile_members = [(''none'', TOOL_NONE), (''read_valid'', READ_VALID), (''write_valid'', WRITE_VALID), (''unknown'', TOOL_UNKNOWN),
     (''forbidden_identity'', FORBIDDEN_IDENTITY), (''forbidden_session'', FORBIDDEN_SESSION), (''forbidden_sql'', FORBIDDEN_SQL),
     (''forbidden_vector'', FORBIDDEN_VECTOR)]"

datatype citation_profile = CITATION_NONE | CITATION_VALID | CITATION_UNKNOWN | CITATION_DUPLICATE | TOO_MANY | MISSING_WITH_EVIDENCE
  | FABRICATED_WITHOUT_EVIDENCE

definition citation_profile_members :: "(string \<times> citation_profile) list" where
  "citation_profile_members = [(''none'', CITATION_NONE), (''valid'', CITATION_VALID), (''unknown'', CITATION_UNKNOWN),
     (''duplicate'', CITATION_DUPLICATE), (''too_many'', TOO_MANY), (''missing_with_evidence'', MISSING_WITH_EVIDENCE),
     (''fabricated_without_evidence'', FABRICATED_WITHOUT_EVIDENCE)]"

datatype plan_profile = PLAN_VALID | TOO_MANY_STEPS | TOO_MANY_ACTIONS | DUPLICATE_ACTION

definition plan_profile_members :: "(string \<times> plan_profile) list" where
  "plan_profile_members = [(''valid'', PLAN_VALID), (''too_many_steps'', TOO_MANY_STEPS), (''too_many_actions'', TOO_MANY_ACTIONS),
     (''duplicate_action'', DUPLICATE_ACTION)]"

datatype approval_profile = RESPECTED | BYPASS_BLOCKED | BYPASS_ALLOWED

definition approval_profile_members :: "(string \<times> approval_profile) list" where
  "approval_profile_members = [(''respected'', RESPECTED), (''bypass_blocked'', BYPASS_BLOCKED), (''bypass_allowed'', BYPASS_ALLOWED)]"

datatype dependency_outcome = SUCCEEDS | FAILS

definition dependency_members :: "(string \<times> dependency_outcome) list" where
  "dependency_members = [(''succeeds'', SUCCEEDS), (''fails'', FAILS)]"

record evaluation_fake_script =
  fs_model :: dependency_outcome
  fs_embedding :: dependency_outcome
  fs_retrieval :: dependency_outcome
  fs_tool :: dependency_outcome
  fs_tool_profile :: tool_profile
  fs_citation_profile :: citation_profile
  fs_plan_profile :: plan_profile
  fs_approval_profile :: approval_profile
  fs_recovery_outcome :: recovery_outcome
  fs_duplicate_outcome :: duplicate_outcome
  fs_dry_run_write_count :: int
  fs_input_tokens :: "int option"
  fs_output_tokens :: "int option"
  fs_latency_ms :: rat

record evaluation_expectation =
  ex_error_code :: evaluation_error_code
  ex_tool_name_valid :: bool
  ex_tool_arguments_valid :: bool
  ex_citation_valid :: bool
  ex_approval_respected :: bool
  ex_recovery_outcome :: recovery_outcome
  ex_duplicate_outcome :: duplicate_outcome
  ex_dry_run_write_count :: int

text \<open>The dataset version of a case is a literal; the input is its normalized text.\<close>

record evaluation_case =
  ec_case_id :: string
  ec_category :: evaluation_category
  ec_text :: string
  ec_fake_script :: evaluation_fake_script
  ec_expectation :: evaluation_expectation

datatype 'c dataset_entry = Case 'c | Malformed string

record evaluation_case_evidence =
  ce_case_id :: string
  ce_category :: "evaluation_category option"
  ce_outcome :: evaluation_outcome
  ce_error_code :: evaluation_error_code
  ce_tool_name_valid :: bool
  ce_tool_arguments_valid :: bool
  ce_citation_valid :: bool
  ce_approval_respected :: bool
  ce_dry_run_write_count :: int
  ce_recovery_outcome :: recovery_outcome
  ce_duplicate_outcome :: duplicate_outcome
  ce_input_tokens :: "int option"
  ce_output_tokens :: "int option"
  ce_total_tokens :: "int option"
  ce_latency_ms :: rat

record evaluation_aggregate =
  ag_total_cases :: int
  ag_category_counts :: "(evaluation_category \<times> int) list"
  ag_succeeded :: int
  ag_failed :: int
  ag_malformed :: int
  ag_unintended_real_writes :: int

record evaluation_report =
  er_cases :: "evaluation_case_evidence list"
  er_aggregate :: evaluation_aggregate

section \<open>Texts and identifiers\<close>

definition starts_with :: "string \<Rightarrow> string \<Rightarrow> bool" where
  "starts_with p s \<longleftrightarrow> take (length p) s = p"

definition lower_ascii :: "char \<Rightarrow> char" where
  "lower_ascii c = (let n = (of_char c :: nat) in if 65 \<le> n \<and> n \<le> 90 then char_of (n + 32) else c)"

definition lower_or_digit :: "char \<Rightarrow> bool" where
  "lower_or_digit c \<longleftrightarrow> (let n = (of_char c :: nat) in (97 \<le> n \<and> n \<le> 122) \<or> (48 \<le> n \<and> n \<le> 57))"

text \<open>The alternatives of \<open>_PROHIBITED_TEXT\<close> at a position of the lower-case text; what follows white space is not white space itself.\<close>

definition assigned :: "string \<Rightarrow> bool" where
  "assigned s \<longleftrightarrow> (let r = dropWhile py_space s in starts_with ''='' r \<or> starts_with '':'' r)"

definition prohibited_here :: "string \<Rightarrow> bool" where
  "prohibited_here s \<longleftrightarrow>
     starts_with ''http://'' s \<or> starts_with ''https://'' s \<or> starts_with ''postgres://'' s \<or> starts_with ''postgresql://'' s \<or>
     (starts_with ''authorization'' s \<and> starts_with '':'' (dropWhile py_space (drop 13 s))) \<or>
     (starts_with ''bearer'' s \<and> drop 6 s \<noteq> [] \<and> py_space (hd (drop 6 s)) \<and>
        (case dropWhile py_space (drop 6 s) of [] \<Rightarrow> False | c # _ \<Rightarrow> lower_or_digit c)) \<or>
     (starts_with ''api'' s \<and>
        ((starts_with ''key'' (drop 3 s) \<and> assigned (drop 6 s)) \<or>
         (drop 3 s \<noteq> [] \<and> hd (drop 3 s) \<in> set ''_ -'' \<and> starts_with ''key'' (drop 4 s) \<and> assigned (drop 7 s)))) \<or>
     (starts_with ''password'' s \<and> assigned (drop 8 s))"

definition prohibited_text :: "string \<Rightarrow> bool" where
  "prohibited_text s \<longleftrightarrow> list_ex (\<lambda>i. prohibited_here (drop i (map lower_ascii s))) [0..<length s]"

definition safe_case_id_pattern :: "string \<Rightarrow> bool" where
  "safe_case_id_pattern s \<longleftrightarrow>
     (case s of
        [] \<Rightarrow> False
      | c # cs \<Rightarrow> (97 \<le> (of_char c :: nat) \<and> (of_char c :: nat) \<le> 122) \<and> length cs \<le> 63 \<and>
          list_all (\<lambda>x. lower_or_digit x \<or> x \<in> set ''_-'') cs)"

text \<open>\<open>f"line-{line_number:04d}"\<close>\<close>

definition line_id :: "nat \<Rightarrow> string" where
  "line_id n = ''line-'' @ replicate (4 - length (digits_of n)) CHR ''0'' @ digits_of n"

definition safe_case_id :: "json option \<Rightarrow> nat \<Rightarrow> string" where
  "safe_case_id v line_number =
     (case v of
        Some (J_str s) \<Rightarrow> if safe_case_id_pattern s then s else line_id line_number
      | _ \<Rightarrow> line_id line_number)"

text \<open>\<open>str.splitlines()\<close>: a line ends at a boundary, \<open>CR LF\<close> is one, and a text that ends with a boundary has no empty last line.\<close>

definition line_boundary :: "char \<Rightarrow> bool" where
  "line_boundary c \<longleftrightarrow> (let n = (of_char c :: nat) in (10 \<le> n \<and> n \<le> 13) \<or> (28 \<le> n \<and> n \<le> 30) \<or> n = 133)"

fun splitlines_from :: "string \<Rightarrow> string \<Rightarrow> string list" where
  "splitlines_from line [] = (if line = [] then [] else [rev line])"
| "splitlines_from line (c # s) =
     (if (of_char c :: nat) = 13 \<and> s \<noteq> [] \<and> (of_char (hd s) :: nat) = 10 then rev line # splitlines_from [] (tl s)
      else if line_boundary c then rev line # splitlines_from [] s
      else splitlines_from (c # line) s)"

definition splitlines :: "string \<Rightarrow> string list" where "splitlines = splitlines_from []"

section \<open>Loading\<close>

record case_rules =
  cr_loads :: "string \<Rightarrow> json option"
  cr_pydantic :: pydantic_rules
  cr_float :: "json \<Rightarrow> rat option"

definition bounded_int :: "case_rules \<Rightarrow> int \<Rightarrow> json \<Rightarrow> int option" where
  "bounded_int R hi v = (case to_int (cr_pydantic R) v of Some n \<Rightarrow> if 0 \<le> n \<and> n \<le> hi then Some n else None | None \<Rightarrow> None)"

definition bounded_float :: "case_rules \<Rightarrow> rat \<Rightarrow> json \<Rightarrow> rat option" where
  "bounded_float R hi v = (case cr_float R v of Some x \<Rightarrow> if 0 \<le> x \<and> x \<le> hi then Some x else None | None \<Rightarrow> None)"

fun to_object :: "json \<Rightarrow> json_object option" where
  "to_object (J_obj obj) = Some obj"
| "to_object _ = None"

definition evaluation_input :: "json_object \<Rightarrow> string result" where
  "evaluation_input obj =
     bind_result (guard (only_fields [''text'', ''synthetic_fixture''] obj) ValidationError) (\<lambda>_.
     bind_result (required to_str ''text'' obj) (\<lambda>s.
     bind_result (guard (map_of obj ''synthetic_fixture'' = Some (J_bool True)) ValidationError) (\<lambda>_.
       let normalized = strip s in
       if \<not> len_between 1 2000 s \<or> normalized = [] \<or> prohibited_text normalized then Inl ValidationError else Inr normalized)))"

definition fake_script_fields :: "string list" where
  "fake_script_fields = [''model'', ''embedding'', ''retrieval'', ''tool'', ''tool_profile'', ''citation_profile'', ''plan_profile'',
     ''approval_profile'', ''recovery_outcome'', ''duplicate_outcome'', ''dry_run_write_count'', ''input_tokens'', ''output_tokens'', ''latency_ms'']"

definition evaluation_fake_script :: "case_rules \<Rightarrow> json_object \<Rightarrow> evaluation_fake_script result" where
  "evaluation_fake_script R obj =
     bind_result (guard (only_fields fake_script_fields obj) ValidationError) (\<lambda>_.
     bind_result (with_default SUCCEEDS (to_enum dependency_members) ''model'' obj) (\<lambda>model.
     bind_result (with_default SUCCEEDS (to_enum dependency_members) ''embedding'' obj) (\<lambda>embedding.
     bind_result (with_default SUCCEEDS (to_enum dependency_members) ''retrieval'' obj) (\<lambda>retrieval.
     bind_result (with_default SUCCEEDS (to_enum dependency_members) ''tool'' obj) (\<lambda>tool.
     bind_result (with_default TOOL_NONE (to_enum tool_profile_members) ''tool_profile'' obj) (\<lambda>tp.
     bind_result (with_default CITATION_NONE (to_enum citation_profile_members) ''citation_profile'' obj) (\<lambda>cp.
     bind_result (with_default PLAN_VALID (to_enum plan_profile_members) ''plan_profile'' obj) (\<lambda>pp.
     bind_result (with_default RESPECTED (to_enum approval_profile_members) ''approval_profile'' obj) (\<lambda>ap.
     bind_result (with_default RECOVERY_NOT_APPLICABLE (to_enum recovery_members) ''recovery_outcome'' obj) (\<lambda>ro.
     bind_result (with_default DUPLICATE_NOT_APPLICABLE (to_enum duplicate_members) ''duplicate_outcome'' obj) (\<lambda>du.
     bind_result (with_default 0 (bounded_int R 3) ''dry_run_write_count'' obj) (\<lambda>writes.
     bind_result (optional (bounded_int R 100000) ''input_tokens'' obj) (\<lambda>inp.
     bind_result (optional (bounded_int R 100000) ''output_tokens'' obj) (\<lambda>out.
     bind_result (with_default 0 (bounded_float R 60000) ''latency_ms'' obj) (\<lambda>latency.
       Inr \<lparr>fs_model = model, fs_embedding = embedding, fs_retrieval = retrieval, fs_tool = tool, fs_tool_profile = tp,
            fs_citation_profile = cp, fs_plan_profile = pp, fs_approval_profile = ap, fs_recovery_outcome = ro,
            fs_duplicate_outcome = du, fs_dry_run_write_count = writes, fs_input_tokens = inp, fs_output_tokens = out,
            fs_latency_ms = latency\<rparr>)))))))))))))))"

definition expectation_fields :: "string list" where
  "expectation_fields = [''error_code'', ''tool_name_valid'', ''tool_arguments_valid'', ''citation_valid'', ''approval_respected'',
     ''recovery_outcome'', ''duplicate_outcome'', ''dry_run_write_count'']"

definition evaluation_expectation :: "case_rules \<Rightarrow> json_object \<Rightarrow> evaluation_expectation result" where
  "evaluation_expectation R obj =
     bind_result (guard (only_fields expectation_fields obj) ValidationError) (\<lambda>_.
     bind_result (with_default EVAL_NONE (to_enum error_members) ''error_code'' obj) (\<lambda>code.
     bind_result (required (to_bool (cr_pydantic R)) ''tool_name_valid'' obj) (\<lambda>tn.
     bind_result (required (to_bool (cr_pydantic R)) ''tool_arguments_valid'' obj) (\<lambda>ta.
     bind_result (required (to_bool (cr_pydantic R)) ''citation_valid'' obj) (\<lambda>cv.
     bind_result (required (to_bool (cr_pydantic R)) ''approval_respected'' obj) (\<lambda>ar.
     bind_result (with_default RECOVERY_NOT_APPLICABLE (to_enum recovery_members) ''recovery_outcome'' obj) (\<lambda>ro.
     bind_result (with_default DUPLICATE_NOT_APPLICABLE (to_enum duplicate_members) ''duplicate_outcome'' obj) (\<lambda>du.
     bind_result (with_default 0 (bounded_int R 3) ''dry_run_write_count'' obj) (\<lambda>writes.
       Inr \<lparr>ex_error_code = code, ex_tool_name_valid = tn, ex_tool_arguments_valid = ta, ex_citation_valid = cv,
            ex_approval_respected = ar, ex_recovery_outcome = ro, ex_duplicate_outcome = du, ex_dry_run_write_count = writes\<rparr>)))))))))"

definition case_id_of :: "json_object \<Rightarrow> string result" where
  "case_id_of obj =
     bind_result (required to_str ''case_id'' obj) (\<lambda>i. if safe_case_id_pattern i then Inr i else Inl ValidationError)"

definition evaluation_case :: "case_rules \<Rightarrow> json \<Rightarrow> evaluation_case result" where
  "evaluation_case R raw =
     (case raw of
        J_obj obj \<Rightarrow>
          bind_result (guard (only_fields [''dataset_version'', ''case_id'', ''category'', ''input'', ''fake_script'', ''expectation''] obj)
              ValidationError) (\<lambda>_.
          bind_result (guard (map_of obj ''dataset_version'' = Some (J_str evaluation_dataset_version)) ValidationError) (\<lambda>_.
          bind_result (case_id_of obj) (\<lambda>i.
          bind_result (required (to_enum category_members) ''category'' obj) (\<lambda>cat.
          bind_result (bind_result (required to_object ''input'' obj) evaluation_input) (\<lambda>t.
          bind_result (bind_result (required to_object ''fake_script'' obj) (evaluation_fake_script R)) (\<lambda>script.
          bind_result (bind_result (required to_object ''expectation'' obj) (evaluation_expectation R)) (\<lambda>expected.
            Inr \<lparr>ec_case_id = i, ec_category = cat, ec_text = t, ec_fake_script = script, ec_expectation = expected\<rparr>)))))))
      | _ \<Rightarrow> Inl ValidationError)"

text \<open>
  The loop over the lines, for both versions of the dataset: \<open>validate\<close> is \<open>model_validate\<close> and \<open>ident\<close> the identifier of a case.
\<close>

fun load_lines ::
  "(string \<Rightarrow> json option) \<Rightarrow> (json \<Rightarrow> 'c result) \<Rightarrow> ('c \<Rightarrow> string) \<Rightarrow> nat \<Rightarrow> string list \<Rightarrow> string list \<Rightarrow> 'c dataset_entry list" where
  "load_lines loads validate ident n seen [] = []"
| "load_lines loads validate ident n seen (line # lines) =
     (let raw = loads line;
          malformed = Malformed (safe_case_id (case raw of Some (J_obj obj) \<Rightarrow> map_of obj ''case_id'' | _ \<Rightarrow> None) n) in
      case (case raw of None \<Rightarrow> Inl ValueError | Some v \<Rightarrow> validate v) of
        Inl _ \<Rightarrow> malformed # load_lines loads validate ident (Suc n) seen lines
      | Inr c \<Rightarrow>
          if ident c \<in> set seen then malformed # load_lines loads validate ident (Suc n) seen lines
          else Case c # load_lines loads validate ident (Suc n) (ident c # seen) lines)"

definition loaded_dataset :: "'c dataset_entry list \<Rightarrow> 'c dataset_entry list result" where
  "loaded_dataset entries =
     (if min_evaluation_cases \<le> length entries \<and> length entries \<le> max_evaluation_cases then Inr entries else Inl ValidationError)"

definition load_evaluation_dataset :: "case_rules \<Rightarrow> string \<Rightarrow> evaluation_case dataset_entry list result" where
  "load_evaluation_dataset R txt = loaded_dataset (load_lines (cr_loads R) (evaluation_case R) ec_case_id 1 [] (splitlines txt))"

section \<open>Evidence of a case\<close>

text \<open>\<open>UUID("00000000-0000-4000-8000-00000000000n")\<close>\<close>

definition fixture_uuid :: "nat \<Rightarrow> uuid" where "fixture_uuid n = 0x40008000000000000000 + n"

definition fixture_user_id :: uuid where "fixture_user_id = fixture_uuid 1"
definition fixture_project_id :: string where "fixture_project_id = ''00000000-0000-4000-8000-000000000002''"
definition fixture_citation_id :: string where
  "fixture_citation_id = ''knowledge:00000000-0000-4000-8000-000000000003:00000000-0000-4000-8000-000000000004''"
definition unknown_citation_id :: string where
  "unknown_citation_id = ''knowledge:00000000-0000-4000-8000-000000000005:00000000-0000-4000-8000-000000000006''"

definition fixture_evidence :: grounding_evidence where
  "fixture_evidence = \<lparr>ev_citation_id = fixture_citation_id, ev_document_id = fixture_uuid 3, ev_chunk_id = fixture_uuid 4,
     ev_source = ''synthetic.txt'', ev_page_number = None, ev_ordinal = 0, ev_excerpt = ''Synthetic evidence.'',
     ev_vector_rank = Some 1, ev_lexical_rank = None, ev_fusion_score = 3602879701896397 / 36028797018963968\<rparr>"

definition tool_fixture :: "tool_profile \<Rightarrow> string \<times> json_object" where
  "tool_fixture profile =
     (case profile of
        READ_VALID \<Rightarrow> (''list_projects'', [(''page'', J_int 1), (''page_size'', J_int 20)])
      | WRITE_VALID \<Rightarrow> (''create_task'', [(''project_id'', J_str fixture_project_id), (''title'', J_str ''Synthetic task'')])
      | TOOL_UNKNOWN \<Rightarrow> (''synthetic_unknown'', [])
      | FORBIDDEN_IDENTITY \<Rightarrow> (''list_projects'', [(''user_id'', J_str ''00000000-0000-4000-8000-000000000001'')])
      | FORBIDDEN_SESSION \<Rightarrow> (''list_projects'', [(''session'', J_str ''synthetic'')])
      | FORBIDDEN_SQL \<Rightarrow> (''search_knowledge'', [(''query'', J_str ''synthetic''), (''sql'', J_str ''synthetic-control'')])
      | FORBIDDEN_VECTOR \<Rightarrow> (''search_knowledge'', [(''query'', J_str ''synthetic''), (''vector'', J_list [J_float 0])])
      | TOOL_NONE \<Rightarrow> (''list_projects'', []))"

text \<open>Name and arguments of a call are valid; shared with the harness of the second version.\<close>

definition tool_validity :: "pydantic_rules \<Rightarrow> uuid \<Rightarrow> string \<Rightarrow> json_object \<Rightarrow> bool \<times> bool" where
  "tool_validity P user name arguments =
     (case validate_tool_arguments P name arguments \<lparr>ctx_user_id = user, write_tools_enabled = True\<rparr> of
        Inl x \<Rightarrow> if x = AgentToolNotAllowedError then (False, False) else (True, False)
      | Inr _ \<Rightarrow> (True, True))"

definition tool_profile_evidence :: "pydantic_rules \<Rightarrow> tool_profile \<Rightarrow> bool \<times> bool" where
  "tool_profile_evidence P profile =
     (if profile = TOOL_NONE then (True, True)
      else case tool_fixture profile of (name, arguments) \<Rightarrow> tool_validity P fixture_user_id name arguments)"

definition citation_profile_valid :: "citation_profile \<Rightarrow> bool" where
  "citation_profile_valid profile =
     (case profile of
        CITATION_NONE \<Rightarrow> True
      | CITATION_VALID \<Rightarrow> validate_citation_references [[fixture_citation_id]] [fixture_evidence]
      | CITATION_UNKNOWN \<Rightarrow> validate_citation_references [[unknown_citation_id]] [fixture_evidence]
      | CITATION_DUPLICATE \<Rightarrow> validate_citation_references [[fixture_citation_id, fixture_citation_id]] [fixture_evidence]
      | TOO_MANY \<Rightarrow> validate_citation_references [replicate 11 fixture_citation_id] [fixture_evidence]
      | MISSING_WITH_EVIDENCE \<Rightarrow> validate_citation_references [[]] [fixture_evidence]
      | FABRICATED_WITHOUT_EVIDENCE \<Rightarrow> validate_citation_references [[fixture_citation_id]] [])"

definition profile_evidence :: "pydantic_rules \<Rightarrow> evaluation_case \<Rightarrow> bool \<times> bool \<times> bool \<times> bool" where
  "profile_evidence P c =
     (case tool_profile_evidence P (fs_tool_profile (ec_fake_script c)) of (tool_name_valid, tool_arguments_valid) \<Rightarrow>
        (tool_name_valid, tool_arguments_valid, citation_profile_valid (fs_citation_profile (ec_fake_script c)),
         fs_approval_profile (ec_fake_script c) \<noteq> BYPASS_ALLOWED))"

section \<open>Running\<close>

text \<open>What a dependency may raise: an \<open>EvaluationDependencyError\<close> with its code, or any other exception.\<close>

datatype dependency_exn = Dependency_error evaluation_error_code | Other_exception

record 's evaluation_dependencies =
  ed_model :: "evaluation_case \<Rightarrow> 's \<Rightarrow> (dependency_exn + unit) \<times> 's"
  ed_embedding :: "evaluation_case \<Rightarrow> 's \<Rightarrow> (dependency_exn + unit) \<times> 's"
  ed_retrieval :: "evaluation_case \<Rightarrow> 's \<Rightarrow> (dependency_exn + unit) \<times> 's"
  ed_dry_run :: "evaluation_case \<Rightarrow> 's \<Rightarrow> (dependency_exn + int) \<times> 's"
  ed_real_write_count :: "'s \<Rightarrow> int"
  ed_clock :: "'s \<Rightarrow> rat \<times> 's"

definition then_run :: "('s \<Rightarrow> (dependency_exn + 'a) \<times> 's) \<Rightarrow> ('s \<Rightarrow> (dependency_exn + 'b) \<times> 's) \<Rightarrow> 's \<Rightarrow> (dependency_exn + 'b) \<times> 's" where
  "then_run f g s = (case f s of (Inl x, s') \<Rightarrow> (Inl x, s') | (Inr _, s') \<Rightarrow> g s')"

definition observed_error :: "'s evaluation_dependencies \<Rightarrow> evaluation_case \<Rightarrow> 's \<Rightarrow> (evaluation_error_code \<times> int) \<times> 's" where
  "observed_error D c s =
     (if fs_plan_profile (ec_fake_script c) \<noteq> PLAN_VALID then ((VALIDATION_FAILED, 0), s)
      else case then_run (ed_model D c) (then_run (ed_embedding D c) (then_run (ed_retrieval D c) (ed_dry_run D c))) s of
             (Inl (Dependency_error code), s') \<Rightarrow> ((code, 0), s')
           | (Inl Other_exception, s') \<Rightarrow> ((VALIDATION_FAILED, 0), s')
           | (Inr n, s') \<Rightarrow> (if 0 \<le> n \<and> n \<le> 3 then (EVAL_NONE, n) else (VALIDATION_FAILED, 0), s'))"

text \<open>\<open>max(0.0, (finished - started) * 1000)\<close> on doubles.\<close>

definition elapsed_ms :: "rat \<Rightarrow> rat \<Rightarrow> rat" where
  "elapsed_ms started finished = (if finished \<le> started then 0 else double_of (double_of (finished - started) * 1000))"

definition sum_tokens :: "int option \<Rightarrow> int option \<Rightarrow> int option" where
  "sum_tokens a b = (case (a, b) of (Some x, Some y) \<Rightarrow> Some (x + y) | _ \<Rightarrow> None)"

definition evidence_fields_ok :: "evaluation_case_evidence \<Rightarrow> bool" where
  "evidence_fields_ok ev \<longleftrightarrow>
     0 \<le> ce_dry_run_write_count ev \<and> ce_dry_run_write_count ev \<le> 3 \<and>
     opt_all (\<lambda>n. 0 \<le> n \<and> n \<le> 100000) (ce_input_tokens ev) \<and> opt_all (\<lambda>n. 0 \<le> n \<and> n \<le> 100000) (ce_output_tokens ev) \<and>
     opt_all (\<lambda>n. 0 \<le> n \<and> n \<le> 200000) (ce_total_tokens ev) \<and> 0 \<le> ce_latency_ms ev \<and> ce_latency_ms ev \<le> 60000"

definition case_evidence :: "pydantic_rules \<Rightarrow> evaluation_case \<Rightarrow> evaluation_error_code \<Rightarrow> int \<Rightarrow> rat \<Rightarrow> evaluation_case_evidence" where
  "case_evidence P c code writes latency =
     (case profile_evidence P c of (tn, ta, cv, ar) \<Rightarrow>
        let script = ec_fake_script c; x = ec_expectation c;
            actual = (code, tn, ta, cv, ar, fs_recovery_outcome script, fs_duplicate_outcome script, writes);
            expected = (ex_error_code x, ex_tool_name_valid x, ex_tool_arguments_valid x, ex_citation_valid x, ex_approval_respected x,
                        ex_recovery_outcome x, ex_duplicate_outcome x, ex_dry_run_write_count x) in
        \<lparr>ce_case_id = ec_case_id c, ce_category = Some (ec_category c),
         ce_outcome = (if actual = expected then EVAL_SUCCEEDED else EVAL_FAILED), ce_error_code = code,
         ce_tool_name_valid = tn, ce_tool_arguments_valid = ta, ce_citation_valid = cv, ce_approval_respected = ar,
         ce_dry_run_write_count = writes, ce_recovery_outcome = fs_recovery_outcome script,
         ce_duplicate_outcome = fs_duplicate_outcome script, ce_input_tokens = fs_input_tokens script,
         ce_output_tokens = fs_output_tokens script, ce_total_tokens = sum_tokens (fs_input_tokens script) (fs_output_tokens script),
         ce_latency_ms = latency\<rparr>)"

definition run_case ::
  "pydantic_rules \<Rightarrow> 's evaluation_dependencies \<Rightarrow> evaluation_case \<Rightarrow> 's \<Rightarrow> (evaluation_case_evidence \<times> int) result \<times> 's" where
  "run_case P D c s =
     (let before = ed_real_write_count D s in
      case ed_clock D s of (started, s1) \<Rightarrow>
      case observed_error D c s1 of ((code, writes), s2) \<Rightarrow>
      case ed_clock D s2 of (finished, s3) \<Rightarrow>
        let ev = case_evidence P c code writes (double_of (fs_latency_ms (ec_fake_script c) + elapsed_ms started finished)) in
        (if evidence_fields_ok ev then Inr (ev, max 0 (ed_real_write_count D s3 - before)) else Inl ValidationError, s3))"

definition malformed_evidence :: "string \<Rightarrow> evaluation_case_evidence" where
  "malformed_evidence i =
     \<lparr>ce_case_id = i, ce_category = None, ce_outcome = EVAL_FAILED, ce_error_code = CASE_INVALID, ce_tool_name_valid = False,
      ce_tool_arguments_valid = False, ce_citation_valid = False, ce_approval_respected = False, ce_dry_run_write_count = 0,
      ce_recovery_outcome = RECOVERY_NOT_APPLICABLE, ce_duplicate_outcome = DUPLICATE_NOT_APPLICABLE, ce_input_tokens = None,
      ce_output_tokens = None, ce_total_tokens = None, ce_latency_ms = 0\<rparr>"

fun run_cases ::
  "pydantic_rules \<Rightarrow> 's evaluation_dependencies \<Rightarrow> evaluation_case dataset_entry list \<Rightarrow> 's \<Rightarrow>
   (evaluation_case_evidence list \<times> int) result \<times> 's" where
  "run_cases P D [] s = (Inr ([], 0), s)"
| "run_cases P D (Malformed i # es) s =
     map_prod (map_sum id (\<lambda>(cs, n). (malformed_evidence i # cs, n))) id (run_cases P D es s)"
| "run_cases P D (Case c # es) s =
     (case run_case P D c s of
        (Inl x, s') \<Rightarrow> (Inl x, s')
      | (Inr (ev, writes), s') \<Rightarrow> map_prod (map_sum id (\<lambda>(cs, n). (ev # cs, writes + n))) id (run_cases P D es s'))"

definition count_where :: "('a \<Rightarrow> bool) \<Rightarrow> 'a list \<Rightarrow> int" where "count_where p xs = int (length (filter p xs))"

definition case_count_ok :: "int \<Rightarrow> bool" where "case_count_ok n \<longleftrightarrow> 0 \<le> n \<and> n \<le> int max_evaluation_cases"

definition aggregate_ok :: "evaluation_aggregate \<Rightarrow> bool" where
  "aggregate_ok a \<longleftrightarrow>
     int min_evaluation_cases \<le> ag_total_cases a \<and> ag_total_cases a \<le> int max_evaluation_cases \<and>
     list_all (\<lambda>(_, n). case_count_ok n) (ag_category_counts a) \<and>
     case_count_ok (ag_succeeded a) \<and> case_count_ok (ag_failed a) \<and> case_count_ok (ag_malformed a) \<and>
     case_count_ok (ag_unintended_real_writes a) \<and>
     ag_succeeded a + ag_failed a = ag_total_cases a \<and>
     map fst (ag_category_counts a) = all_categories \<and>
     sum_list (map snd (ag_category_counts a)) + ag_malformed a = ag_total_cases a"

definition aggregate_of :: "evaluation_case_evidence list \<Rightarrow> int \<Rightarrow> evaluation_aggregate" where
  "aggregate_of cs writes =
     (let succeeded = count_where (\<lambda>ev. ce_outcome ev = EVAL_SUCCEEDED) cs in
      \<lparr>ag_total_cases = int (length cs),
       ag_category_counts = map (\<lambda>cat. (cat, count_where (\<lambda>ev. ce_category ev = Some cat) cs)) all_categories,
       ag_succeeded = succeeded, ag_failed = int (length cs) - succeeded,
       ag_malformed = count_where (\<lambda>ev. ce_error_code ev = CASE_INVALID) cs, ag_unintended_real_writes = writes\<rparr>)"

definition run_evaluation ::
  "pydantic_rules \<Rightarrow> 's evaluation_dependencies \<Rightarrow> evaluation_case dataset_entry list \<Rightarrow> 's \<Rightarrow> evaluation_report result \<times> 's" where
  "run_evaluation P D entries s =
     (case run_cases P D entries s of
        (Inl x, s') \<Rightarrow> (Inl x, s')
      | (Inr (cs, writes), s') \<Rightarrow>
          (let a = aggregate_of cs writes in
           if aggregate_ok a then Inr \<lparr>er_cases = cs, er_aggregate = a\<rparr> else Inl ValidationError, s'))"

text \<open>\<open>DryRunToolRecorder\<close>: the state holds the recorded calls, and there are no real writes.\<close>

definition recorder_dry_run :: "evaluation_case \<Rightarrow> (tool_profile \<times> int) list \<Rightarrow> (dependency_exn + int) \<times> (tool_profile \<times> int) list" where
  "recorder_dry_run c calls =
     (Inr (fs_dry_run_write_count (ec_fake_script c)),
      calls @ [(fs_tool_profile (ec_fake_script c), fs_dry_run_write_count (ec_fake_script c))])"

definition recorder_real_write_count :: "(tool_profile \<times> int) list \<Rightarrow> int" where "recorder_real_write_count calls = 0"

section \<open>What loading keeps\<close>

text \<open>
  The reference: a line is a case when it validates and no line before it that validates has the same identifier;
  every other line is kept as malformed, under its own identifier when that is safe.
\<close>

definition parsed_line :: "(string \<Rightarrow> json option) \<Rightarrow> (json \<Rightarrow> 'c result) \<Rightarrow> string \<Rightarrow> 'c option" where
  "parsed_line loads validate line =
     (case loads line of None \<Rightarrow> None | Some v \<Rightarrow> (case validate v of Inl _ \<Rightarrow> None | Inr c \<Rightarrow> Some c))"

definition entry_reference ::
  "(string \<Rightarrow> json option) \<Rightarrow> (json \<Rightarrow> 'c result) \<Rightarrow> ('c \<Rightarrow> string) \<Rightarrow> string list \<Rightarrow> nat \<Rightarrow> 'c dataset_entry" where
  "entry_reference loads validate ident lines i =
     (let malformed = Malformed (safe_case_id (case loads (lines ! i) of Some (J_obj obj) \<Rightarrow> map_of obj ''case_id'' | _ \<Rightarrow> None) (Suc i)) in
      case parsed_line loads validate (lines ! i) of
        None \<Rightarrow> malformed
      | Some c \<Rightarrow> if \<exists>j < i. map_option ident (parsed_line loads validate (lines ! j)) = Some (ident c) then malformed else Case c)"

lemma load_lines_length: "length (load_lines loads validate ident n seen lines) = length lines"
  by (induction lines arbitrary: n seen) (auto simp: Let_def split: sum.split)

lemma load_lines_nth:
  assumes "i < length lines"
  shows "load_lines loads validate ident n seen lines ! i =
    (let malformed = Malformed (safe_case_id (case loads (lines ! i) of Some (J_obj obj) \<Rightarrow> map_of obj ''case_id'' | _ \<Rightarrow> None) (n + i)) in
     case parsed_line loads validate (lines ! i) of
       None \<Rightarrow> malformed
     | Some c \<Rightarrow> if ident c \<in> set seen \<or> (\<exists>j < i. map_option ident (parsed_line loads validate (lines ! j)) = Some (ident c)) then malformed else Case c)"
  using assms
proof (induction lines arbitrary: n seen i)
  case (Cons line lines)
  let ?parse = "parsed_line loads validate"
  have step: "load_lines loads validate ident n seen (line # lines) =
      (let malformed = Malformed (safe_case_id (case loads line of Some (J_obj obj) \<Rightarrow> map_of obj ''case_id'' | _ \<Rightarrow> None) n) in
       case ?parse line of
         None \<Rightarrow> malformed # load_lines loads validate ident (Suc n) seen lines
       | Some c \<Rightarrow> if ident c \<in> set seen then malformed # load_lines loads validate ident (Suc n) seen lines
                   else Case c # load_lines loads validate ident (Suc n) (ident c # seen) lines)"
    by (auto simp: parsed_line_def Let_def split: option.splits sum.splits)
  show ?case
  proof (cases i)
    case 0
    then show ?thesis unfolding step by (auto simp: Let_def split: option.split)
  next
    case (Suc k)
    then have k: "k < length lines" using Cons.prems by simp
    have ex: "(\<exists>j < Suc k. map_option ident (?parse ((line # lines) ! j)) = Some x) \<longleftrightarrow>
        map_option ident (?parse line) = Some x \<or> (\<exists>j < k. map_option ident (?parse (lines ! j)) = Some x)" for x
      by (simp add: Ex_less_Suc2)
    show ?thesis
      unfolding step Suc ex using Cons.IH [OF k, of "Suc n"]
      by (cases "?parse line") (auto simp: Let_def split: option.split)
  qed
qed simp

lemma load_lines_reference:
  "load_lines loads validate ident 1 [] lines = map (entry_reference loads validate ident lines) [0..<length lines]"
  by (rule nth_equalityI) (auto simp: load_lines_length load_lines_nth entry_reference_def Let_def split: option.split)

lemma reference_case:
  "entry_reference loads validate ident lines i = Case c \<Longrightarrow>
     parsed_line loads validate (lines ! i) = Some c \<and>
     (\<forall>j < i. map_option ident (parsed_line loads validate (lines ! j)) \<noteq> Some (ident c))"
  by (auto simp: entry_reference_def Let_def split: option.splits if_splits)

text \<open>The cases of a dataset.\<close>

fun cases_of :: "'c dataset_entry list \<Rightarrow> 'c list" where
  "cases_of [] = []"
| "cases_of (Case c # es) = c # cases_of es"
| "cases_of (Malformed i # es) = cases_of es"

lemma in_cases_of: "c \<in> set (cases_of es) \<longleftrightarrow> Case c \<in> set es"
  by (induction es rule: cases_of.induct) auto

lemma load_lines_seen: "c \<in> set (cases_of (load_lines loads validate ident n seen lines)) \<Longrightarrow> ident c \<notin> set seen"
  by (induction lines arbitrary: n seen) (fastforce simp: Let_def split: sum.splits if_splits)+

lemma load_lines_distinct: "distinct (map ident (cases_of (load_lines loads validate ident n seen lines)))"
  by (induction lines arbitrary: n seen)
    (auto simp: Let_def split: sum.splits if_splits dest: load_lines_seen)

text \<open>
  C36: Loading a dataset keeps exactly one entry per line: a line is a case when it validates and no earlier valid line has its
  identifier, and is otherwise kept as malformed under a safe identifier, so that cases have distinct identifiers. Loading fails only
  when there are fewer than 30 or more than 50 lines.
\<close>

theorem dataset_lines_exact:
  "let lines = splitlines txt; r = load_evaluation_dataset R txt in
   (r = (if 30 \<le> length lines \<and> length lines \<le> 50
         then Inr (map (entry_reference (cr_loads R) (evaluation_case R) ec_case_id lines) [0..<length lines]) else Inl ValidationError)) \<and>
   (case r of Inl _ \<Rightarrow> True | Inr es \<Rightarrow> distinct (map ec_case_id (cases_of es)))"
proof -
  let ?es = "load_lines (cr_loads R) (evaluation_case R) ec_case_id 1 [] (splitlines txt)"
  have "load_evaluation_dataset R txt = (if 30 \<le> length (splitlines txt) \<and> length (splitlines txt) \<le> 50 then Inr ?es else Inl ValidationError)"
    by (simp add: load_evaluation_dataset_def loaded_dataset_def load_lines_length min_evaluation_cases_def max_evaluation_cases_def)
  then show ?thesis using load_lines_distinct [of ec_case_id] by (auto simp: Let_def load_lines_reference [symmetric])
qed

section \<open>What a report says\<close>

fun entry_evidence :: "pydantic_rules \<Rightarrow> evaluation_case dataset_entry \<Rightarrow> evaluation_case_evidence \<Rightarrow> bool" where
  "entry_evidence P (Malformed i) ev \<longleftrightarrow> ev = malformed_evidence i"
| "entry_evidence P (Case c) ev \<longleftrightarrow> (\<exists>code writes latency. ev = case_evidence P c code writes latency \<and> evidence_fields_ok ev)"

lemma run_cases_Inr:
  "run_cases P D es s = (Inr (cs, n), s') \<Longrightarrow> list_all2 (entry_evidence P) es cs \<and> 0 \<le> n"
proof (induction P D es s arbitrary: cs n s' rule: run_cases.induct)
  case (2 P D i es s)
  then show ?case by (cases "run_cases P D es s") (auto split: sum.splits)
next
  case (3 P D c es s)
  then obtain ev writes s1 where one: "run_case P D c s = (Inr (ev, writes), s1)" by (auto split: prod.splits sum.splits)
  then have "entry_evidence P (Case c) ev" "0 \<le> writes" by (auto simp: run_case_def Let_def split: prod.splits if_splits)
  moreover obtain r s2 where rest: "run_cases P D es s1 = (r, s2)" by (cases "run_cases P D es s1")
  then obtain cs' m where "r = Inr (cs', m)" "cs = ev # cs'" "n = writes + m" using 3(2) one by (cases r) auto
  ultimately show ?case using 3(1) [OF one [symmetric] refl refl] rest by simp
qed simp

lemma evidence_category: "entry_evidence P en ev \<Longrightarrow> ce_category ev = (case en of Malformed _ \<Rightarrow> None | Case c \<Rightarrow> Some (ec_category c))"
  by (cases en) (auto simp: malformed_evidence_def case_evidence_def Let_def split_beta)

lemma count_where_simps [simp]:
  "count_where p [] = 0" "count_where p (x # xs) = (if p x then 1 else 0) + count_where p xs"
  by (simp_all add: count_where_def)

lemma count_where_le: "0 \<le> count_where p xs" "count_where p xs \<le> int (length xs)"
  by (simp_all add: count_where_def)

lemma count_where_split: "count_where p xs + count_where (\<lambda>x. \<not> p x) xs = int (length xs)"
  by (induction xs) auto

lemma category_counts_sum:
  "sum_list (map (\<lambda>cat. count_where (\<lambda>ev. ce_category ev = Some cat) cs) all_categories) = count_where (\<lambda>ev. ce_category ev \<noteq> None) cs"
proof (induction cs)
  case (Cons ev cs)
  have "sum_list (map (\<lambda>cat. if ce_category ev = Some cat then 1 else 0) all_categories) = (if ce_category ev \<noteq> None then 1 else 0 :: int)"
    by (cases "ce_category ev"; cases "the (ce_category ev)") (simp_all add: all_categories_def category_members_def)
  with Cons show ?case by (simp add: sum_list_addf)
qed (simp add: all_categories_def category_members_def)

lemma malformed_count:
  "list_all2 (entry_evidence P) es cs \<Longrightarrow> count_where (\<lambda>ev. ce_category ev \<noteq> None) cs = int (length (cases_of es))"
proof (induction rule: list_all2_induct)
  case (Cons en es ev cs)
  then show ?case using evidence_category [OF Cons(1)] by (cases en) auto
qed simp

text \<open>A malformed entry is always counted as malformed, so that the counts agree only when no other evidence is.\<close>

lemma invalid_iff_malformed:
  assumes "list_all2 (entry_evidence P) es cs" "count_where (\<lambda>ev. ce_error_code ev = CASE_INVALID) cs = int (length es) - int (length (cases_of es))"
  shows "\<forall>ev \<in> set cs. ce_error_code ev = CASE_INVALID \<longleftrightarrow> ce_category ev = None"
proof -
  have one: "ce_category ev = None \<longrightarrow> ce_error_code ev = CASE_INVALID" if "entry_evidence P en ev" for en ev
    using that evidence_category [OF that] by (cases en) (auto simp: malformed_evidence_def)
  have "count_where (\<lambda>ev. ce_error_code ev = CASE_INVALID) cs \<ge> int (length es) - int (length (cases_of es)) \<and>
      (count_where (\<lambda>ev. ce_error_code ev = CASE_INVALID) cs = int (length es) - int (length (cases_of es)) \<longrightarrow>
       (\<forall>ev \<in> set cs. ce_error_code ev = CASE_INVALID \<longleftrightarrow> ce_category ev = None))"
    using assms(1)
  proof (induction rule: list_all2_induct)
    case (Cons en es ev cs)
    then show ?case using one [OF Cons(1)] evidence_category [OF Cons(1)] by (cases en) auto
  qed simp
  with assms(2) show ?thesis by blast
qed


section \<open>A concrete run\<close>

definition demo_script :: evaluation_fake_script where
  "demo_script = \<lparr>fs_model = SUCCEEDS, fs_embedding = SUCCEEDS, fs_retrieval = SUCCEEDS, fs_tool = SUCCEEDS, fs_tool_profile = TOOL_NONE,
     fs_citation_profile = CITATION_VALID, fs_plan_profile = PLAN_VALID, fs_approval_profile = RESPECTED,
     fs_recovery_outcome = RECOVERED, fs_duplicate_outcome = DEDUPLICATED, fs_dry_run_write_count = 1, fs_input_tokens = Some 3,
     fs_output_tokens = None, fs_latency_ms = 0\<rparr>"

definition demo_expectation :: evaluation_expectation where
  "demo_expectation = \<lparr>ex_error_code = EVAL_NONE, ex_tool_name_valid = True, ex_tool_arguments_valid = True, ex_citation_valid = True,
     ex_approval_respected = True, ex_recovery_outcome = RECOVERED, ex_duplicate_outcome = DEDUPLICATED, ex_dry_run_write_count = 1\<rparr>"

definition demo_case :: "evaluation_category \<Rightarrow> evaluation_case" where
  "demo_case cat = \<lparr>ec_case_id = ''case-1'', ec_category = cat, ec_text = ''Learn'', ec_fake_script = demo_script, ec_expectation = demo_expectation\<rparr>"

definition demo_recorder :: "(tool_profile \<times> int) list evaluation_dependencies" where
  "demo_recorder = \<lparr>ed_model = (\<lambda>c s. (Inr (), s)), ed_embedding = (\<lambda>c s. (Inr (), s)), ed_retrieval = (\<lambda>c s. (Inr (), s)),
     ed_dry_run = recorder_dry_run, ed_real_write_count = recorder_real_write_count, ed_clock = (\<lambda>s. (0, s))\<rparr>"

definition demo_entries :: "evaluation_case dataset_entry list" where
  "demo_entries = replicate 2 (Malformed ''line-0001'') @ map (\<lambda>cat. Case (demo_case cat)) (all_categories @ all_categories @ take 6 all_categories)"

definition demo_evidence :: "evaluation_category \<Rightarrow> evaluation_case_evidence" where
  "demo_evidence cat = \<lparr>ce_case_id = ''case-1'', ce_category = Some cat, ce_outcome = EVAL_SUCCEEDED, ce_error_code = EVAL_NONE,
     ce_tool_name_valid = True, ce_tool_arguments_valid = True, ce_citation_valid = True, ce_approval_respected = True,
     ce_dry_run_write_count = 1, ce_recovery_outcome = RECOVERED, ce_duplicate_outcome = DEDUPLICATED, ce_input_tokens = Some 3,
     ce_output_tokens = None, ce_total_tokens = None, ce_latency_ms = 0\<rparr>"

definition demo_cases :: "evaluation_case_evidence list" where
  "demo_cases = replicate 2 (malformed_evidence ''line-0001'') @ map demo_evidence (all_categories @ all_categories @ take 6 all_categories)"

definition demo_report :: evaluation_report where
  "demo_report = \<lparr>er_cases = demo_cases, er_aggregate = aggregate_of demo_cases 0\<rparr>"

lemma demo_case_run: "\<exists>s'. run_case P demo_recorder (demo_case cat) s = (Inr (demo_evidence cat, 0), s')"
proof -
  have "citation_profile_valid CITATION_VALID"
    by (simp add: citation_profile_valid_def validate_citation_references_def citation_group_ok_def fixture_evidence_def)
  then show ?thesis
    by (simp add: run_case_def demo_recorder_def observed_error_def then_run_def demo_case_def demo_script_def demo_expectation_def
        recorder_dry_run_def recorder_real_write_count_def elapsed_ms_def case_evidence_def profile_evidence_def tool_profile_evidence_def
        evidence_fields_ok_def demo_evidence_def sum_tokens_def Let_def)
qed

lemma demo_cases_run: "\<exists>s'. run_cases P demo_recorder (map (\<lambda>cat. Case (demo_case cat)) cats) s = (Inr (map demo_evidence cats, 0), s')"
proof (induction cats arbitrary: s)
  case (Cons cat cats)
  obtain s1 where "run_case P demo_recorder (demo_case cat) s = (Inr (demo_evidence cat, 0), s1)" using demo_case_run by blast
  moreover obtain s2 where "run_cases P demo_recorder (map (\<lambda>cat. Case (demo_case cat)) cats) s1 = (Inr (map demo_evidence cats, 0), s2)"
    using Cons.IH by blast
  ultimately show ?case by simp
qed simp

lemma demo_report_made: "\<exists>s'. run_evaluation demo_rules_json demo_recorder demo_entries [] = (Inr demo_report, s')"
proof -
  obtain s' where "run_cases demo_rules_json demo_recorder demo_entries [] = (Inr (demo_cases, 0), s')"
    using demo_cases_run [of demo_rules_json "all_categories @ all_categories @ take 6 all_categories" "[]"]
    by (auto simp: demo_entries_def demo_cases_def numeral_2_eq_2)
  moreover have "aggregate_ok (aggregate_of demo_cases 0)" by code_simp
  ultimately show ?thesis by (simp add: run_evaluation_def demo_report_def Let_def)
qed


end
