(* ===== verification/Spec2Isabelle.thy ===== *)
theory Spec2Isabelle
  imports Projects Tasks Authentication Agent_Runs Knowledge_Retrieval Agent_Events Planning_Loop Http_Api
    Configuration Tracing Evaluation_Metrics
begin

text \<open>
  A verification development of the study task management service under \<open>src/app\<close>: a FastAPI
  application over PostgreSQL in which users keep Projects and Tasks, upload knowledge documents,
  and let an agent propose plans whose writes run only after an approval.

  \<^bold>\<open>The parts and how they interact.\<close> A request reaches a service (\<open>app/services\<close>), which validates
  it against a contract (\<open>app/schemas\<close>), opens one or several transactions of a SQLAlchemy session,
  and calls repositories (\<open>app/repositories\<close>) that read and write the mapped rows (\<open>app/models\<close>).
  The agent (\<open>app/agent\<close>) is a LangGraph workflow of eight nodes. It reads through a gateway of
  allowlisted tools, pauses for an approval with a checkpoint, and executes approved actions through
  a coordinator that records every write, so that retries and crashes do not repeat it. The run
  service keeps product rows and checkpoints in step. An event service projects the rows of a run
  to a server-sent event stream. A second, older driver of the agent is a bounded tool-calling loop
  with a synchronous and a streaming front end.

  \<^bold>\<open>Theories, sources and what the lemmas show.\<close>

  \<^item> \<open>Prelude\<close>: identifiers, times, the Python string functions the sources call, results of fallible
    code (\<open>exn + 'a\<close>), pagination, generic lemmas on lists of rows.
  \<^item> \<open>Errors\<close>: \<open>core/exceptions.py\<close> and the exceptions of the agent and the database driver, as one
    datatype \<open>exn\<close>.
  \<^item> \<open>Models\<close>: the tables of \<open>app/models\<close> as records, one record \<open>db\<close> of all tables, and every CHECK,
    UNIQUE and foreign-key constraint as a function that names what a write violates.
  \<^item> \<open>Transactions\<close>: the session (flush, commit, rollback, begin), database faults at every flush and at
    commit, a commit whose acknowledgement is lost although it took effect, sequences of
    operations, and the interfaces below.
  \<^item> \<open>Task_Schemas\<close>, \<open>Task_Queries\<close>, \<open>Tasks\<close>: \<open>schemas/task.py\<close>, \<open>repositories/tasks.py\<close>, \<open>services/tasks.py\<close>. Rows
    move along the lifecycle edges only; batches are atomic; listings are exact; search text is
    taken literally; users cannot observe each other.
  \<^item> \<open>Projects\<close>: \<open>schemas\<close>, \<open>repositories\<close> and \<open>services/projects.py\<close>. Archived Projects are frozen.
  \<^item> \<open>Accounts\<close>, \<open>Authentication\<close>: \<open>core/security.py\<close>, \<open>core/email_normalization.py\<close>,
    \<open>core/refresh_tokens.py\<close>, registration, current user, login, refresh rotation, logout and password
    change. Credentials are used once; a password change ends every session; registration is safe
    under races.
  \<^item> \<open>Agent_Tools\<close>: \<open>agent/tools.py\<close>, \<open>policy.py\<close>, \<open>context.py\<close>, \<open>services/agent_domain.py\<close>. What a tool call may
    touch.
  \<^item> \<open>Agent_State\<close>, \<open>Agent_Nodes\<close>, \<open>Agent_Graph\<close>: \<open>agent/state.py\<close>, \<open>schemas.py\<close>, \<open>metrics.py\<close>, \<open>grounding.py\<close>, \<open>nodes/*\<close>,
    \<open>routing.py\<close>, \<open>graph.py\<close>. The approval shows what runs; without an approval nothing is written;
    every run concludes; checkpoints can be resumed.
  \<^item> \<open>Tool_Executions\<close>: \<open>services/agent_tool_executions.py\<close> and its repository. Workers that interleave,
    crash and retry are an inductive step relation; an action writes at most once.
  \<^item> \<open>Agent_Runs\<close>: \<open>services/agent_workflow.py\<close>, \<open>services/agent_runs.py\<close> and repositories. A durable decision is
    final, and resubmitting it after a crash ends like the submission that was not interrupted.
  \<^item> \<open>Knowledge_Documents\<close>, \<open>Knowledge_Retrieval\<close>: upload, parsing, chunking, indexing, embeddings, hybrid
    search and rank fusion. Chunks rebuild the document; indexing replaces exactly its chunks;
    searches are deterministic and scoped to their owner.
  \<^item> \<open>Agent_Events\<close>: \<open>services/agent_events.py\<close> and the endpoint that streams it. Events are complete and
    ordered, frames can be read back, and what a cursor means.
  \<^item> \<open>Prompt_Budget\<close>: \<open>agent/prompt_budget.py\<close> and the proposal prompt of \<open>prompts.py\<close>. Texts are cut to the longest prefix
    that fits, evidence cannot leave its delimiters, a context that fits is sent complete, and the second
    pass can outgrow the limit.
  \<^item> \<open>Planning_Loop\<close>: \<open>agent/loop.py\<close>, \<open>events.py\<close>, \<open>planning.py\<close>, \<open>providers.py\<close>, the goal prompt of \<open>prompts.py\<close>. The loop is bounded,
    the streaming driver agrees with the synchronous one, provider answers are normalised.
  \<^item> \<open>Http_Access\<close>: \<open>core/tokens.py\<close>, \<open>api/dependencies.py\<close>, \<open>middleware/request_body_limit.py\<close> and the validation handler of
    \<open>main.py\<close>. What an access token grants and for how long, how much of an upload can reach the application, and
    what a validation answer reflects.
  \<^item> \<open>Http_Api\<close>: the 26 endpoints of \<open>api/v1/endpoints\<close> over all services, with authentication in front and the mapping of
    exceptions to answers. Requests without a user do nothing, resources of others look absent, credential paths
    answer documented statuses only, and a login grants access to its account.

  \<^item> \<open>Floats\<close>: the doubles, decimals and printed numbers of Python, as functions on rationals. Integers below \<open>2 ^ 53\<close>
    are exact, and rounding never crosses one.
  \<^item> \<open>Configuration\<close>: \<open>core/config.py\<close> and \<open>agent/checkpointing.py\<close>. What validated settings guarantee to the code that uses them;
    a checkpoint saver that was opened is closed exactly once.
  \<^item> \<open>Tracing\<close>: \<open>agent/tracing.py\<close>. Only events that satisfy their contract reach a sink, and failing sinks and clocks
    are isolated from the traced code.
  \<^item> \<open>Evaluation\<close>, \<open>Evaluation_Metrics\<close>: \<open>agent/evaluation.py\<close> and \<open>agent/evaluation_metrics.py\<close>. A report counts exactly its cases,
    rounding never changes a decision of the gate, and for which reports there is a verdict.

  \<^bold>\<open>Interfaces.\<close> \<open>invariant_operations\<close>, \<open>owner_scoped\<close> and \<open>owner_restricted\<close> (\<open>Transactions\<close>) state what a service
    over owned rows promises; they are interpreted on the request functions of Projects, Tasks and
    Authentication, and non-interference follows there. \<open>domain_dispatch\<close> (\<open>Tool_Executions\<close>) states
    what the coordinator needs of the domain gateway and is interpreted on its model, as is
    \<open>confined_tools\<close> (\<open>Planning_Loop\<close>) for the tools of the loop. \<open>character_renderer\<close> and \<open>item_renderer\<close>
    (\<open>Prompt_Budget\<close>) are what the cutting of texts and lists relies on; every section of the prompt is an
    interpretation.

  \<^bold>\<open>Bounds and fuel.\<close> \<open>invoke\<close> runs the graph with the recursion limit of the source, 16 supersteps,
  as fuel; \<open>workflow_concludes\<close> shows that 14 are enough for every run, so the limit is never hit. The
  tool loop recurses over the rounds of the source (at most four). All other loops are structural
  recursions or have a termination proof.

  \<^bold>\<open>Parameters.\<close> Code that is not part of the repository enters as arguments: password hashing, the
  email validator, SHA-256 and random bytes, the JWT library, JSON decoding and encoding,
  the model provider and its SDK, the PDF reader and the UTF-8 decoder, embeddings and the ranking
  functions of PostgreSQL, the tables of \<open>unicodedata\<close>, the URL parser of SQLAlchemy, the checkpoint saver of LangGraph, the
  dependencies that an evaluation is run with, clocks, and the faults of the database. What a theorem relies on is a
  hypothesis of that theorem.

  \<^bold>\<open>Not modelled.\<close> The reading of environment variables by pydantic-settings, the matching of paths and the decoding of JSON bodies
  by FastAPI, the health endpoints, database migrations, the raw streaming of the provider SDK, the canonical JSON texts of
  evaluation reports, and the harness of the second version of the evaluation, which drives the graph with scripted providers.
\<close>

end
